theory Spec2Isabelle
  imports Complex_Main "HOL-Library.Char_ord" "HOL-Library.List_Lexorder" "HOL-Library.Sublist"
    "HOL-Library.AList"
begin

section \<open>JavaScript numbers\<close>

text \<open>
  The balance and analytics code of \<^verbatim>\<open>server/storage.ts\<close> and \<^verbatim>\<open>server/routes.ts\<close>
  computes with JavaScript numbers: \<^verbatim>\<open>parseFloat\<close> of a decimal string, \<^verbatim>\<open>+\<close>, \<^verbatim>\<open>-\<close>,
  \<^verbatim>\<open>/\<close>, \<^verbatim>\<open>*\<close>, \<^verbatim>\<open>>\<close> and \<^verbatim>\<open>toFixed(2)\<close>. A number is an IEEE 754 binary64 value:
  a finite value is represented by the rational it denotes, every operation is the exact
  operation followed by rounding to the nearest binary64 value, ties to even. The two zeros
  are identified: the program never divides by a zero (its only division is guarded by
  \<^verbatim>\<open>> 0\<close>) and \<^verbatim>\<open>toFixed\<close> prints both as \<^verbatim>\<open>0.00\<close>.
\<close>

datatype number = Fin rat | PInf | NInf | NaN

definition pow2 :: "int \<Rightarrow> rat" where
  "pow2 k = (if 0 \<le> k then 2 ^ nat k else 1 / 2 ^ nat (- k))"

definition pow10 :: "int \<Rightarrow> rat" where
  "pow10 k = (if 0 \<le> k then 10 ^ nat k else 1 / 10 ^ nat (- k))"

text \<open>Number of binary digits of a positive integer.\<close>

function bitlen :: "int \<Rightarrow> int" where
  "bitlen n = (if 0 < n then 1 + bitlen (n div 2) else 0)"
  by pat_completeness auto
termination
  by (relation "measure nat") auto

declare bitlen.simps [simp del]

text \<open>The binary exponent \<open>\<lfloor>log\<^sub>2 \<bar>q\<bar>\<rfloor>\<close> of a rational \<open>q \<noteq> 0\<close>.\<close>

definition ilog2 :: "rat \<Rightarrow> int" where
  "ilog2 q = (let (n, d) = quotient_of \<bar>q\<bar>;
                  e = bitlen n - bitlen d
              in if pow2 e \<le> \<bar>q\<bar> then e else e - 1)"

text \<open>Nearest integer, ties to the even one.\<close>

definition rne :: "rat \<Rightarrow> int" where
  "rne x = (let f = \<lfloor>x\<rfloor>; r = x - of_int f
            in if r < 1 / 2 then f else if 1 / 2 < r then f + 1
               else if even f then f else f + 1)"

text \<open>
  Rounding of an exact result to binary64: 53 significant bits, the spacing of the
  subnormal numbers (\<open>2\<^sup>-\<^sup>1\<^sup>0\<^sup>7\<^sup>4\<close>) below the normal range, and an infinity when the
  rounded magnitude reaches \<open>2\<^sup>1\<^sup>0\<^sup>2\<^sup>4\<close>.
\<close>

definition round_double :: "rat \<Rightarrow> number" where
  "round_double q =
     (if q = 0 then Fin 0
      else let k = max (ilog2 q - 52) (- 1074);
               r = of_int (rne (q / pow2 k)) * pow2 k
           in if 1024 \<le> ilog2 r then (if 0 < q then PInf else NInf) else Fin r)"

fun fneg :: "number \<Rightarrow> number" where
  "fneg (Fin a) = Fin (- a)"
| "fneg PInf = NInf"
| "fneg NInf = PInf"
| "fneg NaN = NaN"

fun fadd :: "number \<Rightarrow> number \<Rightarrow> number" where
  "fadd (Fin a) (Fin b) = round_double (a + b)"
| "fadd NaN _ = NaN"
| "fadd _ NaN = NaN"
| "fadd PInf NInf = NaN"
| "fadd NInf PInf = NaN"
| "fadd PInf _ = PInf"
| "fadd NInf _ = NInf"
| "fadd _ PInf = PInf"
| "fadd _ NInf = NInf"

definition fsub :: "number \<Rightarrow> number \<Rightarrow> number" where
  "fsub a b = fadd a (fneg b)"

fun fsign :: "number \<Rightarrow> int" where
  "fsign (Fin a) = (if a < 0 then - 1 else 1)"
| "fsign PInf = 1"
| "fsign NInf = - 1"
| "fsign NaN = 1"

definition finf :: "int \<Rightarrow> number" where
  "finf s = (if s < 0 then NInf else PInf)"

definition fmul :: "number \<Rightarrow> number \<Rightarrow> number" where
  "fmul x y =
     (case (x, y) of
        (Fin a, Fin b) \<Rightarrow> round_double (a * b)
      | _ \<Rightarrow> if x = NaN \<or> y = NaN \<or> x = Fin 0 \<or> y = Fin 0 then NaN
             else finf (fsign x * fsign y))"

definition fdiv :: "number \<Rightarrow> number \<Rightarrow> number" where
  "fdiv x y =
     (case (x, y) of
        (Fin a, Fin b) \<Rightarrow>
          if b = 0 then (if a = 0 then NaN else finf (fsign x)) else round_double (a / b)
      | (Fin a, _) \<Rightarrow> if y = NaN then NaN else Fin 0
      | (_, Fin b) \<Rightarrow> if x = NaN then NaN else finf (fsign x * fsign y)
      | _ \<Rightarrow> NaN)"

text \<open>The comparison \<^verbatim>\<open>a > b\<close>; false when either side is \<^verbatim>\<open>NaN\<close>.\<close>

fun fgt :: "number \<Rightarrow> number \<Rightarrow> bool" where
  "fgt (Fin a) (Fin b) = (b < a)"
| "fgt NaN _ = False"
| "fgt _ NaN = False"
| "fgt PInf PInf = False"
| "fgt PInf _ = True"
| "fgt _ PInf = False"
| "fgt NInf _ = False"
| "fgt _ NInf = True"

text \<open>\<^verbatim>\<open>Math.max(a, b)\<close>.\<close>

definition fmax :: "number \<Rightarrow> number \<Rightarrow> number" where
  "fmax a b = (if a = NaN \<or> b = NaN then NaN else if fgt b a then b else a)"

text \<open>Truthiness of a number: \<^verbatim>\<open>0\<close> and \<^verbatim>\<open>NaN\<close> are falsy.\<close>

definition truthy :: "number \<Rightarrow> bool" where
  "truthy x = (x \<noteq> Fin 0 \<and> x \<noteq> NaN)"

section \<open>Strings and decimal notation\<close>

text \<open>
  A string is the byte sequence of its UTF-8 encoding. The program compares strings for
  equality, searches a substring (\<^verbatim>\<open>includes\<close>) and sorts by code unit; on well-formed
  text the three agree with their bytewise counterparts.
\<close>

definition is_digit :: "char \<Rightarrow> bool" where
  "is_digit c = (c \<in> set ''0123456789'')"

definition digit_val :: "char \<Rightarrow> int" where
  "digit_val c = int (length (takeWhile (\<lambda>d. d \<noteq> c) ''0123456789''))"

definition digit_char :: "int \<Rightarrow> char" where
  "digit_char d = ''0123456789'' ! nat d"

text \<open>The decimal digits of a non-negative integer, most significant first.\<close>

function dec :: "int \<Rightarrow> string" where
  "dec n = (if n < 10 then [digit_char n] else dec (n div 10) @ [digit_char (n mod 10)])"
  by pat_completeness auto
termination
  by (relation "measure nat") auto

declare dec.simps [simp del]

definition digits_val :: "string \<Rightarrow> int" where
  "digits_val ds = foldl (\<lambda>a c. 10 * a + digit_val c) 0 ds"

text \<open>\<^verbatim>\<open>String(n)\<close> for an integer \<open>n\<close>.\<close>

definition int_to_string :: "int \<Rightarrow> string" where
  "int_to_string n = (if n < 0 then CHR ''-'' # dec (- n) else dec n)"

text \<open>\<^verbatim>\<open>s.padStart(2, '0')\<close>.\<close>

definition padStart2 :: "string \<Rightarrow> string" where
  "padStart2 s = replicate (2 - length s) CHR ''0'' @ s"

text \<open>\<^verbatim>\<open>s.includes(t)\<close>: \<open>t\<close> occurs in \<open>s\<close> as a contiguous substring.\<close>

fun includes_str :: "string \<Rightarrow> string \<Rightarrow> bool" where
  "includes_str [] t = (t = [])"
| "includes_str (c # s) t = (prefix t (c # s) \<or> includes_str s t)"

subsection \<open>parseFloat\<close>

text \<open>
  The white space and line terminator characters that \<^verbatim>\<open>parseFloat\<close> skips at the start
  of its argument, in UTF-8: TAB, LF, VT, FF, CR, SP, U+00A0, U+1680, U+2000 to U+200A,
  U+2028, U+2029, U+202F, U+205F, U+3000 and U+FEFF.
\<close>

definition white_space :: "string list" where
  "white_space =
     map (\<lambda>c. [c]) [CHR 0x09, CHR 0x0A, CHR 0x0B, CHR 0x0C, CHR 0x0D, CHR 0x20]
     @ [[CHR 0xC2, CHR 0xA0], [CHR 0xE1, CHR 0x9A, CHR 0x80]]
     @ map (\<lambda>c. [CHR 0xE2, CHR 0x80, c])
         [CHR 0x80, CHR 0x81, CHR 0x82, CHR 0x83, CHR 0x84, CHR 0x85, CHR 0x86, CHR 0x87,
          CHR 0x88, CHR 0x89, CHR 0x8A, CHR 0xA8, CHR 0xA9, CHR 0xAF]
     @ [[CHR 0xE2, CHR 0x81, CHR 0x9F], [CHR 0xE3, CHR 0x80, CHR 0x80],
        [CHR 0xEF, CHR 0xBB, CHR 0xBF]]"

fun trimStart :: "string \<Rightarrow> string" where
  "trimStart [] = []"
| "trimStart (c # s) =
     (case find (\<lambda>w. prefix w (c # s)) white_space of
        None \<Rightarrow> c # s
      | Some w \<Rightarrow> trimStart (drop (length w - 1) s))"

declare trimStart.simps [simp del]

text \<open>The optional sign of a literal: the sign read and the rest of the string.\<close>

definition take_sign :: "string \<Rightarrow> bool \<times> string" where
  "take_sign s =
     (case s of
        [] \<Rightarrow> (False, [])
      | c # r \<Rightarrow> if c = CHR ''-'' then (True, r) else if c = CHR ''+'' then (False, r)
                 else (False, s))"

text \<open>
  The exponent part \<^verbatim>\<open>e\<close>/\<^verbatim>\<open>E\<close>, optional sign, digits. An exponent indicator that no digit
  follows is not part of the literal.
\<close>

definition exponent_part :: "string \<Rightarrow> int" where
  "exponent_part s =
     (case s of
        [] \<Rightarrow> 0
      | c # r \<Rightarrow>
          if c = CHR ''e'' \<or> c = CHR ''E''
          then (let (neg, r') = take_sign r; ds = takeWhile is_digit r'
                in if ds = [] then 0 else if neg then - digits_val ds else digits_val ds)
          else 0)"

text \<open>
  The mathematical value of the longest prefix that is an unsigned decimal literal
  (digits, optional fraction, optional exponent), if there is one.
\<close>

definition unsigned_literal :: "string \<Rightarrow> rat option" where
  "unsigned_literal s =
     (let ip = takeWhile is_digit s; r1 = dropWhile is_digit s;
          (fp, r2) = (case r1 of
                        [] \<Rightarrow> ([], [])
                      | c # r \<Rightarrow> if c = CHR ''.''
                                 then (takeWhile is_digit r, dropWhile is_digit r)
                                 else ([], r1))
      in if ip = [] \<and> fp = [] then None
         else Some ((of_int (digits_val ip) + of_int (digits_val fp) / 10 ^ length fp)
                    * pow10 (exponent_part r2)))"

definition parseFloat :: "string \<Rightarrow> number" where
  "parseFloat s =
     (let (neg, u) = take_sign (trimStart s)
      in if prefix ''Infinity'' u then (if neg then NInf else PInf)
         else case unsigned_literal u of
                None \<Rightarrow> NaN
              | Some q \<Rightarrow> if neg then fneg (round_double q) else round_double q)"

subsection \<open>toFixed\<close>

text \<open>
  \<^verbatim>\<open>Number.prototype.toString\<close> for a finite number \<open>x \<ge> 10\<^sup>2\<^sup>1\<close> (an integer): the shortest
  decimal significand \<open>s\<close> of \<open>k\<close> digits with \<open>s \<times> 10\<^sup>n\<^sup>-\<^sup>k\<close> rounding to \<open>x\<close>, the one nearest
  to \<open>x\<close> if there are two, in exponential notation.
\<close>

definition significand_candidates :: "rat \<Rightarrow> int \<Rightarrow> int \<Rightarrow> int list" where
  "significand_candidates x n k =
     (let p = pow10 (n - k); lo = \<lfloor>x / p\<rfloor>;
          ok = filter (\<lambda>s. s < 10 ^ nat k \<and> round_double (of_int s * p) = Fin x) [lo, lo + 1]
      in case ok of
           [a, b] \<Rightarrow> if x - of_int a * p \<le> of_int b * p - x then [a] else [b]
         | _ \<Rightarrow> ok)"

definition shortest_digits :: "rat \<Rightarrow> int \<times> int" where
  "shortest_digits x =
     (let n = int (length (dec \<lfloor>x\<rfloor>))
      in if round_double (pow10 n) = Fin x then (1, n + 1)
         else case concat (map (\<lambda>k. significand_candidates x n k) [1 ..< nat n]) of
                s # _ \<Rightarrow> (s, n)
              | [] \<Rightarrow> (\<lfloor>x\<rfloor>, n))"

definition exponential_notation :: "rat \<Rightarrow> string" where
  "exponential_notation x =
     (let (s, n) = shortest_digits x; ds = dec s
      in hd ds # (if tl ds = [] then [] else CHR ''.'' # tl ds) @ ''e+'' @ dec (n - 1))"

text \<open>
  \<^verbatim>\<open>x.toFixed(f)\<close> for \<open>0 \<le> f \<le> 100\<close>: the integer \<open>n\<close> for which \<open>n / 10\<^sup>f\<close> is nearest to the
  magnitude of \<open>x\<close> (the larger one of two), printed with \<open>f\<close> fraction digits.
\<close>

definition toFixed :: "nat \<Rightarrow> number \<Rightarrow> string" where
  "toFixed f x =
     (case x of
        NaN \<Rightarrow> ''NaN''
      | PInf \<Rightarrow> ''Infinity''
      | NInf \<Rightarrow> ''-Infinity''
      | Fin r \<Rightarrow>
          (let s = (if r < 0 then ''-'' else ''''); a = \<bar>r\<bar>
           in if 10 ^ 21 \<le> a then s @ exponential_notation a
              else let n = \<lfloor>a * 10 ^ f + 1 / 2\<rfloor>;
                       m = dec n;
                       z = replicate (f + 1 - length m) CHR ''0'' @ m;
                       k = length z
                   in s @ (if f = 0 then m else take (k - f) z @ ''.'' @ drop (k - f) z)))"

section \<open>Data model\<close>

text \<open>
  The rows of \<^verbatim>\<open>shared/schema.ts\<close>. Identifiers are JavaScript numbers holding integers,
  dates are time values in milliseconds, a nullable column is an \<open>option\<close>. Balances and
  amounts are the strings of the \<^verbatim>\<open>decimal(15, 2)\<close> columns.
\<close>

record account =
  a_id :: int
  a_name :: string
  a_type :: string
  balance :: string
  bankName :: "string option"
  accountNumber :: "string option"
  a_userId :: "int option"
  a_createdAt :: "int option"

record category =
  c_id :: int
  c_name :: string
  color :: string
  c_type :: string
  c_createdAt :: "int option"

record transaction =
  t_id :: int
  t_type :: string
  amount :: string
  description :: string
  thirdParty :: "string option"
  categoryId :: "int option"
  accountId :: "int option"
  paymentMethod :: "string option"
  receiptUrl :: "string option"
  t_notes :: "string option"
  t_userId :: "int option"
  t_createdAt :: "int option"
  transactionDate :: "int option"

text \<open>\<^verbatim>\<open>InsertTransaction\<close>: an optional or nullable property is an \<open>option\<close>.\<close>

record insertTransaction =
  i_type :: string
  i_amount :: string
  i_description :: string
  i_thirdParty :: "string option"
  i_categoryId :: "int option"
  i_accountId :: "int option"
  i_paymentMethod :: "string option"
  i_receiptUrl :: "string option"
  i_notes :: "string option"
  i_userId :: "int option"
  i_transactionDate :: "int option"

text \<open>
  \<^verbatim>\<open>Partial<InsertTransaction>\<close>: \<open>None\<close> is an absent property, \<open>Some v\<close> a property that
  is present with value \<open>v\<close> (which for a nullable column may itself be \<open>None\<close>, null).
\<close>

record transactionUpdate =
  u_type :: "string option"
  u_amount :: "string option"
  u_description :: "string option"
  u_thirdParty :: "string option option"
  u_categoryId :: "int option option"
  u_accountId :: "int option option"
  u_paymentMethod :: "string option option"
  u_receiptUrl :: "string option option"
  u_notes :: "string option option"
  u_userId :: "int option option"
  u_transactionDate :: "int option option"

section \<open>The in-memory store\<close>

text \<open>
  \<^verbatim>\<open>MemStorage\<close> keeps each table in a \<^verbatim>\<open>Map\<close>, which iterates in insertion order: an
  association list, where \<^verbatim>\<open>get\<close> is \<^const>\<open>map_of\<close>, \<^verbatim>\<open>set\<close> is \<^const>\<open>AList.update\<close>
  and \<^verbatim>\<open>delete\<close> is \<^const>\<open>AList.delete\<close>. Only the tables and the counter that the
  transaction operations touch are part of the state.
\<close>

record store =
  accounts :: "(int \<times> account) list"
  transactions :: "(int \<times> transaction) list"
  currentTransactionId :: int

text \<open>\<^verbatim>\<open>x || null\<close> on an optional string and on an optional number.\<close>

definition or_null_str :: "string option \<Rightarrow> string option" where
  "or_null_str x = (if x = Some [] then None else x)"

definition or_null_num :: "int option \<Rightarrow> int option" where
  "or_null_num x = (if x = Some 0 then None else x)"

text \<open>
  \<^verbatim>\<open>MemStorage.createTransaction\<close>; \<open>now\<close> is the reading of the clock (\<^verbatim>\<open>new Date()\<close>).
  \<^verbatim>\<open>DatabaseStorage.createTransaction\<close> performs the same balance step on the row that
  the database returns.
\<close>

definition createTransaction :: "int \<Rightarrow> insertTransaction \<Rightarrow> store \<Rightarrow> transaction \<times> store" where
  "createTransaction now insertTransaction s =
     (let tid = currentTransactionId s;
          transaction = \<lparr>
            t_id = tid,
            t_type = i_type insertTransaction,
            amount = i_amount insertTransaction,
            description = i_description insertTransaction,
            thirdParty = or_null_str (i_thirdParty insertTransaction),
            categoryId = or_null_num (i_categoryId insertTransaction),
            accountId = or_null_num (i_accountId insertTransaction),
            paymentMethod = or_null_str (i_paymentMethod insertTransaction),
            receiptUrl = or_null_str (i_receiptUrl insertTransaction),
            t_notes = or_null_str (i_notes insertTransaction),
            t_userId = or_null_num (i_userId insertTransaction),
            t_createdAt = Some now,
            transactionDate =
              Some (case i_transactionDate insertTransaction of None \<Rightarrow> now | Some d \<Rightarrow> d) \<rparr>;
          s1 = s\<lparr> currentTransactionId := tid + 1,
                  transactions := AList.update tid transaction (transactions s) \<rparr>
      in case or_null_num (accountId transaction) of
           None \<Rightarrow> (transaction, s1)
         | Some aid \<Rightarrow>
             (case map_of (accounts s1) aid of
                None \<Rightarrow> (transaction, s1)
              | Some account \<Rightarrow>
                  (let currentBalance = parseFloat (balance account);
                       transactionAmount = parseFloat (amount transaction);
                       newBalance = (if t_type transaction = ''income''
                                     then fadd currentBalance transactionAmount
                                     else fsub currentBalance transactionAmount)
                   in (transaction,
                       s1\<lparr> accounts :=
                             AList.update aid (account\<lparr> balance := toFixed 2 newBalance \<rparr>)
                               (accounts s1) \<rparr>))))"

text \<open>\<^verbatim>\<open>{ ...transaction, ...updates }\<close>.\<close>

definition apply_updates :: "transaction \<Rightarrow> transactionUpdate \<Rightarrow> transaction" where
  "apply_updates t u =
     t\<lparr> t_type := (case u_type u of None \<Rightarrow> t_type t | Some v \<Rightarrow> v),
        amount := (case u_amount u of None \<Rightarrow> amount t | Some v \<Rightarrow> v),
        description := (case u_description u of None \<Rightarrow> description t | Some v \<Rightarrow> v),
        thirdParty := (case u_thirdParty u of None \<Rightarrow> thirdParty t | Some v \<Rightarrow> v),
        categoryId := (case u_categoryId u of None \<Rightarrow> categoryId t | Some v \<Rightarrow> v),
        accountId := (case u_accountId u of None \<Rightarrow> accountId t | Some v \<Rightarrow> v),
        paymentMethod := (case u_paymentMethod u of None \<Rightarrow> paymentMethod t | Some v \<Rightarrow> v),
        receiptUrl := (case u_receiptUrl u of None \<Rightarrow> receiptUrl t | Some v \<Rightarrow> v),
        t_notes := (case u_notes u of None \<Rightarrow> t_notes t | Some v \<Rightarrow> v),
        t_userId := (case u_userId u of None \<Rightarrow> t_userId t | Some v \<Rightarrow> v),
        transactionDate :=
          (case u_transactionDate u of None \<Rightarrow> transactionDate t | Some v \<Rightarrow> v) \<rparr>"

text \<open>\<^verbatim>\<open>MemStorage.updateTransaction\<close>; \<open>None\<close> is \<^verbatim>\<open>undefined\<close>.\<close>

definition updateTransaction ::
  "int \<Rightarrow> transactionUpdate \<Rightarrow> store \<Rightarrow> transaction option \<times> store" where
  "updateTransaction tid updates s =
     (case map_of (transactions s) tid of
        None \<Rightarrow> (None, s)
      | Some transaction \<Rightarrow>
          (let updatedTransaction = apply_updates transaction updates
           in (Some updatedTransaction,
               s\<lparr> transactions := AList.update tid updatedTransaction (transactions s) \<rparr>)))"

text \<open>\<^verbatim>\<open>MemStorage.deleteTransaction\<close>.\<close>

definition deleteTransaction :: "int \<Rightarrow> store \<Rightarrow> bool \<times> store" where
  "deleteTransaction tid s =
     (case map_of (transactions s) tid of
        None \<Rightarrow> (False, s)
      | Some transaction \<Rightarrow>
          (let s1 =
             (case or_null_num (accountId transaction) of
                None \<Rightarrow> s
              | Some aid \<Rightarrow>
                  (case map_of (accounts s) aid of
                     None \<Rightarrow> s
                   | Some account \<Rightarrow>
                       (let currentBalance = parseFloat (balance account);
                            transactionAmount = parseFloat (amount transaction);
                            newBalance = (if t_type transaction = ''income''
                                          then fsub currentBalance transactionAmount
                                          else fadd currentBalance transactionAmount)
                        in s\<lparr> accounts :=
                                AList.update aid (account\<lparr> balance := toFixed 2 newBalance \<rparr>)
                                  (accounts s) \<rparr>)))
           in (True, s1\<lparr> transactions := AList.delete tid (transactions s1) \<rparr>)))"

section \<open>The database store\<close>

text \<open>
  \<^verbatim>\<open>DatabaseStorage\<close> keeps the tables of \<^verbatim>\<open>shared/schema.ts\<close> in PostgreSQL. The state
  holds the two tables that the transaction operations read and write and, of the tables
  that a transaction row references besides, the ids. The database itself is not part of
  the program. Of it the model has what the schema declares: the primary key of a table
  is unique, a foreign key that is not null is the id of a row of the referenced table,
  and a text that is written to a \<^verbatim>\<open>decimal(15, 2)\<close> column is converted to a value of the
  column or rejected. The conversion is the parameter \<open>numeric\<close>: \<open>None\<close> for a text that
  the database rejects, else the text of the stored value as a query returns it. The id
  that the sequence of the \<^verbatim>\<open>serial\<close> column yields is the parameter \<open>tid\<close>.
\<close>

datatype db_error = NumericRejected | UniqueViolation | ForeignKeyViolation

record database =
  db_users :: "int list"
  db_categories :: "int list"
  db_accounts :: "(int \<times> account) list"
  db_transactions :: "(int \<times> transaction) list"

text \<open>\<^verbatim>\<open>.references(() => table.id)\<close> on a nullable column.\<close>

definition references :: "int option \<Rightarrow> int list \<Rightarrow> bool" where
  "references fk ids = (case fk of None \<Rightarrow> True | Some k \<Rightarrow> k \<in> set ids)"

text \<open>
  The row that \<^verbatim>\<open>db.insert(transactions).values(insertTransaction).returning()\<close> returns
  when the database accepts it, \<open>am\<close> being the stored amount. The table of
  \<^verbatim>\<open>shared/schema.ts\<close> has no column for \<open>thirdParty\<close>, so the row has none; a property
  that is absent takes the default of its column, which is \<^verbatim>\<open>now()\<close> for the two
  timestamps and null elsewhere.
\<close>

definition inserted_row :: "int \<Rightarrow> int \<Rightarrow> insertTransaction \<Rightarrow> string \<Rightarrow> transaction" where
  "inserted_row tid now insertTransaction am =
     \<lparr> t_id = tid,
       t_type = i_type insertTransaction,
       amount = am,
       description = i_description insertTransaction,
       thirdParty = None,
       categoryId = i_categoryId insertTransaction,
       accountId = i_accountId insertTransaction,
       paymentMethod = i_paymentMethod insertTransaction,
       receiptUrl = i_receiptUrl insertTransaction,
       t_notes = i_notes insertTransaction,
       t_userId = i_userId insertTransaction,
       t_createdAt = Some now,
       transactionDate =
         Some (case i_transactionDate insertTransaction of None \<Rightarrow> now | Some d \<Rightarrow> d) \<rparr>"

text \<open>
  \<^verbatim>\<open>db.insert(transactions).values(insertTransaction).returning()\<close>: the statement fails,
  and the table is as before, when the amount is rejected, when the id is taken or when
  one of the three foreign keys names no row.
\<close>

definition insert_transaction ::
  "(string \<Rightarrow> string option) \<Rightarrow> int \<Rightarrow> int \<Rightarrow> insertTransaction \<Rightarrow> database
     \<Rightarrow> db_error + transaction \<times> database" where
  "insert_transaction numeric tid now insertTransaction db =
     (case numeric (i_amount insertTransaction) of
        None \<Rightarrow> Inl NumericRejected
      | Some am \<Rightarrow>
          if tid \<in> set (map fst (db_transactions db)) then Inl UniqueViolation
          else if references (i_categoryId insertTransaction) (db_categories db)
                  \<and> references (i_accountId insertTransaction) (map fst (db_accounts db))
                  \<and> references (i_userId insertTransaction) (db_users db)
          then (let transaction = inserted_row tid now insertTransaction am
                in Inr (transaction,
                        db\<lparr> db_transactions := db_transactions db @ [(tid, transaction)] \<rparr>))
          else Inl ForeignKeyViolation)"

text \<open>
  \<^verbatim>\<open>DatabaseStorage.updateAccount(id, { balance })\<close>:
  \<^verbatim>\<open>db.update(accounts).set(updates).where(eq(accounts.id, id))\<close>.
\<close>

definition updateAccount_balance ::
  "(string \<Rightarrow> string option) \<Rightarrow> int \<Rightarrow> string \<Rightarrow> database \<Rightarrow> db_error + database" where
  "updateAccount_balance numeric aid b db =
     (case numeric b of
        None \<Rightarrow> Inl NumericRejected
      | Some v \<Rightarrow>
          Inr (db\<lparr> db_accounts :=
                    AList.map_entry aid (\<lambda>a. a\<lparr> balance := v \<rparr>) (db_accounts db) \<rparr>))"

text \<open>
  \<^verbatim>\<open>DatabaseStorage.createTransaction\<close>. The statements run one by one, outside of any
  database transaction: an error of the update leaves the inserted row in place.
\<close>

definition createTransaction_db ::
  "(string \<Rightarrow> string option) \<Rightarrow> int \<Rightarrow> int \<Rightarrow> insertTransaction \<Rightarrow> database
     \<Rightarrow> (db_error + transaction) \<times> database" where
  "createTransaction_db numeric tid now insertTransaction db =
     (case insert_transaction numeric tid now insertTransaction db of
        Inl e \<Rightarrow> (Inl e, db)
      | Inr (transaction, db1) \<Rightarrow>
          (case or_null_num (accountId transaction) of
             None \<Rightarrow> (Inr transaction, db1)
           | Some aid \<Rightarrow>
               (case map_of (db_accounts db1) aid of
                  None \<Rightarrow> (Inr transaction, db1)
                | Some account \<Rightarrow>
                    (let currentBalance = parseFloat (balance account);
                         transactionAmount = parseFloat (amount transaction);
                         newBalance = (if t_type transaction = ''income''
                                       then fadd currentBalance transactionAmount
                                       else fsub currentBalance transactionAmount)
                     in case updateAccount_balance numeric aid (toFixed 2 newBalance) db1 of
                          Inl e \<Rightarrow> (Inl e, db1)
                        | Inr db2 \<Rightarrow> (Inr transaction, db2)))))"

definition db_balance_of :: "int \<Rightarrow> database \<Rightarrow> string option" where
  "db_balance_of A db = map_option balance (map_of (db_accounts db) A)"

section \<open>Analytics\<close>

text \<open>
  The handlers of \<^verbatim>\<open>server/routes.ts\<close> as functions of the rows that the storage returns
  (\<^verbatim>\<open>getTransactionsByUserId\<close>, \<^verbatim>\<open>getAccountsByUserId\<close>, \<^verbatim>\<open>getAllCategories\<close>), in
  the order in which it returns them.
\<close>

definition transfer_marker :: string where
  "transfer_marker = ''Transferencia''"

definition loan_payment_marker :: string where
  "loan_payment_marker = ''Pago de pr'' @ [CHR 0xC3, CHR 0xA9] @ ''stamo''"

definition uncategorized_label :: string where
  "uncategorized_label = ''Sin categor'' @ [CHR 0xC3, CHR 0xAD] @ ''a''"

text \<open>
  The filter that every aggregate applies:
  \<^verbatim>\<open>t.type === ty && t.thirdParty !== "Transferencia" && !t.description?.includes(...)\<close>.
\<close>

definition counted_as :: "string \<Rightarrow> transaction \<Rightarrow> bool" where
  "counted_as ty t =
     (t_type t = ty \<and> thirdParty t \<noteq> Some transfer_marker
      \<and> \<not> includes_str (description t) loan_payment_marker)"

text \<open>\<^verbatim>\<open>new Date(t.transactionDate!)\<close>: the time value; \<^verbatim>\<open>null\<close> gives the epoch.\<close>

definition date_of :: "transaction \<Rightarrow> int" where
  "date_of t = (case transactionDate t of None \<Rightarrow> 0 | Some d \<Rightarrow> d)"

text \<open>\<^verbatim>\<open>.reduce((sum, t) => sum + parseFloat(t.amount), 0)\<close>.\<close>

definition sum_amounts :: "transaction list \<Rightarrow> number" where
  "sum_amounts ts = foldl (\<lambda>sum t. fadd sum (parseFloat (amount t))) (Fin 0) ts"

text \<open>\<^verbatim>\<open>prev > 0 ? ((cur - prev) / prev) * 100 : 0\<close>.\<close>

definition change_percent :: "number \<Rightarrow> number \<Rightarrow> number" where
  "change_percent cur prev =
     (if fgt prev (Fin 0) then fmul (fdiv (fsub cur prev) prev) (Fin 100) else Fin 0)"

record summary =
  totalBalance :: number
  monthlyIncome :: number
  monthlyExpenses :: number
  pendingLoans :: number
  netCashFlow :: number
  incomeChangePercent :: number
  expenseChangePercent :: number
  prevMonthIncome :: number
  prevMonthExpenses :: number

text \<open>
  \<^verbatim>\<open>GET /api/analytics/summary\<close>. The four dates are the first and last day of the current
  and of the previous month, which the handler derives from the clock in local time.
\<close>

definition analytics_summary ::
  "int \<Rightarrow> int \<Rightarrow> int \<Rightarrow> int \<Rightarrow> transaction list \<Rightarrow> account list \<Rightarrow> summary" where
  "analytics_summary monthStart monthEnd prevMonthStart prevMonthEnd txs accts =
     (let total = foldl (\<lambda>sum a. fadd sum (parseFloat (balance a))) (Fin 0) accts;
          monthlyTransactions =
            filter (\<lambda>t. monthStart \<le> date_of t \<and> date_of t \<le> monthEnd) txs;
          income = sum_amounts (filter (counted_as ''income'') monthlyTransactions);
          expenses = sum_amounts (filter (counted_as ''expense'') monthlyTransactions);
          prevMonthTransactions =
            filter (\<lambda>t. prevMonthStart \<le> date_of t \<and> date_of t \<le> prevMonthEnd) txs;
          prevIncome = sum_amounts (filter (counted_as ''income'') prevMonthTransactions);
          prevExpenses = sum_amounts (filter (counted_as ''expense'') prevMonthTransactions);
          incomeChange = change_percent income prevIncome;
          expenseChange = change_percent expenses prevExpenses;
          loans = foldl (\<lambda>sum a. fadd sum (fmax (Fin 0) (parseFloat (balance a)))) (Fin 0)
                    (filter (\<lambda>a. a_type a = ''loan'' \<or> a_type a = ''credit'') accts)
      in \<lparr> totalBalance = total,
           monthlyIncome = income,
           monthlyExpenses = expenses,
           pendingLoans = loans,
           netCashFlow = fsub income expenses,
           incomeChangePercent = incomeChange,
           expenseChangePercent = expenseChange,
           prevMonthIncome = prevIncome,
           prevMonthExpenses = prevExpenses \<rparr>)"

subsection \<open>Expenses by category\<close>

text \<open>
  The accumulator is a plain object. A property read finds the members that every object
  inherits, so for a category called like one of them \<^verbatim>\<open>acc[name] || 0\<close> is not a number
  and \<^verbatim>\<open>+\<close> concatenates strings; an assignment to \<^verbatim>\<open>__proto__\<close> of a value that is not an
  object is ignored.
\<close>

datatype jsvalue = Num number | Concatenated

definition object_prototype_members :: "string list" where
  "object_prototype_members =
     [''constructor'', ''__defineGetter__'', ''__defineSetter__'', ''hasOwnProperty'',
      ''__lookupGetter__'', ''__lookupSetter__'', ''isPrototypeOf'',
      ''propertyIsEnumerable'', ''toString'', ''valueOf'', ''__proto__'',
      ''toLocaleString'']"

text \<open>
  \<^verbatim>\<open>category?.name || "Sin categor\<close>\<dots>\<^verbatim>\<open>a"\<close>, the category being looked up in
  \<^verbatim>\<open>new Map(categories.map(c => [c.id, c]))\<close>, where a later entry replaces an earlier one
  of the same id.
\<close>

definition category_name :: "category list \<Rightarrow> transaction \<Rightarrow> string" where
  "category_name cats t =
     (case or_null_num (categoryId t) of
        None \<Rightarrow> uncategorized_label
      | Some cid \<Rightarrow>
          (case map_of (rev (map (\<lambda>c. (c_id c, c)) cats)) cid of
             None \<Rightarrow> uncategorized_label
           | Some c \<Rightarrow> if c_name c = [] then uncategorized_label else c_name c))"

text \<open>\<^verbatim>\<open>acc[categoryName] = (acc[categoryName] || 0) + x\<close>.\<close>

definition add_expense :: "(string \<times> jsvalue) list \<Rightarrow> string \<Rightarrow> number \<Rightarrow> (string \<times> jsvalue) list"
  where
  "add_expense acc categoryName x =
     (case map_of acc categoryName of
        Some (Num v) \<Rightarrow>
          AList.update categoryName (Num (fadd (if truthy v then v else Fin 0) x)) acc
      | Some Concatenated \<Rightarrow> AList.update categoryName Concatenated acc
      | None \<Rightarrow>
          if categoryName = ''__proto__'' then acc
          else if categoryName \<in> set object_prototype_members
          then AList.update categoryName Concatenated acc
          else AList.update categoryName (Num (fadd (Fin 0) x)) acc)"

text \<open>\<^verbatim>\<open>GET /api/analytics/expenses-by-category\<close>.\<close>

definition expensesByCategory :: "category list \<Rightarrow> transaction list \<Rightarrow> (string \<times> jsvalue) list"
  where
  "expensesByCategory cats txs =
     foldl (\<lambda>acc t. add_expense acc (category_name cats t) (parseFloat (amount t))) []
       (filter (counted_as ''expense'') txs)"

subsection \<open>Monthly trends\<close>

record month_totals =
  acc_income :: number
  acc_expenses :: number

record trend =
  month :: string
  income :: number
  expenses :: number
  net :: number

text \<open>
  The key \<^verbatim>\<open>`${date.getFullYear()}-${String(date.getMonth() + 1).padStart(2, '0')}`\<close>.
  The calendar functions \<^verbatim>\<open>getFullYear\<close> and \<^verbatim>\<open>getMonth\<close> of the host (they depend on
  its time zone) are parameters.
\<close>

definition month_key :: "(int \<Rightarrow> int) \<Rightarrow> (int \<Rightarrow> int) \<Rightarrow> transaction \<Rightarrow> string" where
  "month_key getFullYear getMonth t =
     int_to_string (getFullYear (date_of t)) @ ''-''
     @ padStart2 (int_to_string (getMonth (date_of t) + 1))"

text \<open>
  The body of the \<^verbatim>\<open>forEach\<close>. A month key contains \<^verbatim>\<open>-\<close>, so it is never the name of an
  inherited member and \<^verbatim>\<open>monthlyData\<close> behaves as a dictionary.
\<close>

definition add_to_month ::
  "(int \<Rightarrow> int) \<Rightarrow> (int \<Rightarrow> int) \<Rightarrow> (string \<times> month_totals) list \<Rightarrow> transaction
     \<Rightarrow> (string \<times> month_totals) list" where
  "add_to_month getFullYear getMonth monthlyData t =
     (let monthKey = month_key getFullYear getMonth t;
          cur = (case map_of monthlyData monthKey of
                   None \<Rightarrow> \<lparr> acc_income = Fin 0, acc_expenses = Fin 0 \<rparr>
                 | Some d \<Rightarrow> d);
          md = (case map_of monthlyData monthKey of
                  None \<Rightarrow> AList.update monthKey cur monthlyData
                | Some d \<Rightarrow> monthlyData);
          x = parseFloat (amount t)
      in if counted_as ''income'' t
         then AList.update monthKey (cur\<lparr> acc_income := fadd (acc_income cur) x \<rparr>) md
         else if counted_as ''expense'' t
         then AList.update monthKey (cur\<lparr> acc_expenses := fadd (acc_expenses cur) x \<rparr>) md
         else md)"

definition monthly_data ::
  "(int \<Rightarrow> int) \<Rightarrow> (int \<Rightarrow> int) \<Rightarrow> transaction list \<Rightarrow> (string \<times> month_totals) list" where
  "monthly_data getFullYear getMonth txs = foldl (add_to_month getFullYear getMonth) [] txs"

text \<open>
  \<^verbatim>\<open>GET /api/analytics/monthly-trends\<close>: the keys sorted as strings, the last six of them
  (\<^verbatim>\<open>slice(-6)\<close>), and one entry for each, read back from \<^verbatim>\<open>monthlyData\<close>.
\<close>

definition monthlyTrends :: "(int \<Rightarrow> int) \<Rightarrow> (int \<Rightarrow> int) \<Rightarrow> transaction list \<Rightarrow> trend list"
  where
  "monthlyTrends getFullYear getMonth txs =
     (let monthlyData = monthly_data getFullYear getMonth txs;
          sortedMonths = sort (map fst monthlyData);
          last6Months = drop (length sortedMonths - 6) sortedMonths
      in List.map_filter
           (\<lambda>m. map_option
                  (\<lambda>d. \<lparr> month = m, income = acc_income d, expenses = acc_expenses d,
                          net = fsub (acc_income d) (acc_expenses d) \<rparr>)
                  (map_of monthlyData m))
           last6Months)"

section \<open>Decimal strings with two fraction digits\<close>

text \<open>
  The string that writes \<open>c\<close> hundredths with exactly two fraction digits, as a
  \<^verbatim>\<open>decimal(15, 2)\<close> column holds it: 12345 hundredths are \<^verbatim>\<open>123.45\<close> and -5
  hundredths are \<^verbatim>\<open>-0.05\<close>.
\<close>

definition cents_str :: "int \<Rightarrow> string" where
  "cents_str c =
     (if c < 0 then ''-'' else []) @ dec (\<bar>c\<bar> div 100) @ ''.''
     @ [digit_char (\<bar>c\<bar> div 10 mod 10), digit_char (\<bar>c\<bar> mod 10)]"

section \<open>Exact decimal reading of the ledger\<close>

text \<open>
  The specification speaks of balances and amounts as decimal numbers. The exact value of
  a decimal string is the value of its literal before any rounding to binary64 (zero when
  the string is no literal), and its number of hundredths is that value times 100.
\<close>

definition decimal_value :: "string \<Rightarrow> rat" where
  "decimal_value s =
     (let (neg, u) = take_sign (trimStart s)
      in case unsigned_literal u of None \<Rightarrow> 0 | Some q \<Rightarrow> if neg then - q else q)"

definition cents_of :: "string \<Rightarrow> int" where
  "cents_of s = \<lfloor>decimal_value s * 100\<rfloor>"

text \<open>
  A value of a \<^verbatim>\<open>decimal(15, 2)\<close> column: exactly two fraction digits and at most fifteen
  significant digits in all.
\<close>

definition two_decimals :: "string \<Rightarrow> bool" where
  "two_decimals s = (\<bar>cents_of s\<bar> < 10 ^ 15 \<and> s = cents_str (cents_of s))"

text \<open>
  A string that reads as a decimal number of at most two fraction digits and at most
  fifteen digits in all, such as \<^verbatim>\<open>1500\<close>, \<^verbatim>\<open>30.5\<close> or \<^verbatim>\<open>30.50\<close>: its exact value is a
  whole number of hundredths, and \<^verbatim>\<open>parseFloat\<close> reads it as it reads the column value of
  that many hundredths. Every value of a \<^verbatim>\<open>decimal(15, 2)\<close> column is one.
\<close>

definition hundredths :: "string \<Rightarrow> bool" where
  "hundredths s =
     (\<bar>cents_of s\<bar> < 10 ^ 15 \<and> decimal_value s * 100 = of_int (cents_of s)
      \<and> parseFloat s = parseFloat (cents_str (cents_of s)))"

text \<open>Standard rounding of an exact value to hundredths: to nearest, halves away from zero.\<close>

definition round_half_up_cents :: "rat \<Rightarrow> int" where
  "round_half_up_cents q = (if q < 0 then - \<lfloor>- q * 100 + 1 / 2\<rfloor> else \<lfloor>q * 100 + 1 / 2\<rfloor>)"

text \<open>
  The balance that exact decimal arithmetic with standard rounding to two places gives for
  a posting (\<open>reverse\<close> for the posting of a deletion).
\<close>

definition decimal_posting :: "bool \<Rightarrow> string \<Rightarrow> string \<Rightarrow> string \<Rightarrow> string" where
  "decimal_posting reverse ty bal am =
     cents_str (round_half_up_cents
       (if (ty = ''income'') \<noteq> reverse then decimal_value bal + decimal_value am
        else decimal_value bal - decimal_value am))"

text \<open>The account that a transaction row is posted against (\<^verbatim>\<open>if (transaction.accountId)\<close>).\<close>

definition posts_to :: "int \<Rightarrow> transaction \<Rightarrow> bool" where
  "posts_to A t = (or_null_num (accountId t) = Some A)"

definition balance_of :: "int \<Rightarrow> store \<Rightarrow> string option" where
  "balance_of A s = map_option balance (map_of (accounts s) A)"

text \<open>
  The hundredths of the income and of the expense transactions that exist in the store and
  reference account \<open>A\<close>.
\<close>

definition income_cents :: "int \<Rightarrow> store \<Rightarrow> int" where
  "income_cents A s =
     sum_list (map (\<lambda>(k, t). cents_of (amount t))
       (filter (\<lambda>(k, t). posts_to A t \<and> t_type t = ''income'') (transactions s)))"

definition expense_cents :: "int \<Rightarrow> store \<Rightarrow> int" where
  "expense_cents A s =
     sum_list (map (\<lambda>(k, t). cents_of (amount t))
       (filter (\<lambda>(k, t). posts_to A t \<and> t_type t = ''expense'') (transactions s)))"

text \<open>
  A sequence of create and delete operations, the store after it, and the stores it goes
  through.
\<close>

datatype operation = Create int insertTransaction | Delete int

fun step :: "operation \<Rightarrow> store \<Rightarrow> store" where
  "step (Create now ins) s = snd (createTransaction now ins s)"
| "step (Delete tid) s = snd (deleteTransaction tid s)"

fun run :: "operation list \<Rightarrow> store \<Rightarrow> store" where
  "run [] s = s"
| "run (op # ops) s = run ops (step op s)"

fun states :: "operation list \<Rightarrow> store \<Rightarrow> store list" where
  "states [] s = [s]"
| "states (op # ops) s = s # states ops (step op s)"

text \<open>
  The store as \<^verbatim>\<open>MemStorage\<close> builds it: one row for each transaction id, all ids below
  the counter.
\<close>

definition ids_ok :: "store \<Rightarrow> bool" where
  "ids_ok s =
     (distinct (map fst (transactions s))
      \<and> list_all (\<lambda>(k, t). k < currentTransactionId s) (transactions s))"

text \<open>
  Rows and payloads as the data model has them for account \<open>A\<close>: type \<^verbatim>\<open>income\<close> or
  \<^verbatim>\<open>expense\<close> and an amount of the column type.
\<close>

definition rows_ok :: "int \<Rightarrow> store \<Rightarrow> bool" where
  "rows_ok A s =
     list_all (\<lambda>(k, t). posts_to A t \<longrightarrow>
                 two_decimals (amount t) \<and> (t_type t = ''income'' \<or> t_type t = ''expense''))
       (transactions s)"

definition op_ok :: "int \<Rightarrow> operation \<Rightarrow> bool" where
  "op_ok A op =
     (case op of
        Create now ins \<Rightarrow>
          or_null_num (i_accountId ins) = Some A \<longrightarrow>
            two_decimals (i_amount ins) \<and> (i_type ins = ''income'' \<or> i_type ins = ''expense'')
      | Delete tid \<Rightarrow> True)"

definition balance_ok :: "int \<Rightarrow> store \<Rightarrow> bool" where
  "balance_ok A s = (case balance_of A s of None \<Rightarrow> False | Some b \<Rightarrow> two_decimals b)"

section \<open>Reading the analytics\<close>

text \<open>
  The totals of one month, written as a fold over the transactions of that month alone:
  what one pass of the \<^verbatim>\<open>forEach\<close> does to the bucket of a transaction.
\<close>

definition zero_totals :: month_totals where
  "zero_totals = \<lparr> acc_income = Fin 0, acc_expenses = Fin 0 \<rparr>"

definition bump :: "transaction \<Rightarrow> month_totals \<Rightarrow> month_totals" where
  "bump t d =
     (if counted_as ''income'' t
      then d\<lparr> acc_income := fadd (acc_income d) (parseFloat (amount t)) \<rparr>
      else if counted_as ''expense'' t
      then d\<lparr> acc_expenses := fadd (acc_expenses d) (parseFloat (amount t)) \<rparr>
      else d)"

definition month_fold ::
  "(int \<Rightarrow> int) \<Rightarrow> (int \<Rightarrow> int) \<Rightarrow> string \<Rightarrow> transaction list \<Rightarrow> month_totals \<Rightarrow> month_totals"
  where
  "month_fold gy gm k txs d0 =
     foldl (\<lambda>d t. if month_key gy gm t = k then bump t d else d) d0 txs"

text \<open>
  A transaction that carries the transfer marker in \<open>thirdParty\<close> or the loan-payment
  marker in its description.
\<close>

definition marked :: "transaction \<Rightarrow> bool" where
  "marked t =
     (thirdParty t = Some transfer_marker \<or> includes_str (description t) loan_payment_marker)"

text \<open>The entry of the trends list for month \<open>m\<close> with totals \<open>d\<close>.\<close>

definition trend_entry :: "string \<Rightarrow> month_totals \<Rightarrow> trend" where
  "trend_entry m d =
     \<lparr> month = m, income = acc_income d, expenses = acc_expenses d,
       net = fsub (acc_income d) (acc_expenses d) \<rparr>"

text \<open>\<^verbatim>\<open>slice(-6)\<close>.\<close>

definition last6 :: "'a list \<Rightarrow> 'a list" where
  "last6 xs = drop (length xs - 6) xs"

text \<open>The two decimal digits of a number below 100.\<close>

definition two_digits :: "int \<Rightarrow> string" where
  "two_digits n = [digit_char (n div 10), digit_char (n mod 10)]"

text \<open>
  A date whose calendar year has four digits, so that its month key has the form
  \<^verbatim>\<open>YYYY-MM\<close>; \<^verbatim>\<open>getMonth\<close> counts from 0.
\<close>

definition four_digit_year :: "(int \<Rightarrow> int) \<Rightarrow> (int \<Rightarrow> int) \<Rightarrow> transaction \<Rightarrow> bool" where
  "four_digit_year getFullYear getMonth t =
     (1000 \<le> getFullYear (date_of t) \<and> getFullYear (date_of t) \<le> 9999
      \<and> 0 \<le> getMonth (date_of t) \<and> getMonth (date_of t) \<le> 11)"

text \<open>
  The total of one category name: the sum, from 0 and in the order of the rows, of the
  amounts of the counted expenses whose category resolves to that name.
\<close>

definition category_total :: "category list \<Rightarrow> string \<Rightarrow> transaction list \<Rightarrow> number" where
  "category_total cats k txs =
     sum_amounts (filter (\<lambda>t. category_name cats t = k) (filter (counted_as ''expense'') txs))"

text \<open>An amount that reads as a finite number.\<close>

definition finite_amount :: "transaction \<Rightarrow> bool" where
  "finite_amount t = (case parseFloat (amount t) of Fin a \<Rightarrow> True | _ \<Rightarrow> False)"

text \<open>An accumulator all of whose entries are numbers other than \<^verbatim>\<open>NaN\<close>.\<close>

definition numbers_only :: "(string \<times> jsvalue) list \<Rightarrow> bool" where
  "numbers_only acc =
     list_all (\<lambda>p. case snd p of Num v \<Rightarrow> v \<noteq> NaN | Concatenated \<Rightarrow> False) acc"

text \<open>The number under a name, 0 when there is none.\<close>

definition entry_or_zero :: "(string \<times> jsvalue) list \<Rightarrow> string \<Rightarrow> number" where
  "entry_or_zero acc k = (case map_of acc k of Some (Num v) \<Rightarrow> v | _ \<Rightarrow> Fin 0)"

text \<open>A payload that carries one of the two markers.\<close>

definition marked_insert :: "insertTransaction \<Rightarrow> bool" where
  "marked_insert ins =
     (i_thirdParty ins = Some transfer_marker
      \<or> includes_str (i_description ins) loan_payment_marker)"

section \<open>Example data\<close>

text \<open>A store with one checking account and two transactions posted against it.\<close>

definition example_account :: account where
  "example_account =
     \<lparr> a_id = 1, a_name = ''Cuenta Corriente Principal'', a_type = ''checking'',
       balance = ''100.00'', bankName = Some ''Banco Nacional'',
       accountNumber = Some ''****1234'', a_userId = Some 1, a_createdAt = Some 0 \<rparr>"

definition example_insert :: "string \<Rightarrow> string \<Rightarrow> insertTransaction" where
  "example_insert ty am =
     \<lparr> i_type = ty, i_amount = am, i_description = ''Compra'', i_thirdParty = None,
       i_categoryId = Some 1, i_accountId = Some 1, i_paymentMethod = None,
       i_receiptUrl = None, i_notes = None, i_userId = Some 1,
       i_transactionDate = Some 1000 \<rparr>"

definition example_store :: store where
  "example_store = \<lparr> accounts = [(1, example_account)], transactions = [],
                      currentTransactionId = 1 \<rparr>"

text \<open>The example store with another opening balance.\<close>

definition store_with_balance :: "string \<Rightarrow> store" where
  "store_with_balance b =
     example_store\<lparr> accounts := [(1, example_account\<lparr> balance := b \<rparr>)] \<rparr>"

text \<open>The example store after an expense of 30.00 has been posted at time 7.\<close>

definition example_posted_store :: store where
  "example_posted_store =
     snd (createTransaction 7 (example_insert ''expense'' ''30.00'') example_store)"

text \<open>A transaction row of user 1 on account 1 for the analytics examples.\<close>

definition example_row ::
  "string \<Rightarrow> string \<Rightarrow> int \<Rightarrow> string option \<Rightarrow> string \<Rightarrow> int option \<Rightarrow> transaction" where
  "example_row ty am d tp de cid =
     \<lparr> t_id = 1, t_type = ty, amount = am, description = de, thirdParty = tp,
       categoryId = cid, accountId = Some 1, paymentMethod = None, receiptUrl = None,
       t_notes = None, t_userId = Some 1, t_createdAt = Some d, transactionDate = Some d \<rparr>"

text \<open>
  A calendar for the examples: time values count months, twelve to a year, from January
  2024.
\<close>

definition example_year :: "int \<Rightarrow> int" where
  "example_year d = 2024 + d div 12"

definition example_month :: "int \<Rightarrow> int" where
  "example_month d = d mod 12"





text \<open>
  Seven months of rows: an income of 10.00 in each of the months 0 to 5 and, in month 6,
  nothing but a transfer between accounts.
\<close>

definition example_seven_months :: "transaction list" where
  "example_seven_months =
     map (\<lambda>d. example_row ''income'' ''10.00'' d None ''Venta'' None) [0, 1, 2, 3, 4, 5]
     @ [example_row ''expense'' ''40.00'' 6 (Some ''Transferencia'') ''Transferencia a Ahorros'' None]"

definition example_category :: "int \<Rightarrow> string \<Rightarrow> category" where
  "example_category i n =
     \<lparr> c_id = i, c_name = n, color = ''#1976D2'', c_type = ''expense'', c_createdAt = None \<rparr>"

text \<open>
  A database with the account of the example store, user 1 and category 1, and a
  conversion for its decimal columns that accepts decimal literals of up to fifteen
  digits and rounds them to two places, halves away from zero.
\<close>

definition example_database :: database where
  "example_database =
     \<lparr> db_users = [1], db_categories = [1], db_accounts = [(1, example_account)],
       db_transactions = [] \<rparr>"

definition example_numeric :: "string \<Rightarrow> string option" where
  "example_numeric s =
     (let c = round_half_up_cents (decimal_value s)
      in if unsigned_literal (snd (take_sign (trimStart s))) = None \<or> 10 ^ 15 \<le> \<bar>c\<bar>
         then None else Some (cents_str c))"

text \<open>
  A transfer between accounts and the payment of a loan instalment, both expenses of 30.00
  on account 1, and the example store after the loan payment has been posted at time 7.
\<close>

definition example_transfer_insert :: insertTransaction where
  "example_transfer_insert =
     (example_insert ''expense'' ''30.00'')
       \<lparr> i_thirdParty := Some ''Transferencia'', i_description := ''Transferencia a Ahorros'' \<rparr>"

definition example_loan_insert :: insertTransaction where
  "example_loan_insert =
     (example_insert ''expense'' ''30.00'')
       \<lparr> i_description := loan_payment_marker @ '' - cuota 3'' \<rparr>"

definition example_loan_store :: store where
  "example_loan_store = snd (createTransaction 7 example_loan_insert example_store)"

text \<open>
  Rows of the months 11 and 12: a sale and a purchase, and beside them a transfer out, a
  loan payment and a transfer in.
\<close>

definition example_marked_rows :: "transaction list" where
  "example_marked_rows =
     [example_row ''income'' ''10.00'' 12 None ''Venta'' None,
      example_row ''expense'' ''40.00'' 12 (Some ''Transferencia'') ''Transferencia a Ahorros'' None,
      example_row ''expense'' ''25.00'' 12 None (loan_payment_marker @ '' - cuota 3'') None,
      example_row ''income'' ''500.00'' 11 (Some ''Transferencia'') ''Transferencia recibida'' None,
      example_row ''expense'' ''50.00'' 11 None ''Compra'' None]"

definition example_update :: transactionUpdate where
  "example_update =
     \<lparr> u_type = Some ''income'', u_amount = Some ''55.00'', u_description = None,
       u_thirdParty = None, u_categoryId = None, u_accountId = Some (Some 2),
       u_paymentMethod = None, u_receiptUrl = None, u_notes = None, u_userId = None,
       u_transactionDate = None \<rparr>"

section \<open>Rounding to binary64\<close>

lemma pow2_powi: "pow2 k = 2 powi k"
  by (simp add: pow2_def power_int_def power_inverse inverse_eq_divide power_one_over)

lemma pow2_pos: "0 < pow2 k"
  by (simp add: pow2_def)

lemma pow2_add: "pow2 (a + b) = pow2 a * pow2 b"
  by (simp add: pow2_powi power_int_add)

lemma pow2_diff: "pow2 (a - b) = pow2 a / pow2 b"
  by (simp add: pow2_powi power_int_diff)

lemma pow2_mono: "a \<le> b \<Longrightarrow> pow2 a \<le> pow2 b"
  by (simp add: pow2_powi power_int_increasing)

lemma pow2_less_imp: "pow2 a \<le> x \<Longrightarrow> x < pow2 b \<Longrightarrow> a < b"
  using pow2_mono [of b a] by (cases "a < b") auto

lemma pow2_nat: "0 \<le> k \<Longrightarrow> pow2 k = 2 ^ nat k"
  by (simp add: pow2_def)

lemma bitlen_nonneg: "0 \<le> bitlen n"
  by (induction n rule: bitlen.induct) (subst bitlen.simps, simp)

lemma bitlen_bounds:
  "0 < n \<Longrightarrow> 2 ^ nat (bitlen n - 1) \<le> n \<and> n < 2 ^ nat (bitlen n)"
proof (induction n rule: bitlen.induct)
  case (1 n)
  show ?case
  proof (cases "n = 1")
    case True
    then show ?thesis by (simp add: bitlen.simps)
  next
    case False
    with "1.prems" have h: "0 < n div 2" by simp
    from "1.IH" [OF "1.prems" h]
    have lo: "2 ^ nat (bitlen (n div 2) - 1) \<le> n div 2"
      and hi: "n div 2 < 2 ^ nat (bitlen (n div 2))" by simp_all
    have pos: "1 \<le> bitlen (n div 2)"
      using h bitlen_nonneg [of "n div 2 div 2"] by (subst bitlen.simps) simp
    have eq: "bitlen n = 1 + bitlen (n div 2)"
      using "1.prems" by (subst bitlen.simps) simp
    have e1: "nat (bitlen n - 1) = Suc (nat (bitlen (n div 2) - 1))"
      using pos eq by simp
    have e2: "nat (bitlen n) = Suc (nat (bitlen (n div 2)))"
      using pos eq by simp
    have ar: "\<And>a b. a \<le> n div 2 \<Longrightarrow> n div 2 < b \<Longrightarrow> 2 * a \<le> n \<and> n < 2 * b"
      by presburger
    show ?thesis
      unfolding e1 e2 using ar [OF lo hi] by simp
  qed
qed

lemma bitlen_pow2:
  assumes "0 < n"
  shows "pow2 (bitlen n - 1) \<le> of_int n" and "of_int n < pow2 (bitlen n)"
proof -
  have pos: "1 \<le> bitlen n"
    using assms bitlen_nonneg [of "n div 2"] by (subst bitlen.simps) simp
  from bitlen_bounds [OF assms]
  have lo: "2 ^ nat (bitlen n - 1) \<le> n" and hi: "n < 2 ^ nat (bitlen n)" by simp_all
  have "(of_int (2 ^ nat (bitlen n - 1)) :: rat) \<le> of_int n"
    using lo by (simp only: of_int_le_iff)
  then show "pow2 (bitlen n - 1) \<le> of_int n"
    using pos by (simp add: pow2_nat)
  have "(of_int n :: rat) < of_int (2 ^ nat (bitlen n))"
    using hi by (simp only: of_int_less_iff)
  then show "of_int n < pow2 (bitlen n)"
    using pos by (simp add: pow2_nat)
qed

text \<open>\<open>ilog2\<close> is the binary exponent: \<open>2\<^sup>e \<le> \<bar>q\<bar> < 2\<^sup>e\<^sup>+\<^sup>1\<close>.\<close>

lemma ilog2_bounds:
  assumes "q \<noteq> 0"
  shows "pow2 (ilog2 q) \<le> \<bar>q\<bar>" and "\<bar>q\<bar> < pow2 (ilog2 q + 1)"
proof -
  obtain n d where qd: "quotient_of \<bar>q\<bar> = (n, d)" by (cases "quotient_of \<bar>q\<bar>")
  then have d: "0 < d" and q: "\<bar>q\<bar> = of_int n / of_int d"
    by (rule quotient_of_denom_pos, rule quotient_of_div)
  have n: "0 < n"
  proof -
    have "0 < \<bar>q\<bar>" using assms by simp
    then have "0 < (of_int n :: rat) / of_int d" using q by simp
    then show ?thesis using d by (simp add: zero_less_divide_iff)
  qed
  let ?e = "bitlen n - bitlen d"
  have il: "ilog2 q = (if pow2 ?e \<le> \<bar>q\<bar> then ?e else ?e - 1)"
    by (simp add: ilog2_def qd Let_def)
  have dpos: "(0::rat) < of_int d" using d by simp
  have lo: "pow2 (?e - 1) \<le> \<bar>q\<bar>"
  proof -
    have "pow2 (?e - 1) = pow2 (bitlen n - 1) / pow2 (bitlen d)"
      using pow2_diff [of "bitlen n - 1" "bitlen d"] by (simp add: algebra_simps)
    also have "\<dots> \<le> of_int n / of_int d"
      using bitlen_pow2 [OF n] bitlen_pow2 [OF d] dpos pow2_pos [of "bitlen n - 1"]
      by (intro frac_le) auto
    finally show ?thesis using q by simp
  qed
  have hi: "\<bar>q\<bar> < pow2 (?e + 1)"
  proof -
    have "of_int n / of_int d < pow2 (bitlen n) / pow2 (bitlen d - 1)"
      using bitlen_pow2 [OF n] bitlen_pow2 [OF d] dpos pow2_pos [of "bitlen d - 1"] n
      by (intro frac_less) auto
    also have "\<dots> = pow2 (?e + 1)"
      using pow2_diff [of "bitlen n" "bitlen d - 1"] by (simp add: algebra_simps)
    finally show ?thesis using q by simp
  qed
  show "pow2 (ilog2 q) \<le> \<bar>q\<bar>" using lo by (simp add: il)
  show "\<bar>q\<bar> < pow2 (ilog2 q + 1)" using hi by (simp add: il not_le)
qed

lemma rne_error: "\<bar>of_int (rne x) - x\<bar> \<le> 1 / 2"
proof -
  have "of_int \<lfloor>x\<rfloor> \<le> x" "x < of_int \<lfloor>x\<rfloor> + 1" by linarith+
  then show ?thesis
    by (auto simp: rne_def Let_def)
qed

lemma ilog2_zero: "ilog2 0 < 1024"
  by (simp add: ilog2_def bitlen.simps pow2_def)

text \<open>
  Below the overflow threshold the rounded value is finite and off by at most half a unit
  in the last place: a relative error of \<open>2\<^sup>-\<^sup>5\<^sup>3\<close>, or half the subnormal spacing.
\<close>

lemma round_double_error:
  assumes "\<bar>q\<bar> \<le> pow2 1000"
  shows "\<exists>r. round_double q = Fin r \<and> \<bar>r - q\<bar> \<le> \<bar>q\<bar> / 2 ^ 53 + 1 / 2 ^ 60"
proof (cases "q = 0")
  case True
  then show ?thesis by (simp add: round_double_def)
next
  case False
  define k where "k = max (ilog2 q - 52) (- 1074)"
  define r where "r = of_int (rne (q / pow2 k)) * pow2 k"
  have kpos: "0 < pow2 k" by (rule pow2_pos)
  have "r - q = pow2 k * (of_int (rne (q / pow2 k)) - q / pow2 k)"
    using kpos by (simp add: r_def field_simps)
  then have "\<bar>r - q\<bar> = pow2 k * \<bar>of_int (rne (q / pow2 k)) - q / pow2 k\<bar>"
    using kpos by (simp add: abs_mult)
  also have "\<dots> \<le> pow2 k * (1 / 2)"
    using kpos rne_error [of "q / pow2 k"] by (intro mult_left_mono) auto
  finally have e1: "\<bar>r - q\<bar> \<le> pow2 k / 2" by simp
  have e2: "pow2 k \<le> \<bar>q\<bar> / 2 ^ 52 + pow2 (- 1074)"
  proof (cases "- 1074 \<le> ilog2 q - 52")
    case True
    then have "k = ilog2 q - 52" by (simp add: k_def)
    then have "pow2 k = pow2 (ilog2 q) / pow2 52" by (simp add: pow2_diff)
    also have "\<dots> \<le> \<bar>q\<bar> / pow2 52"
      using ilog2_bounds(1) [OF False] pow2_pos [of 52] by (simp add: divide_right_mono)
    finally show ?thesis using pow2_pos [of "- 1074"] by (simp add: pow2_nat)
  next
    case False
    then have "k = - 1074" by (simp add: k_def)
    then show ?thesis by simp
  qed
  have tiny: "pow2 (- 1074) \<le> 1 / 2 ^ 59"
    using pow2_mono [of "- 1074" "- 59"] by (simp add: pow2_def [of "- 59"])
  have err: "\<bar>r - q\<bar> \<le> \<bar>q\<bar> / 2 ^ 53 + 1 / 2 ^ 60"
    using e1 e2 tiny by simp
  have small: "ilog2 r < 1024"
  proof (cases "r = 0")
    case True
    then show ?thesis by (simp add: ilog2_zero)
  next
    case False
    have one: "(1::rat) / 2 ^ 60 \<le> pow2 1000"
      using pow2_mono [of "- 60" 1000] by (simp add: pow2_def [of "- 60"])
    have "\<bar>r\<bar> \<le> \<bar>q\<bar> + \<bar>q\<bar> / 2 ^ 53 + 1 / 2 ^ 60" using err by linarith
    also have "\<dots> \<le> 3 * pow2 1000"
      using assms one by simp
    also have "\<dots> < pow2 1000 * pow2 2"
      using pow2_pos [of 1000] by (simp add: pow2_def [of 2])
    also have "\<dots> = pow2 1002"
      using pow2_add [of 1000 2] by simp
    finally have "\<bar>r\<bar> < pow2 1002" .
    with ilog2_bounds(1) [OF False] have "ilog2 r < 1002" by (rule pow2_less_imp)
    then show ?thesis by simp
  qed
  have "round_double q = Fin r"
    using \<open>q \<noteq> 0\<close> small by (simp add: round_double_def Let_def k_def r_def)
  with err show ?thesis by blast
qed

section \<open>Reading and printing two-digit decimals\<close>

lemma digit_cases: "0 \<le> d \<Longrightarrow> d \<le> 9 \<Longrightarrow> d \<in> {0, 1, 2, 3, 4, 5, 6, 7, 8, 9 :: int}"
  by (simp; presburger)

lemma is_digit_digit_char: "0 \<le> d \<Longrightarrow> d \<le> 9 \<Longrightarrow> is_digit (digit_char d)"
  using digit_cases [of d] by (auto simp: is_digit_def digit_char_def)

lemma digit_val_digit_char: "0 \<le> d \<Longrightarrow> d \<le> 9 \<Longrightarrow> digit_val (digit_char d) = d"
  using digit_cases [of d] by (auto simp: digit_val_def digit_char_def)

lemma digits_val_snoc: "digits_val (xs @ [c]) = 10 * digits_val xs + digit_val c"
  by (simp add: digits_val_def)

lemma dec_digits: "0 \<le> n \<Longrightarrow> x \<in> set (dec n) \<Longrightarrow> is_digit x"
proof (induction n arbitrary: x rule: dec.induct)
  case (1 n)
  show ?case
  proof (cases "n < 10")
    case True
    then have "dec n = [digit_char n]"
      by (subst dec.simps) simp
    with "1.prems" True show ?thesis
      by (simp add: is_digit_digit_char)
  next
    case False
    then have "dec n = dec (n div 10) @ [digit_char (n mod 10)]"
      by (subst dec.simps) simp
    with "1.prems" "1.IH" [OF False] False show ?thesis
      by (auto simp: is_digit_digit_char)
  qed
qed

lemma digits_val_dec: "0 \<le> n \<Longrightarrow> digits_val (dec n) = n"
proof (induction n rule: dec.induct)
  case (1 n)
  show ?case
  proof (cases "n < 10")
    case True
    with "1.prems" show ?thesis
      by (subst dec.simps) (simp add: digits_val_def digit_val_digit_char)
  next
    case False
    then have "dec n = dec (n div 10) @ [digit_char (n mod 10)]"
      by (subst dec.simps) simp
    with "1.prems" "1.IH" [OF False] False show ?thesis
      by (simp add: digits_val_snoc digit_val_digit_char)
  qed
qed

lemma dec_nonempty: "dec n \<noteq> []"
  by (subst dec.simps) simp

lemma not_digit_dot: "\<not> is_digit CHR ''.''"
  by (simp add: is_digit_def)

lemma takeWhile_dec: "0 \<le> n \<Longrightarrow> takeWhile is_digit (dec n @ CHR ''.'' # r) = dec n"
  by (simp add: takeWhile_append2 dec_digits not_digit_dot)

lemma dropWhile_dec: "0 \<le> n \<Longrightarrow> dropWhile is_digit (dec n @ CHR ''.'' # r) = CHR ''.'' # r"
  by (simp add: dropWhile_append2 dec_digits not_digit_dot)


lemma white_space_heads:
  "hd ` set white_space =
     {CHR 0x09, CHR 0x0A, CHR 0x0B, CHR 0x0C, CHR 0x0D, CHR 0x20, CHR 0xC2, CHR 0xE1,
      CHR 0xE2, CHR 0xE3, CHR 0xEF}"
  by (simp add: white_space_def)

lemma white_space_nonempty: "[] \<notin> set white_space"
  by (simp add: white_space_def)

lemma trimStart_other:
  assumes "c \<notin> hd ` set white_space"
  shows "trimStart (c # s) = c # s"
proof -
  have "\<not> prefix w (c # s)" if "w \<in> set white_space" for w
  proof (cases w)
    case Nil
    with that white_space_nonempty show ?thesis by simp
  next
    case (Cons h t)
    with that have "h \<in> hd ` set white_space" by force
    with assms have "h \<noteq> c" by auto
    with Cons show ?thesis by simp
  qed
  then have "find (\<lambda>w. prefix w (c # s)) white_space = None"
    by (simp add: find_None_iff)
  then show ?thesis by (simp add: trimStart.simps)
qed

lemma trimStart_digit: "is_digit c \<Longrightarrow> trimStart (c # s) = c # s"
  by (rule trimStart_other) (auto simp: white_space_heads is_digit_def)

lemma trimStart_minus: "trimStart (CHR ''-'' # s) = CHR ''-'' # s"
  by (rule trimStart_other) (simp add: white_space_heads)


lemma digits_val_two:
  "0 \<le> a \<Longrightarrow> a \<le> 9 \<Longrightarrow> 0 \<le> b \<Longrightarrow> b \<le> 9 \<Longrightarrow>
   digits_val [digit_char a, digit_char b] = 10 * a + b"
  by (simp add: digits_val_def digit_val_digit_char)

lemma unsigned_literal_cents:
  assumes "0 \<le> n" "0 \<le> a" "a \<le> 9" "0 \<le> b" "b \<le> 9"
  shows "unsigned_literal (dec n @ ''.'' @ [digit_char a, digit_char b])
           = Some (of_int (100 * n + 10 * a + b) / 100)"
proof -
  have tw: "takeWhile is_digit [digit_char a, digit_char b] = [digit_char a, digit_char b]"
    and dw: "dropWhile is_digit [digit_char a, digit_char b] = []"
    using assms by (simp_all add: is_digit_digit_char)
  show ?thesis
    using assms
    by (simp add: unsigned_literal_def takeWhile_dec dropWhile_dec tw dw dec_nonempty
        digits_val_dec digits_val_two exponent_part_def pow10_def field_simps
        del: takeWhile.simps dropWhile.simps)
qed

lemma no_Infinity: "0 \<le> n \<Longrightarrow> \<not> prefix ''Infinity'' (dec n @ r)"
proof -
  assume n: "0 \<le> n"
  obtain x xs where d: "dec n = x # xs" using dec_nonempty [of n] by (cases "dec n") auto
  then have "is_digit x" using dec_digits [OF n, of x] by simp
  then have "x \<noteq> CHR ''I''" by (auto simp: is_digit_def)
  then show ?thesis by (simp add: d)
qed

lemma cents_split:
  "100 * ((n::int) div 100) + 10 * (n div 10 mod 10) + n mod 10 = n"
proof -
  have "n mod (10 * 10) = 10 * (n div 10 mod 10) + n mod 10"
    by (rule zmod_zmult2_eq) simp
  then show ?thesis
    using mult_div_mod_eq [of 100 n] by simp
qed

lemma parseFloat_unsigned:
  assumes "is_digit x" and "unsigned_literal (x # xs) = Some q"
  shows "parseFloat (x # xs) = round_double q"
    and "parseFloat (CHR ''-'' # x # xs) = fneg (round_double q)"
proof -
  from assms(1) have ne: "x \<noteq> CHR ''-''" "x \<noteq> CHR ''+''" "x \<noteq> CHR ''I''"
    by (auto simp: is_digit_def)
  have ts: "take_sign (x # xs) = (False, x # xs)"
    and tm: "take_sign (CHR ''-'' # x # xs) = (True, x # xs)"
    using ne by (simp_all add: take_sign_def)
  have inf: "prefix ''Infinity'' (x # xs) = False"
    using ne by auto
  have ne': "CHR ''I'' \<noteq> x"
    using ne by auto
  show "parseFloat (x # xs) = round_double q"
    unfolding parseFloat_def trimStart_digit [OF assms(1)] ts
    using ne' by (simp add: assms(2))
  show "parseFloat (CHR ''-'' # x # xs) = fneg (round_double q)"
    unfolding parseFloat_def trimStart_minus tm
    using ne' by (simp add: assms(2))
qed

lemma parseFloat_cents:
  "parseFloat (cents_str c) =
     (if c < 0 then fneg (round_double (of_int \<bar>c\<bar> / 100)) else round_double (of_int \<bar>c\<bar> / 100))"
proof -
  define n where "n = \<bar>c\<bar>"
  define body where
    "body = dec (n div 100) @ ''.'' @ [digit_char (n div 10 mod 10), digit_char (n mod 10)]"
  have n: "0 \<le> n div 100" by (simp add: n_def)
  have ab: "0 \<le> n div 10 mod 10" "n div 10 mod 10 \<le> 9" "0 \<le> n mod 10" "n mod 10 \<le> 9"
    by simp_all
  have "unsigned_literal body
          = Some (of_int (100 * (n div 100) + 10 * (n div 10 mod 10) + n mod 10) / 100)"
    unfolding body_def by (rule unsigned_literal_cents [OF n ab])
  also have "100 * (n div 100) + 10 * (n div 10 mod 10) + n mod 10 = n"
    by (rule cents_split)
  finally have lit: "unsigned_literal body = Some (of_int n / 100)" .
  obtain x xs where d: "dec (n div 100) = x # xs"
    using dec_nonempty [of "n div 100"] by (cases "dec (n div 100)") auto
  then have dig: "is_digit x" using dec_digits [OF n, of x] by simp
  have b: "body = x # (xs @ ''.'' @ [digit_char (n div 10 mod 10), digit_char (n mod 10)])"
    by (simp add: body_def d)
  have cs: "cents_str c = (if c < 0 then CHR ''-'' # body else body)"
    by (simp add: cents_str_def body_def n_def)
  have "parseFloat (cents_str c) =
          (if c < 0 then fneg (round_double (of_int n / 100)) else round_double (of_int n / 100))"
    using parseFloat_unsigned [OF dig lit [unfolded b]]
    by (simp add: cs b)
  then show ?thesis unfolding n_def by simp
qed

lemma digit_char_0: "digit_char 0 = CHR ''0''"
  by (simp add: digit_char_def)

lemma dec_small: "n < 10 \<Longrightarrow> dec n = [digit_char n]"
  by (subst dec.simps) simp

lemma dec_step: "10 \<le> n \<Longrightarrow> dec n = dec (n div 10) @ [digit_char (n mod 10)]"
  by (subst dec.simps) simp

lemma pad_split:
  assumes "0 \<le> n"
  defines "z \<equiv> replicate (2 + 1 - length (dec n)) CHR ''0'' @ dec n"
  shows "take (length z - 2) z = dec (n div 100)"
    and "drop (length z - 2) z = [digit_char (n div 10 mod 10), digit_char (n mod 10)]"
proof -
  consider "n < 10" | "10 \<le> n" "n < 100" | "100 \<le> n" by linarith
  then have "take (length z - 2) z = dec (n div 100)
           \<and> drop (length z - 2) z = [digit_char (n div 10 mod 10), digit_char (n mod 10)]"
  proof cases
    case 1
    then show ?thesis
      using assms(1) by (simp add: z_def dec_small digit_char_0 numeral_3_eq_3)
  next
    case 2
    then have "dec n = [digit_char (n div 10), digit_char (n mod 10)]"
      by (simp add: dec_step dec_small)
    then show ?thesis
      using 2 by (simp add: z_def dec_small digit_char_0)
  next
    case 3
    then have "10 \<le> n div 10" by simp
    moreover have "n div 10 div 10 = n div 100" by (simp add: zdiv_zmult2_eq [symmetric])
    ultimately have "dec n = dec (n div 100) @ [digit_char (n div 10 mod 10), digit_char (n mod 10)]"
      using 3 by (simp add: dec_step [of n] dec_step [of "n div 10"])
    then show ?thesis
      using dec_nonempty [of "n div 100"] by (simp add: z_def Suc_le_eq)
  qed
  then show "take (length z - 2) z = dec (n div 100)"
    and "drop (length z - 2) z = [digit_char (n div 10 mod 10), digit_char (n mod 10)]"
    by simp_all
qed

lemma toFixed_cents:
  assumes "\<lfloor>\<bar>r\<bar> * 100 + 1 / 2\<rfloor> = n" and "\<bar>r\<bar> < 10 ^ 21"
  shows "toFixed 2 (Fin r) =
           (if r < 0 then ''-'' else []) @ dec (n div 100) @ ''.''
           @ [digit_char (n div 10 mod 10), digit_char (n mod 10)]"
proof -
  have n: "0 \<le> n"
  proof -
    have "(0::rat) \<le> \<bar>r\<bar> * 100 + 1 / 2" by simp
    then have "0 \<le> \<lfloor>\<bar>r\<bar> * 100 + 1 / 2\<rfloor>" by (simp only: zero_le_floor)
    then show ?thesis using assms(1) by simp
  qed
  show ?thesis
    using assms pad_split [OF n]
    by (simp add: toFixed_def Let_def)
qed

section \<open>Exact postings\<close>

lemma fneg_fneg: "fneg (fneg x) = x"
  by (cases x) simp_all

lemma parseFloat_cents_neg: "parseFloat (cents_str (- c)) = fneg (parseFloat (cents_str c))"
  by (simp add: parseFloat_cents fneg_fneg round_double_def)

lemma small_pow2: "(x::rat) \<le> 10 ^ 14 \<Longrightarrow> x \<le> pow2 1000"
proof -
  assume "x \<le> 10 ^ 14"
  also have "(10::rat) ^ 14 \<le> 2 ^ 47" by simp
  also have "\<dots> = pow2 47" by (simp add: pow2_def)
  also have "\<dots> \<le> pow2 1000" by (rule pow2_mono) simp
  finally show ?thesis .
qed

lemma parse_value:
  assumes "\<bar>c\<bar> \<le> 10 ^ 15"
  shows "\<exists>v. parseFloat (cents_str c) = Fin v
           \<and> \<bar>v - of_int c / 100\<bar> \<le> \<bar>of_int c / 100\<bar> / 2 ^ 53 + 1 / 2 ^ 60"
proof -
  let ?q = "(of_int \<bar>c\<bar> :: rat) / 100"
  have "(of_int \<bar>c\<bar> :: rat) \<le> of_int (10 ^ 15)"
    using assms by (simp only: of_int_le_iff)
  then have "\<bar>?q\<bar> \<le> 10 ^ 14" by simp
  then have "\<bar>?q\<bar> \<le> pow2 1000" by (rule small_pow2)
  from round_double_error [OF this] obtain r where
    r: "round_double ?q = Fin r" and e: "\<bar>r - ?q\<bar> \<le> \<bar>?q\<bar> / 2 ^ 53 + 1 / 2 ^ 60"
    by blast
  show ?thesis
  proof (cases "c < 0")
    case True
    then have "parseFloat (cents_str c) = Fin (- r)"
      using r by (simp add: parseFloat_cents)
    moreover have "\<bar>- r - of_int c / 100\<bar> \<le> \<bar>of_int c / 100\<bar> / 2 ^ 53 + 1 / 2 ^ 60"
      using e True by (simp add: abs_if split: if_splits)
    ultimately show ?thesis by blast
  next
    case False
    then have "parseFloat (cents_str c) = Fin r"
      using r by (simp add: parseFloat_cents)
    moreover have "\<bar>r - of_int c / 100\<bar> \<le> \<bar>of_int c / 100\<bar> / 2 ^ 53 + 1 / 2 ^ 60"
      using e False by (simp add: abs_if split: if_splits)
    ultimately show ?thesis by blast
  qed
qed

lemma toFixed_exact:
  assumes "\<bar>z - of_int C / 100\<bar> < 1 / 200" and "\<bar>C\<bar> \<le> 10 ^ 16" and "C = 0 \<longrightarrow> 0 \<le> z"
  shows "toFixed 2 (Fin z) = cents_str C"
proof -
  have fl: "\<lfloor>\<bar>z\<bar> * 100 + 1 / 2\<rfloor> = \<bar>C\<bar>"
  proof (rule floor_unique)
    show "of_int \<bar>C\<bar> \<le> \<bar>z\<bar> * 100 + 1 / 2"
      using assms(1) by (simp add: abs_if split: if_splits)
    show "\<bar>z\<bar> * 100 + 1 / 2 < of_int \<bar>C\<bar> + 1"
      using assms(1) by (simp add: abs_if split: if_splits)
  qed
  have "(of_int \<bar>C\<bar> :: rat) \<le> of_int (10 ^ 16)"
    using assms(2) by (simp only: of_int_le_iff)
  then have "\<bar>z\<bar> \<le> 10 ^ 14 + 1" using assms(1) by (simp add: abs_if split: if_splits)
  then have big: "\<bar>z\<bar> < 10 ^ 21" by simp
  have sgn: "z < 0 \<longleftrightarrow> C < 0"
  proof (cases "C = 0")
    case True
    then show ?thesis using assms(3) by simp
  next
    case False
    then consider "1 \<le> C" | "C \<le> - 1" by linarith
    then show ?thesis
    proof cases
      case 1
      then have "(1::rat) \<le> of_int C" by simp
      then show ?thesis using assms(1) 1 by (simp add: abs_if split: if_splits)
    next
      case 2
      then have "(of_int C :: rat) \<le> - 1" by (metis of_int_le_iff of_int_minus of_int_1)
      then show ?thesis using assms(1) 2 by (simp add: abs_if split: if_splits)
    qed
  qed
  show ?thesis
    using toFixed_cents [OF fl big] sgn by (simp add: cents_str_def)
qed

lemma err_chain:
  fixes x y z A B :: rat
  assumes "\<bar>x - A\<bar> \<le> \<bar>A\<bar> / 2 ^ 53 + 1 / 2 ^ 60"
    and "\<bar>y - B\<bar> \<le> \<bar>B\<bar> / 2 ^ 53 + 1 / 2 ^ 60"
    and "\<bar>z - (x + y)\<bar> \<le> \<bar>x + y\<bar> / 2 ^ 53 + 1 / 2 ^ 60"
    and "\<bar>A\<bar> \<le> 10 ^ 13" and "\<bar>B\<bar> \<le> 10 ^ 13"
  shows "\<bar>z - (A + B)\<bar> < 1 / 200" and "\<bar>x + y\<bar> \<le> 10 ^ 14"
proof -
  have s: "\<bar>x + y\<bar> \<le> \<bar>A\<bar> + \<bar>B\<bar> + \<bar>x - A\<bar> + \<bar>y - B\<bar>" by linarith
  have d: "\<bar>z - (A + B)\<bar> \<le> \<bar>z - (x + y)\<bar> + \<bar>x - A\<bar> + \<bar>y - B\<bar>" by linarith
  define p where "p = \<bar>x - A\<bar>"
  define q where "q = \<bar>y - B\<bar>"
  define r where "r = \<bar>z - (x + y)\<bar>"
  define k where "k = \<bar>x + y\<bar>"
  define a where "a = \<bar>A\<bar>"
  define b where "b = \<bar>B\<bar>"
  have h: "p \<le> a / 9007199254740992 + 1 / 1152921504606846976"
     "q \<le> b / 9007199254740992 + 1 / 1152921504606846976"
     "r \<le> k / 9007199254740992 + 1 / 1152921504606846976"
     "a \<le> 10000000000000" "b \<le> 10000000000000" "k \<le> a + b + p + q"
    using assms s by (simp_all add: p_def q_def r_def k_def a_def b_def)
  have "r + p + q < 1 / 200" using h by linarith
  then show "\<bar>z - (A + B)\<bar> < 1 / 200" using d by (simp add: p_def q_def r_def)
  have "k \<le> 10 ^ 14" using h by simp
  then show "\<bar>x + y\<bar> \<le> 10 ^ 14" by (simp add: k_def)
qed

text \<open>
  The posting step on two-digit decimals of at most fifteen digits is exact: the rounding
  errors of the two conversions and of the addition stay below half a hundredth.
\<close>

lemma fadd_cents:
  assumes a: "\<bar>a\<bar> \<le> 10 ^ 15" and b: "\<bar>b\<bar> \<le> 10 ^ 15"
  shows "toFixed 2 (fadd (parseFloat (cents_str a)) (parseFloat (cents_str b)))
           = cents_str (a + b)"
proof -
  from parse_value [OF a] obtain x where
    x: "parseFloat (cents_str a) = Fin x"
    and ex: "\<bar>x - of_int a / 100\<bar> \<le> \<bar>of_int a / 100\<bar> / 2 ^ 53 + 1 / 2 ^ 60" by blast
  from parse_value [OF b] obtain y where
    y: "parseFloat (cents_str b) = Fin y"
    and ey: "\<bar>y - of_int b / 100\<bar> \<le> \<bar>of_int b / 100\<bar> / 2 ^ 53 + 1 / 2 ^ 60" by blast
  have ra: "\<bar>of_int a / 100 :: rat\<bar> \<le> 10 ^ 13"
  proof -
    have "(of_int \<bar>a\<bar> :: rat) \<le> of_int (10 ^ 15)" using a by (simp only: of_int_le_iff)
    then show ?thesis by simp
  qed
  have rb: "\<bar>of_int b / 100 :: rat\<bar> \<le> 10 ^ 13"
  proof -
    have "(of_int \<bar>b\<bar> :: rat) \<le> of_int (10 ^ 15)" using b by (simp only: of_int_le_iff)
    then show ?thesis by simp
  qed
  have "\<bar>x + y\<bar> \<le> \<bar>of_int a / 100\<bar> + \<bar>of_int b / 100\<bar>
            + \<bar>x - of_int a / 100\<bar> + \<bar>y - of_int b / 100\<bar>" by linarith
  also have "\<dots> \<le> 10 ^ 13 + 10 ^ 13 + (10 ^ 13 / 2 ^ 53 + 1 / 2 ^ 60)
                  + (10 ^ 13 / 2 ^ 53 + 1 / 2 ^ 60)"
    using ex ey ra rb by (intro add_mono order_trans [OF ex] order_trans [OF ey]) simp_all
  also have "\<dots> \<le> 10 ^ 14" by simp
  finally have sum_small: "\<bar>x + y\<bar> \<le> 10 ^ 14" .
  from round_double_error [OF small_pow2 [OF sum_small]] obtain z where
    z: "round_double (x + y) = Fin z"
    and ez: "\<bar>z - (x + y)\<bar> \<le> \<bar>x + y\<bar> / 2 ^ 53 + 1 / 2 ^ 60" by blast
  have "\<bar>z - (of_int a / 100 + of_int b / 100)\<bar> < 1 / 200"
    by (rule err_chain(1) [OF ex ey ez ra rb])
  then have close: "\<bar>z - of_int (a + b) / 100\<bar> < 1 / 200"
    by (simp add: add_divide_distrib)
  have range: "\<bar>a + b\<bar> \<le> 10 ^ 16" using a b by simp
  have zero: "a + b = 0 \<longrightarrow> 0 \<le> z"
  proof
    assume "a + b = 0"
    then have "b = - a" by simp
    then have "parseFloat (cents_str b) = Fin (- x)"
      using x by (simp add: parseFloat_cents_neg)
    with y have "y = - x" by simp
    then have "round_double (x + y) = Fin 0" by (simp add: round_double_def)
    with z show "0 \<le> z" by simp
  qed
  show ?thesis
    using toFixed_exact [OF close range zero] by (simp add: x y z)
qed

lemma fsub_cents:
  assumes a: "\<bar>a\<bar> \<le> 10 ^ 15" and b: "\<bar>b\<bar> \<le> 10 ^ 15"
  shows "toFixed 2 (fsub (parseFloat (cents_str a)) (parseFloat (cents_str b)))
           = cents_str (a - b)"
proof -
  have "\<bar>- b\<bar> \<le> 10 ^ 15" using b by simp
  from fadd_cents [OF a this] show ?thesis
    by (simp add: fsub_def parseFloat_cents_neg)
qed

section \<open>What the transaction operations write\<close>

lemma or_null_num_idem: "or_null_num (or_null_num x) = or_null_num x"
  by (simp add: or_null_num_def)

lemma createTransaction_row:
  "fst (createTransaction now ins s) =
     \<lparr> t_id = currentTransactionId s, t_type = i_type ins, amount = i_amount ins,
       description = i_description ins, thirdParty = or_null_str (i_thirdParty ins),
       categoryId = or_null_num (i_categoryId ins), accountId = or_null_num (i_accountId ins),
       paymentMethod = or_null_str (i_paymentMethod ins),
       receiptUrl = or_null_str (i_receiptUrl ins), t_notes = or_null_str (i_notes ins),
       t_userId = or_null_num (i_userId ins), t_createdAt = Some now,
       transactionDate = Some (case i_transactionDate ins of None \<Rightarrow> now | Some d \<Rightarrow> d) \<rparr>"
  by (simp add: createTransaction_def Let_def split: option.split)

lemma createTransaction_transactions:
  "transactions (snd (createTransaction now ins s))
     = AList.update (currentTransactionId s) (fst (createTransaction now ins s)) (transactions s)"
  by (simp add: createTransaction_def Let_def split: option.split)

lemma createTransaction_counter:
  "currentTransactionId (snd (createTransaction now ins s)) = currentTransactionId s + 1"
  by (simp add: createTransaction_def Let_def split: option.split)

text \<open>The balance that a posting writes.\<close>

lemma createTransaction_accounts:
  "accounts (snd (createTransaction now ins s)) =
     (case or_null_num (i_accountId ins) of
        None \<Rightarrow> accounts s
      | Some aid \<Rightarrow>
          (case map_of (accounts s) aid of
             None \<Rightarrow> accounts s
           | Some acc \<Rightarrow>
               AList.update aid
                 (acc\<lparr> balance := toFixed 2
                        (if i_type ins = ''income''
                         then fadd (parseFloat (balance acc)) (parseFloat (i_amount ins))
                         else fsub (parseFloat (balance acc)) (parseFloat (i_amount ins))) \<rparr>)
                 (accounts s)))"
  by (simp add: createTransaction_def Let_def or_null_num_idem split: option.split)

lemma deleteTransaction_missing:
  "map_of (transactions s) tid = None \<Longrightarrow> deleteTransaction tid s = (False, s)"
  by (simp add: deleteTransaction_def)

lemma deleteTransaction_transactions:
  "transactions (snd (deleteTransaction tid s)) = AList.delete tid (transactions s)"
  by (cases "map_of (transactions s) tid")
     (auto simp: deleteTransaction_def Let_def map_of_eq_None_iff split: option.split)

lemma deleteTransaction_counter:
  "currentTransactionId (snd (deleteTransaction tid s)) = currentTransactionId s"
  by (simp add: deleteTransaction_def Let_def split: option.split)

lemma deleteTransaction_accounts:
  "accounts (snd (deleteTransaction tid s)) =
     (case map_of (transactions s) tid of
        None \<Rightarrow> accounts s
      | Some t \<Rightarrow>
          (case or_null_num (accountId t) of
             None \<Rightarrow> accounts s
           | Some aid \<Rightarrow>
               (case map_of (accounts s) aid of
                  None \<Rightarrow> accounts s
                | Some acc \<Rightarrow>
                    AList.update aid
                      (acc\<lparr> balance := toFixed 2
                             (if t_type t = ''income''
                              then fsub (parseFloat (balance acc)) (parseFloat (amount t))
                              else fadd (parseFloat (balance acc)) (parseFloat (amount t))) \<rparr>)
                      (accounts s))))"
  by (simp add: deleteTransaction_def Let_def split: option.split)

section \<open>Column values\<close>

lemma decimal_value_unsigned:
  assumes "is_digit x" and "unsigned_literal (x # xs) = Some q"
  shows "decimal_value (x # xs) = q"
    and "decimal_value (CHR ''-'' # x # xs) = - q"
proof -
  from assms(1) have ne: "x \<noteq> CHR ''-''" "x \<noteq> CHR ''+''"
    by (auto simp: is_digit_def)
  have ts: "take_sign (x # xs) = (False, x # xs)"
    and tm: "take_sign (CHR ''-'' # x # xs) = (True, x # xs)"
    using ne by (simp_all add: take_sign_def)
  show "decimal_value (x # xs) = q"
    unfolding decimal_value_def trimStart_digit [OF assms(1)] ts
    by (simp add: assms(2))
  show "decimal_value (CHR ''-'' # x # xs) = - q"
    unfolding decimal_value_def trimStart_minus tm
    by (simp add: assms(2))
qed

lemma decimal_value_cents: "decimal_value (cents_str c) = of_int c / 100"
proof -
  define n where "n = \<bar>c\<bar>"
  define body where
    "body = dec (n div 100) @ ''.'' @ [digit_char (n div 10 mod 10), digit_char (n mod 10)]"
  have n: "0 \<le> n div 100" by (simp add: n_def)
  have ab: "0 \<le> n div 10 mod 10" "n div 10 mod 10 \<le> 9" "0 \<le> n mod 10" "n mod 10 \<le> 9"
    by simp_all
  have "unsigned_literal body
          = Some (of_int (100 * (n div 100) + 10 * (n div 10 mod 10) + n mod 10) / 100)"
    unfolding body_def by (rule unsigned_literal_cents [OF n ab])
  also have "100 * (n div 100) + 10 * (n div 10 mod 10) + n mod 10 = n"
    by (rule cents_split)
  finally have lit: "unsigned_literal body = Some (of_int n / 100)" .
  obtain x xs where d: "dec (n div 100) = x # xs"
    using dec_nonempty [of "n div 100"] by (cases "dec (n div 100)") auto
  then have dig: "is_digit x" using dec_digits [OF n, of x] by simp
  have b: "body = x # (xs @ ''.'' @ [digit_char (n div 10 mod 10), digit_char (n mod 10)])"
    by (simp add: body_def d)
  have cs: "cents_str c = (if c < 0 then CHR ''-'' # body else body)"
    by (simp add: cents_str_def body_def n_def)
  have "decimal_value (cents_str c) = (if c < 0 then - (of_int n / 100) else of_int n / 100)"
    using decimal_value_unsigned [OF dig lit [unfolded b]]
    by (simp add: cs b)
  then show ?thesis unfolding n_def by simp
qed

lemma cents_of_cents: "cents_of (cents_str c) = c"
  by (simp add: cents_of_def decimal_value_cents)

lemma two_decimalsD:
  "two_decimals s \<Longrightarrow> s = cents_str (cents_of s) \<and> \<bar>cents_of s\<bar> \<le> 10 ^ 15"
  by (simp add: two_decimals_def)

lemma two_decimals_cents: "\<bar>c\<bar> < 10 ^ 15 \<Longrightarrow> two_decimals (cents_str c)"
  by (simp add: two_decimals_def cents_of_cents)

lemma round_half_up_cents_exact: "round_half_up_cents (of_int c / 100) = c"
  by (simp add: round_half_up_cents_def) linarith

text \<open>On column values the binary64 posting and the exact decimal posting agree.\<close>

lemma posting_two_decimals:
  assumes "two_decimals b" and "two_decimals a"
  shows "toFixed 2 (fadd (parseFloat b) (parseFloat a)) = cents_str (cents_of b + cents_of a)"
    and "toFixed 2 (fsub (parseFloat b) (parseFloat a)) = cents_str (cents_of b - cents_of a)"
proof -
  from two_decimalsD [OF assms(1)] have b: "b = cents_str (cents_of b)" "\<bar>cents_of b\<bar> \<le> 10 ^ 15"
    by simp_all
  from two_decimalsD [OF assms(2)] have a: "a = cents_str (cents_of a)" "\<bar>cents_of a\<bar> \<le> 10 ^ 15"
    by simp_all
  show "toFixed 2 (fadd (parseFloat b) (parseFloat a)) = cents_str (cents_of b + cents_of a)"
    using fadd_cents [OF b(2) a(2)] b(1) a(1) by simp
  show "toFixed 2 (fsub (parseFloat b) (parseFloat a)) = cents_str (cents_of b - cents_of a)"
    using fsub_cents [OF b(2) a(2)] b(1) a(1) by simp
qed

lemma decimal_posting_two_decimals:
  assumes "two_decimals b" and "two_decimals a"
  shows "decimal_posting r ty b a =
           cents_str (if (ty = ''income'') \<noteq> r then cents_of b + cents_of a
                      else cents_of b - cents_of a)"
proof -
  from two_decimalsD [OF assms(1)] have b: "b = cents_str (cents_of b)" by simp
  from two_decimalsD [OF assms(2)] have a: "a = cents_str (cents_of a)" by simp
  have vb: "decimal_value b = of_int (cents_of b) / 100"
    by (subst b) (rule decimal_value_cents)
  have va: "decimal_value a = of_int (cents_of a) / 100"
    by (subst a) (rule decimal_value_cents)
  have p: "of_int (cents_of b) / 100 + of_int (cents_of a) / (100::rat)
             = of_int (cents_of b + cents_of a) / 100"
    and m: "of_int (cents_of b) / 100 - of_int (cents_of a) / (100::rat)
             = of_int (cents_of b - cents_of a) / 100"
    by (simp_all add: field_simps)
  show ?thesis
    unfolding decimal_posting_def vb va p m
    by (simp only: round_half_up_cents_exact if_distrib [of cents_str] split: if_split) simp
qed

section \<open>The ledger of existing transactions\<close>

lemma update_fresh: "k \<notin> fst ` set al \<Longrightarrow> AList.update k v al = al @ [(k, v)]"
  by (induction al) auto

lemma sum_filter_delete:
  assumes "distinct (map fst al)" and "map_of al k = Some v"
  shows "sum_list (map g (filter P (AList.delete k al)))
           = sum_list (map g (filter P al)) - (if P (k, v) then g (k, v) else (0::int))"
  using assms
proof (induction al)
  case Nil
  then show ?case by simp
next
  case (Cons p al)
  obtain k' v' where p: "p = (k', v')" by (cases p)
  show ?case
  proof (cases "k' = k")
    case True
    with Cons.prems p have "v' = v" and "k \<notin> fst ` set al" by auto
    then show ?thesis using True p by (simp add: AList.delete_id)
  next
    case False
    with Cons p show ?thesis by simp
  qed
qed

lemma ids_fresh: "ids_ok s \<Longrightarrow> currentTransactionId s \<notin> fst ` set (transactions s)"
  by (auto simp: ids_ok_def list_all_iff)

lemma create_appends:
  "ids_ok s \<Longrightarrow>
   transactions (snd (createTransaction now ins s))
     = transactions s @ [(currentTransactionId s, fst (createTransaction now ins s))]"
  by (simp add: createTransaction_transactions update_fresh ids_fresh)

lemma ids_ok_create: "ids_ok s \<Longrightarrow> ids_ok (snd (createTransaction now ins s))"
  using ids_fresh [of s]
  by (auto simp: ids_ok_def create_appends createTransaction_counter list_all_iff)

lemma set_delete_subset: "set (AList.delete k al) \<subseteq> set al"
  by (auto simp: AList.delete_eq)

lemma ids_ok_delete: "ids_ok s \<Longrightarrow> ids_ok (snd (deleteTransaction tid s))"
  using set_delete_subset [of tid "transactions s"]
  by (auto simp: ids_ok_def deleteTransaction_transactions deleteTransaction_counter
      distinct_delete list_all_iff)


lemma rows_ok_delete: "rows_ok A s \<Longrightarrow> rows_ok A (snd (deleteTransaction tid s))"
  using set_delete_subset [of tid "transactions s"]
  by (auto simp: rows_ok_def deleteTransaction_transactions list_all_iff)

lemma rows_ok_create:
  assumes "ids_ok s" and "rows_ok A s" and "op_ok A (Create now ins)"
  shows "rows_ok A (snd (createTransaction now ins s))"
  using assms
  by (auto simp: rows_ok_def create_appends createTransaction_row op_ok_def posts_to_def
      or_null_num_idem)

lemma rows_okD:
  "rows_ok A s \<Longrightarrow> map_of (transactions s) tid = Some t \<Longrightarrow> posts_to A t \<Longrightarrow>
   two_decimals (amount t) \<and> (t_type t = ''income'' \<or> t_type t = ''expense'')"
  by (auto simp: rows_ok_def list_all_iff dest: map_of_SomeD)

lemma balance_ofD: "balance_of A s = Some b \<Longrightarrow> \<exists>acc. map_of (accounts s) A = Some acc \<and> balance acc = b"
  by (auto simp: balance_of_def)

lemma income_expense_distinct: "''income'' \<noteq> ''expense''"
  by simp

text \<open>One operation moves the balance and the ledger of existing transactions together.\<close>

lemma step_ledger:
  assumes ids: "ids_ok s" and rows: "rows_ok A s" and op: "op_ok A op"
    and bal: "balance_of A s = Some b" and td: "two_decimals b"
  shows "balance_of A (step op s)
           = Some (cents_str (cents_of b
               + (income_cents A (step op s) - income_cents A s)
               - (expense_cents A (step op s) - expense_cents A s)))"
proof -
  from balance_ofD [OF bal] obtain acc where
    acc: "map_of (accounts s) A = Some acc" and b: "balance acc = b" by blast
  have same: "cents_str (cents_of b) = b"
    using two_decimalsD [OF td] by simp
  show ?thesis
  proof (cases op)
    case (Create now ins)
    let ?T = "fst (createTransaction now ins s)"
    have tx: "transactions (step op s) = transactions s @ [(currentTransactionId s, ?T)]"
      using Create create_appends [OF ids] by simp
    have pt: "posts_to A ?T \<longleftrightarrow> or_null_num (i_accountId ins) = Some A"
      by (simp add: posts_to_def createTransaction_row or_null_num_idem)
    have ty: "t_type ?T = i_type ins" and am: "amount ?T = i_amount ins"
      by (simp_all add: createTransaction_row)
    show ?thesis
    proof (cases "or_null_num (i_accountId ins) = Some A")
      case True
      with op Create have a: "two_decimals (i_amount ins)"
        and v: "i_type ins = ''income'' \<or> i_type ins = ''expense''"
        by (simp_all add: op_ok_def)
      have "balance_of A (step op s)
              = Some (cents_str (if i_type ins = ''income''
                                 then cents_of b + cents_of (i_amount ins)
                                 else cents_of b - cents_of (i_amount ins)))"
        using Create acc True
        by (simp add: createTransaction_accounts update_conv' balance_of_def b
            posting_two_decimals [OF td a])
      moreover have "income_cents A (step op s) - income_cents A s
                       = (if i_type ins = ''income'' then cents_of (i_amount ins) else 0)"
        using True by (simp add: income_cents_def tx pt ty am)
      moreover have "expense_cents A (step op s) - expense_cents A s
                       = (if i_type ins = ''income'' then 0 else cents_of (i_amount ins))"
        using True v by (auto simp: expense_cents_def tx pt ty am)
      ultimately show ?thesis by simp
    next
      case False
      have "balance_of A (step op s) = Some b"
        using Create acc False
        by (auto simp: createTransaction_accounts update_conv' balance_of_def b
            split: option.split)
      moreover have "income_cents A (step op s) = income_cents A s"
        using False by (simp add: income_cents_def tx pt)
      moreover have "expense_cents A (step op s) = expense_cents A s"
        using False by (simp add: expense_cents_def tx pt)
      ultimately show ?thesis by (simp add: same)
    qed
  next
    case (Delete tid)
    show ?thesis
    proof (cases "map_of (transactions s) tid")
      case None
      then have "step op s = s" using Delete by (simp add: deleteTransaction_missing)
      then show ?thesis using bal by (simp add: same)
    next
      case (Some t)
      have tx: "transactions (step op s) = AList.delete tid (transactions s)"
        using Delete by (simp add: deleteTransaction_transactions)
      have dist: "distinct (map fst (transactions s))"
        using ids by (simp add: ids_ok_def)
      have inc: "income_cents A (step op s)
                   = income_cents A s
                     - (if posts_to A t \<and> t_type t = ''income'' then cents_of (amount t) else 0)"
        unfolding income_cents_def tx
        using sum_filter_delete [OF dist Some,
            of "\<lambda>(k, t). cents_of (amount t)" "\<lambda>(k, t). posts_to A t \<and> t_type t = ''income''"]
        by simp
      have exp: "expense_cents A (step op s)
                   = expense_cents A s
                     - (if posts_to A t \<and> t_type t = ''expense'' then cents_of (amount t) else 0)"
        unfolding expense_cents_def tx
        using sum_filter_delete [OF dist Some,
            of "\<lambda>(k, t). cents_of (amount t)" "\<lambda>(k, t). posts_to A t \<and> t_type t = ''expense''"]
        by simp
      show ?thesis
      proof (cases "posts_to A t")
        case True
        from rows_okD [OF rows Some True] have a: "two_decimals (amount t)"
          and v: "t_type t = ''income'' \<or> t_type t = ''expense''" by simp_all
        have "balance_of A (step op s)
                = Some (cents_str (if t_type t = ''income''
                                   then cents_of b - cents_of (amount t)
                                   else cents_of b + cents_of (amount t)))"
          using Delete acc True Some
          by (simp add: deleteTransaction_accounts update_conv' balance_of_def b posts_to_def
              posting_two_decimals [OF td a])
        then show ?thesis
          using True v by (auto simp: inc exp)
      next
        case False
        have "balance_of A (step op s) = Some b"
          using Delete acc False Some
          by (auto simp: deleteTransaction_accounts update_conv' balance_of_def b posts_to_def
              split: option.split)
        then show ?thesis
          using False by (simp add: inc exp same)
      qed
    qed
  qed
qed

lemma step_invariants:
  assumes "ids_ok s" and "rows_ok A s" and "op_ok A op"
  shows "ids_ok (step op s)" and "rows_ok A (step op s)"
  using assms
  by (cases op; simp add: ids_ok_create ids_ok_delete rows_ok_create rows_ok_delete)+

section \<open>Totals of amounts that are not negative\<close>





section \<open>The monthly buckets\<close>

lemma add_to_month_lookup:
  "map_of (add_to_month gy gm md t) k =
     (if month_key gy gm t = k
      then Some (bump t (case map_of md k of None \<Rightarrow> zero_totals | Some d \<Rightarrow> d))
      else map_of md k)"
  by (auto simp: add_to_month_def Let_def bump_def zero_totals_def update_conv'
      split: option.split)

lemma add_to_month_keys:
  "fst ` set (add_to_month gy gm md t) = insert (month_key gy gm t) (fst ` set md)"
  by (auto simp: add_to_month_def Let_def dom_update split: option.split
      dest: map_of_SomeD intro: rev_image_eqI)

lemma add_to_month_distinct:
  "distinct (map fst md) \<Longrightarrow> distinct (map fst (add_to_month gy gm md t))"
  by (auto simp: add_to_month_def Let_def distinct_update split: option.split)

lemma month_fold_absent:
  "k \<notin> month_key gy gm ` set txs \<Longrightarrow> month_fold gy gm k txs d = d"
  by (induction txs arbitrary: d) (auto simp: month_fold_def)

lemma month_fold_Cons:
  "month_fold gy gm k (t # txs) d
     = month_fold gy gm k txs (if month_key gy gm t = k then bump t d else d)"
  by (simp add: month_fold_def)

lemma foldl_add_to_month_lookup:
  "map_of (foldl (add_to_month gy gm) md txs) k =
     (if k \<in> month_key gy gm ` set txs
      then Some (month_fold gy gm k txs (case map_of md k of None \<Rightarrow> zero_totals | Some d \<Rightarrow> d))
      else map_of md k)"
proof (induction txs arbitrary: md)
  case Nil
  then show ?case by simp
next
  case (Cons t txs)
  show ?case
    unfolding foldl_Cons Cons.IH
    by (auto simp: add_to_month_lookup month_fold_Cons month_fold_absent split: option.split)
qed

lemma foldl_add_to_month_keys:
  "fst ` set (foldl (add_to_month gy gm) md txs) = fst ` set md \<union> month_key gy gm ` set txs"
  by (induction txs arbitrary: md) (auto simp: add_to_month_keys)

lemma foldl_add_to_month_distinct:
  "distinct (map fst md) \<Longrightarrow> distinct (map fst (foldl (add_to_month gy gm) md txs))"
  by (induction txs arbitrary: md) (auto simp: add_to_month_distinct)

lemma monthly_data_lookup:
  "map_of (monthly_data gy gm txs) k =
     (if k \<in> month_key gy gm ` set txs then Some (month_fold gy gm k txs zero_totals) else None)"
  by (simp add: monthly_data_def foldl_add_to_month_lookup)

lemma monthly_data_keys: "set (map fst (monthly_data gy gm txs)) = month_key gy gm ` set txs"
  using foldl_add_to_month_keys [of gy gm "[]" txs] by (simp add: monthly_data_def)

lemma monthly_data_distinct: "distinct (map fst (monthly_data gy gm txs))"
  by (simp add: monthly_data_def foldl_add_to_month_distinct)

section \<open>The trends list\<close>

lemma map_filter_total:
  "(\<And>x. x \<in> set xs \<Longrightarrow> f x = Some (g x)) \<Longrightarrow> List.map_filter f xs = map g xs"
  by (induction xs) (simp_all add: List.map_filter_simps)

lemma set_last6: "set (last6 xs) \<subseteq> set xs"
  by (auto simp: last6_def dest: in_set_dropD)

lemma length_last6: "length (last6 xs) \<le> 6"
  by (simp add: last6_def)

text \<open>The trends list, entry by entry.\<close>

lemma monthlyTrends_entries:
  "monthlyTrends gy gm txs =
     map (\<lambda>m. trend_entry m (month_fold gy gm m txs zero_totals))
       (last6 (sort (map fst (monthly_data gy gm txs))))"
proof -
  let ?md = "monthly_data gy gm txs"
  have "List.map_filter (\<lambda>m. map_option (trend_entry m) (map_of ?md m))
          (last6 (sort (map fst ?md)))
        = map (\<lambda>m. trend_entry m (month_fold gy gm m txs zero_totals))
            (last6 (sort (map fst ?md)))"
  proof (rule map_filter_total)
    fix m assume "m \<in> set (last6 (sort (map fst ?md)))"
    then have "m \<in> set (map fst ?md)" using set_last6 by fastforce
    then have "m \<in> month_key gy gm ` set txs" by (simp only: monthly_data_keys)
    then show "map_option (trend_entry m) (map_of ?md m)
                 = Some (trend_entry m (month_fold gy gm m txs zero_totals))"
      by (simp add: monthly_data_lookup)
  qed
  then show ?thesis
    by (simp add: monthlyTrends_def Let_def last6_def trend_entry_def [abs_def])
qed

lemma monthlyTrends_months:
  "map month (monthlyTrends gy gm txs) = last6 (sort (map fst (monthly_data gy gm txs)))"
  by (simp add: monthlyTrends_entries trend_entry_def comp_def)

lemma month_fold_marked:
  "(\<And>u. u \<in> set txs \<Longrightarrow> month_key gy gm u = k \<Longrightarrow> marked u) \<Longrightarrow>
   month_fold gy gm k txs d = d"
proof (induction txs arbitrary: d)
  case Nil
  then show ?case by (simp add: month_fold_def)
next
  case (Cons t txs)
  have "bump t d = d" if "month_key gy gm t = k"
    using Cons.prems [of t] that by (auto simp: bump_def counted_as_def marked_def)
  then show ?case
    using Cons by (simp add: month_fold_Cons)
qed

lemma fsub_zero: "fsub (Fin 0) (Fin 0) = Fin 0"
  by (simp add: fsub_def round_double_def)

section \<open>Transfers and loan payments\<close>

lemma counted_as_unmarked: "counted_as ty t \<Longrightarrow> \<not> marked t"
  by (simp add: counted_as_def marked_def)

lemma filter_counted_unmarked:
  "filter (counted_as ty) (filter (\<lambda>t. \<not> marked t) txs) = filter (counted_as ty) txs"
  by (induction txs) (auto simp: counted_as_unmarked)

lemma filter_window_unmarked:
  "filter (counted_as ty) (filter P (filter (\<lambda>t. \<not> marked t) txs))
     = filter (counted_as ty) (filter P txs)"
  by (induction txs) (auto simp: counted_as_unmarked)

lemma summary_without_marked:
  "analytics_summary ms me ps pe (filter (\<lambda>t. \<not> marked t) txs) accts
     = analytics_summary ms me ps pe txs accts"
  by (simp add: analytics_summary_def Let_def filter_window_unmarked del: filter_filter)

lemma expensesByCategory_without_marked:
  "expensesByCategory cats (filter (\<lambda>t. \<not> marked t) txs) = expensesByCategory cats txs"
  by (simp add: expensesByCategory_def filter_counted_unmarked del: filter_filter)

lemma bump_marked: "marked t \<Longrightarrow> bump t d = d"
  by (auto simp: bump_def dest: counted_as_unmarked)

lemma month_fold_without_marked:
  "month_fold gy gm k (filter (\<lambda>t. \<not> marked t) txs) d = month_fold gy gm k txs d"
  by (induction txs arbitrary: d) (auto simp: month_fold_Cons bump_marked month_fold_def)

lemma create_ignores_markers:
  "accounts (snd (createTransaction now (ins\<lparr> i_thirdParty := tp, i_description := de \<rparr>) s))
     = accounts (snd (createTransaction now ins s))"
  by (simp add: createTransaction_accounts split: option.split)

lemma create_keeps_markers:
  "thirdParty (fst (createTransaction now ins s)) = or_null_str (i_thirdParty ins)
   \<and> description (fst (createTransaction now ins s)) = i_description ins"
  by (simp add: createTransaction_row)

lemma delete_ignores_markers:
  "accounts (snd (deleteTransaction tid
       (s\<lparr> transactions := AList.update tid (t\<lparr> thirdParty := tp, description := de \<rparr>)
             (transactions s) \<rparr>)))
     = accounts (snd (deleteTransaction tid
         (s\<lparr> transactions := AList.update tid t (transactions s) \<rparr>)))"
  by (simp add: deleteTransaction_accounts update_conv' split: option.split)

section \<open>Month keys in string order\<close>

lemma of_char_digit_char:
  "0 \<le> d \<Longrightarrow> d \<le> 9 \<Longrightarrow> (of_char (digit_char d) :: nat) = nat (48 + d)"
  using digit_cases [of d] by (auto simp: digit_char_def)

lemma digit_char_less:
  "0 \<le> a \<Longrightarrow> a \<le> 9 \<Longrightarrow> 0 \<le> b \<Longrightarrow> b \<le> 9 \<Longrightarrow> digit_char a < digit_char b \<longleftrightarrow> a < b"
  by (simp add: less_char_def of_char_digit_char)

lemma digit_char_eq:
  "0 \<le> a \<Longrightarrow> a \<le> 9 \<Longrightarrow> 0 \<le> b \<Longrightarrow> b \<le> 9 \<Longrightarrow> digit_char a = digit_char b \<longleftrightarrow> a = b"
proof
  assume r: "0 \<le> a" "a \<le> 9" "0 \<le> b" "b \<le> 9" and e: "digit_char a = digit_char b"
  have "a = digit_val (digit_char a)" using r by (simp add: digit_val_digit_char)
  also have "\<dots> = digit_val (digit_char b)" by (simp only: e)
  also have "\<dots> = b" using r by (simp add: digit_val_digit_char)
  finally show "a = b" .
qed simp

lemma append_less_same_length:
  fixes xs ys :: "'a::linorder list"
  shows "length xs = length ys \<Longrightarrow> xs @ us < ys @ vs \<longleftrightarrow> xs < ys \<or> xs = ys \<and> us < vs"
  by (induction xs ys rule: list_induct2) auto

lemma dec_two:
  "0 \<le> n \<Longrightarrow> n \<le> 99 \<Longrightarrow> padStart2 (int_to_string n) = [digit_char (n div 10), digit_char (n mod 10)]"
proof (cases "n < 10")
  case True
  assume "0 \<le> n"
  with True show ?thesis
    by (simp add: padStart2_def int_to_string_def dec_small digit_char_0)
next
  case False
  assume "n \<le> 99"
  with False have "n div 10 < 10" by simp
  with False show ?thesis
    by (simp add: padStart2_def int_to_string_def dec_step dec_small)
qed

lemma dec_four:
  assumes "1000 \<le> y" and "y \<le> 9999"
  shows "int_to_string y
           = [digit_char (y div 1000), digit_char (y div 100 mod 10),
              digit_char (y div 10 mod 10), digit_char (y mod 10)]"
proof -
  have b: "y div 10 div 10 = y div 100" "y div 100 div 10 = y div 1000"
    by (simp_all add: zdiv_zmult2_eq [symmetric])
  have "dec (y div 1000) = [digit_char (y div 1000)]"
    using assms by (intro dec_small) simp
  moreover have "dec (y div 100) = dec (y div 1000) @ [digit_char (y div 100 mod 10)]"
    using assms dec_step [of "y div 100"] by (simp add: b)
  moreover have "dec (y div 10) = dec (y div 100) @ [digit_char (y div 10 mod 10)]"
    using assms dec_step [of "y div 10"] by (simp add: b)
  moreover have "dec y = dec (y div 10) @ [digit_char (y mod 10)]"
    using assms dec_step [of y] by simp
  ultimately show ?thesis
    using assms by (simp add: int_to_string_def)
qed

lemma lex_pair:
  fixes n n' :: int
  shows "(n div 10 < n' div 10 \<or> n div 10 = n' div 10 \<and> n mod 10 < n' mod 10) \<longleftrightarrow> n < n'"
proof -
  have "n = 10 * (n div 10) + n mod 10" "n' = 10 * (n' div 10) + n' mod 10" by simp_all
  moreover have "0 \<le> n mod 10" "n mod 10 < 10" "0 \<le> n' mod 10" "n' mod 10 < 10" by simp_all
  ultimately show ?thesis by linarith
qed

lemma lex_pair_eq:
  fixes n n' :: int
  shows "(n div 10 = n' div 10 \<and> n mod 10 = n' mod 10) \<longleftrightarrow> n = n'"
  by (metis mult_div_mod_eq)

lemma two_digits_less:
  assumes "0 \<le> n" "n \<le> 99" "0 \<le> n'" "n' \<le> 99"
  shows "two_digits n < two_digits n' \<longleftrightarrow> n < n'"
proof -
  have r: "0 \<le> n div 10" "n div 10 \<le> 9" "0 \<le> n mod 10" "n mod 10 \<le> 9"
    "0 \<le> n' div 10" "n' div 10 \<le> 9" "0 \<le> n' mod 10" "n' mod 10 \<le> 9"
    using assms by simp_all
  show ?thesis
    unfolding two_digits_def
    by (simp add: digit_char_less digit_char_eq r lex_pair)
qed

lemma two_digits_eq:
  assumes "0 \<le> n" "n \<le> 99" "0 \<le> n'" "n' \<le> 99"
  shows "two_digits n = two_digits n' \<longleftrightarrow> n = n'"
proof -
  have r: "0 \<le> n div 10" "n div 10 \<le> 9" "0 \<le> n mod 10" "n mod 10 \<le> 9"
    "0 \<le> n' div 10" "n' div 10 \<le> 9" "0 \<le> n' mod 10" "n' mod 10 \<le> 9"
    using assms by simp_all
  show ?thesis
    unfolding two_digits_def
    by (simp add: digit_char_eq r lex_pair_eq)
qed

lemma year_string:
  assumes "1000 \<le> y" and "y \<le> 9999"
  shows "int_to_string y = two_digits (y div 100) @ two_digits (y mod 100)"
proof -
  have "y div 100 div 10 = y div 1000" by (simp add: zdiv_zmult2_eq [symmetric])
  moreover have "y mod 100 div 10 = y div 10 mod 10"
    using zmod_zmult2_eq [of 10 y 10] by simp
  moreover have "y mod 100 mod 10 = y mod 10"
    by (simp add: mod_mod_cancel)
  ultimately show ?thesis
    by (simp add: dec_four [OF assms] two_digits_def)
qed

lemma month_key_four_digit_year:
  assumes "1000 \<le> gy (date_of t)" "gy (date_of t) \<le> 9999"
    and "0 \<le> gm (date_of t)" "gm (date_of t) \<le> 11"
  shows "month_key gy gm t
           = two_digits (gy (date_of t) div 100) @ two_digits (gy (date_of t) mod 100)
             @ ''-'' @ two_digits (gm (date_of t) + 1)"
  using assms by (simp add: month_key_def year_string dec_two two_digits_def)

lemma month_key_chronological:
  assumes t: "1000 \<le> gy (date_of t)" "gy (date_of t) \<le> 9999"
      "0 \<le> gm (date_of t)" "gm (date_of t) \<le> 11"
    and u: "1000 \<le> gy (date_of u)" "gy (date_of u) \<le> 9999"
      "0 \<le> gm (date_of u)" "gm (date_of u) \<le> 11"
  shows "month_key gy gm t < month_key gy gm u \<longleftrightarrow>
           gy (date_of t) < gy (date_of u)
           \<or> gy (date_of t) = gy (date_of u) \<and> gm (date_of t) < gm (date_of u)"
proof -
  define y m y' m' where "y = gy (date_of t)" and "m = gm (date_of t)"
    and "y' = gy (date_of u)" and "m' = gm (date_of u)"
  have r: "0 \<le> y div 100" "y div 100 \<le> 99" "0 \<le> y mod 100" "y mod 100 \<le> 99"
    "0 \<le> y' div 100" "y' div 100 \<le> 99" "0 \<le> y' mod 100" "y' mod 100 \<le> 99"
    "0 \<le> m + 1" "m + 1 \<le> 99" "0 \<le> m' + 1" "m' + 1 \<le> 99"
    using t u by (simp_all add: y_def m_def y'_def m'_def)
  have len: "length (two_digits a) = length (two_digits b)" for a b
    by (simp add: two_digits_def)
  have hl: "(y div 100 < y' div 100 \<or> y div 100 = y' div 100 \<and> y mod 100 < y' mod 100)
              \<longleftrightarrow> y < y'"
  proof -
    have "y = 100 * (y div 100) + y mod 100" "y' = 100 * (y' div 100) + y' mod 100" by simp_all
    moreover have "0 \<le> y mod 100" "y mod 100 < 100" "0 \<le> y' mod 100" "y' mod 100 < 100"
      by simp_all
    ultimately show ?thesis by linarith
  qed
  have he: "(y div 100 = y' div 100 \<and> y mod 100 = y' mod 100) \<longleftrightarrow> y = y'"
    by (metis mult_div_mod_eq)
  have "month_key gy gm t < month_key gy gm u \<longleftrightarrow>
          two_digits (y div 100) @ two_digits (y mod 100) @ ''-'' @ two_digits (m + 1)
          < two_digits (y' div 100) @ two_digits (y' mod 100) @ ''-'' @ two_digits (m' + 1)"
    using month_key_four_digit_year [of gy t gm, OF t] month_key_four_digit_year [of gy u gm, OF u]
    by (simp add: y_def m_def y'_def m'_def)
  also have "\<dots> \<longleftrightarrow>
      y div 100 < y' div 100
      \<or> y div 100 = y' div 100
        \<and> (y mod 100 < y' mod 100 \<or> y mod 100 = y' mod 100 \<and> m + 1 < m' + 1)"
    by (simp add: append_less_same_length [OF len] two_digits_less two_digits_eq r)
  also have "\<dots> \<longleftrightarrow> y < y' \<or> y = y' \<and> m < m'"
    using hl he by auto
  finally show ?thesis by (simp add: y_def m_def y'_def m'_def)
qed

section \<open>Totals by category name\<close>

text \<open>
  For category names that no object inherits and amounts that read as finite numbers, the
  accumulator of \<^verbatim>\<open>expenses-by-category\<close> holds numbers only, one entry for each name in
  use, and the entry of a name is the sum of the amounts under it.
\<close>

lemma round_double_not_NaN: "round_double q \<noteq> NaN"
  by (simp add: round_double_def Let_def)

lemma fadd_Fin_not_NaN: "v \<noteq> NaN \<Longrightarrow> fadd v (Fin q) \<noteq> NaN"
  by (cases v) (simp_all add: round_double_not_NaN)

lemma numbers_only_lookup:
  "numbers_only acc \<Longrightarrow> map_of acc k = Some v \<Longrightarrow> \<exists>n. v = Num n \<and> n \<noteq> NaN"
proof -
  assume a: "numbers_only acc" and "map_of acc k = Some v"
  then have "(k, v) \<in> set acc" by (simp add: map_of_SomeD)
  with a have "case v of Num n \<Rightarrow> n \<noteq> NaN | Concatenated \<Rightarrow> False"
    by (auto simp: numbers_only_def list_all_iff)
  then show ?thesis by (cases v) simp_all
qed

lemma numbers_only_update:
  "numbers_only acc \<Longrightarrow> n \<noteq> NaN \<Longrightarrow> numbers_only (AList.update k (Num n) acc)"
  by (induction acc) (auto simp: numbers_only_def)

lemma add_expense_own:
  assumes "numbers_only acc" and "k \<notin> set object_prototype_members"
  shows "add_expense acc k x = AList.update k (Num (fadd (entry_or_zero acc k) x)) acc"
proof (cases "map_of acc k")
  case None
  with assms show ?thesis
    by (simp add: add_expense_def entry_or_zero_def object_prototype_members_def)
next
  case (Some v)
  with assms(1) obtain n where "v = Num n" "n \<noteq> NaN"
    by (blast dest: numbers_only_lookup)
  with Some show ?thesis
    by (auto simp: add_expense_def entry_or_zero_def truthy_def)
qed


lemma add_expense_numbers_only:
  assumes "numbers_only acc" and "k \<notin> set object_prototype_members" and "x = Fin q"
  shows "numbers_only (add_expense acc k x)"
proof -
  have "entry_or_zero acc k \<noteq> NaN"
    using assms(1) by (auto simp: entry_or_zero_def split: option.split jsvalue.split
        dest: numbers_only_lookup)
  then show ?thesis
    using assms by (simp add: add_expense_own numbers_only_update fadd_Fin_not_NaN)
qed

lemma add_expense_lookup:
  assumes "numbers_only acc" and "k \<notin> set object_prototype_members"
  shows "map_of (add_expense acc k x) k' =
           (if k' = k then Some (Num (fadd (entry_or_zero acc k) x)) else map_of acc k')"
  using assms by (simp add: add_expense_own update_conv')

lemma add_expense_keys:
  assumes "numbers_only acc" and "k \<notin> set object_prototype_members"
  shows "fst ` set (add_expense acc k x) = insert k (fst ` set acc)"
  using assms by (simp add: add_expense_own dom_update)

lemma add_expense_distinct:
  assumes "numbers_only acc" and "k \<notin> set object_prototype_members"
    and "distinct (map fst acc)"
  shows "distinct (map fst (add_expense acc k x))"
  using assms by (simp add: add_expense_own distinct_update)


lemma entry_or_zero_add_expense:
  assumes "numbers_only acc" and "k \<notin> set object_prototype_members"
  shows "entry_or_zero (add_expense acc k x) k' =
           (if k' = k then fadd (entry_or_zero acc k) x else entry_or_zero acc k')"
  using assms by (simp add: entry_or_zero_def [of "add_expense acc k x"] add_expense_lookup)
    (simp add: entry_or_zero_def)

lemma finite_amount_Fin: "finite_amount t \<Longrightarrow> \<exists>q. parseFloat (amount t) = Fin q"
  by (cases "parseFloat (amount t)") (simp_all add: finite_amount_def)

lemma filter_absent: "k \<notin> f ` set ts \<Longrightarrow> filter (\<lambda>t. f t = k) ts = []"
  by (auto simp: filter_empty_conv)

lemma foldl_add_expense:
  assumes "numbers_only acc"
    and "\<forall>t \<in> set ts. category_name cats t \<notin> set object_prototype_members \<and> finite_amount t"
  shows "numbers_only
           (foldl (\<lambda>acc t. add_expense acc (category_name cats t) (parseFloat (amount t))) acc ts)
         \<and> map_of
             (foldl (\<lambda>acc t. add_expense acc (category_name cats t) (parseFloat (amount t))) acc ts) k
           = (if k \<in> category_name cats ` set ts
              then Some (Num (foldl (\<lambda>sum t. fadd sum (parseFloat (amount t)))
                     (entry_or_zero acc k) (filter (\<lambda>t. category_name cats t = k) ts)))
              else map_of acc k)"
  using assms
proof (induction ts arbitrary: acc)
  case Nil
  then show ?case by simp
next
  case (Cons t ts)
  let ?acc = "add_expense acc (category_name cats t) (parseFloat (amount t))"
  from Cons.prems have own: "category_name cats t \<notin> set object_prototype_members"
    and fin: "finite_amount t"
    by simp_all
  from fin obtain q where q: "parseFloat (amount t) = Fin q"
    by (blast dest: finite_amount_Fin)
  from Cons.prems(1) own q have n: "numbers_only ?acc"
    by (simp add: add_expense_numbers_only)
  from Cons.prems(2)
  have r: "\<forall>t \<in> set ts. category_name cats t \<notin> set object_prototype_members \<and> finite_amount t"
    by simp
  note ih = Cons.IH [OF n r]
  show ?case
    unfolding foldl_Cons
    using ih Cons.prems(1) own
    by (auto simp: entry_or_zero_add_expense add_expense_lookup filter_absent)
qed

lemma foldl_add_expense_keys:
  assumes "numbers_only acc"
    and "\<forall>t \<in> set ts. category_name cats t \<notin> set object_prototype_members \<and> finite_amount t"
  shows "fst ` set
           (foldl (\<lambda>acc t. add_expense acc (category_name cats t) (parseFloat (amount t))) acc ts)
         = fst ` set acc \<union> category_name cats ` set ts
         \<and> (distinct (map fst acc) \<longrightarrow> distinct (map fst
           (foldl (\<lambda>acc t. add_expense acc (category_name cats t) (parseFloat (amount t))) acc ts)))"
  using assms
proof (induction ts arbitrary: acc)
  case Nil
  then show ?case by simp
next
  case (Cons t ts)
  let ?acc = "add_expense acc (category_name cats t) (parseFloat (amount t))"
  from Cons.prems have own: "category_name cats t \<notin> set object_prototype_members"
    and fin: "finite_amount t"
    by simp_all
  from fin obtain q where q: "parseFloat (amount t) = Fin q"
    by (blast dest: finite_amount_Fin)
  from Cons.prems(1) own q have n: "numbers_only ?acc"
    by (simp add: add_expense_numbers_only)
  from Cons.prems(2)
  have r: "\<forall>t \<in> set ts. category_name cats t \<notin> set object_prototype_members \<and> finite_amount t"
    by simp
  note ih = Cons.IH [OF n r]
  show ?case
    unfolding foldl_Cons
    using ih Cons.prems(1) own
    by (auto simp: add_expense_keys add_expense_distinct)
qed

lemma expensesByCategory_totals:
  assumes "\<forall>t \<in> set txs. counted_as ''expense'' t \<longrightarrow>
             category_name cats t \<notin> set object_prototype_members \<and> finite_amount t"
  shows "map_of (expensesByCategory cats txs) k =
           (if k \<in> category_name cats ` set (filter (counted_as ''expense'') txs)
            then Some (Num (category_total cats k txs)) else None)"
    and "distinct (map fst (expensesByCategory cats txs))"
    and "fst ` set (expensesByCategory cats txs)
           = category_name cats ` set (filter (counted_as ''expense'') txs)"
proof -
  have e: "numbers_only []" by (simp add: numbers_only_def)
  from assms
  have r: "\<forall>t \<in> set (filter (counted_as ''expense'') txs).
             category_name cats t \<notin> set object_prototype_members \<and> finite_amount t"
    by simp
  from foldl_add_expense [OF e r, of k]
  show "map_of (expensesByCategory cats txs) k =
           (if k \<in> category_name cats ` set (filter (counted_as ''expense'') txs)
            then Some (Num (category_total cats k txs)) else None)"
    by (simp add: expensesByCategory_def category_total_def sum_amounts_def entry_or_zero_def)
  from foldl_add_expense_keys [OF e r]
  show "distinct (map fst (expensesByCategory cats txs))"
    and "fst ` set (expensesByCategory cats txs)
           = category_name cats ` set (filter (counted_as ''expense'') txs)"
    by (simp_all add: expensesByCategory_def)
qed

lemma category_name_missing:
  "categoryId t = None \<or> categoryId t = Some 0
     \<or> (\<exists>cid. categoryId t = Some cid \<and> cid \<notin> c_id ` set cats)
   \<Longrightarrow> category_name cats t = uncategorized_label"
  by (auto simp: category_name_def or_null_num_def split: option.split dest!: map_of_SomeD)

section \<open>Postings of decimal readings\<close>

lemma two_decimals_hundredths: "two_decimals s \<Longrightarrow> hundredths s"
proof -
  assume t: "two_decimals s"
  then have s: "s = cents_str (cents_of s)" and b: "\<bar>cents_of s\<bar> < 10 ^ 15"
    by (simp_all add: two_decimals_def)
  have "decimal_value (cents_str (cents_of s)) * 100 = of_int (cents_of s)"
    by (simp add: decimal_value_cents)
  with s have "decimal_value s * 100 = of_int (cents_of s)" by simp
  with s b show ?thesis by (simp add: hundredths_def)
qed

lemma posting_hundredths:
  assumes "hundredths b" and "hundredths a"
  shows "toFixed 2 (fadd (parseFloat b) (parseFloat a)) = cents_str (cents_of b + cents_of a)"
    and "toFixed 2 (fsub (parseFloat b) (parseFloat a)) = cents_str (cents_of b - cents_of a)"
proof -
  from assms have pb: "parseFloat b = parseFloat (cents_str (cents_of b))"
    and pa: "parseFloat a = parseFloat (cents_str (cents_of a))"
    and rb: "\<bar>cents_of b\<bar> \<le> 10 ^ 15" and ra: "\<bar>cents_of a\<bar> \<le> 10 ^ 15"
    by (simp_all add: hundredths_def)
  show "toFixed 2 (fadd (parseFloat b) (parseFloat a)) = cents_str (cents_of b + cents_of a)"
    unfolding pb pa by (rule fadd_cents [OF rb ra])
  show "toFixed 2 (fsub (parseFloat b) (parseFloat a)) = cents_str (cents_of b - cents_of a)"
    unfolding pb pa by (rule fsub_cents [OF rb ra])
qed

section \<open>What the database operations write\<close>

lemma references_Some: "references (Some k) ids = (k \<in> set ids)"
  by (simp add: references_def)

lemma insert_transaction_missing_account:
  assumes "i_accountId ins = Some aid" and "map_of (db_accounts db) aid = None"
  shows "isl (insert_transaction numeric tid now ins db)"
proof -
  from assms(2) have "aid \<notin> fst ` set (db_accounts db)"
    by (simp add: map_of_eq_None_iff)
  then have "\<not> references (i_accountId ins) (map fst (db_accounts db))"
    using assms(1) by (simp add: references_Some)
  then show ?thesis
    by (simp add: insert_transaction_def split: option.split)
qed

lemma createTransaction_db_missing_account:
  assumes "i_accountId ins = Some aid" and "map_of (db_accounts db) aid = None"
  shows "isl (fst (createTransaction_db numeric tid now ins db))"
    and "snd (createTransaction_db numeric tid now ins db) = db"
proof -
  have "isl (insert_transaction numeric tid now ins db)"
    using assms by (rule insert_transaction_missing_account)
  then obtain e where "insert_transaction numeric tid now ins db = Inl e"
    by (cases "insert_transaction numeric tid now ins db") simp_all
  then show "isl (fst (createTransaction_db numeric tid now ins db))"
    and "snd (createTransaction_db numeric tid now ins db) = db"
    by (simp_all add: createTransaction_db_def)
qed

lemma insert_transaction_accepted:
  assumes "numeric (i_amount ins) = Some am" and "tid \<notin> fst ` set (db_transactions db)"
    and "references (i_categoryId ins) (db_categories db)"
    and "references (i_accountId ins) (map fst (db_accounts db))"
    and "references (i_userId ins) (db_users db)"
  shows "insert_transaction numeric tid now ins db
           = Inr (inserted_row tid now ins am,
                  db\<lparr> db_transactions :=
                        db_transactions db @ [(tid, inserted_row tid now ins am)] \<rparr>)"
  using assms by (simp add: insert_transaction_def Let_def)

lemma createTransaction_db_existing_account:
  assumes ai: "i_accountId ins = Some aid" and nz: "aid \<noteq> 0"
    and acc: "map_of (db_accounts db) aid = Some acc"
    and am: "numeric (i_amount ins) = Some am"
    and fresh: "tid \<notin> fst ` set (db_transactions db)"
    and rc: "references (i_categoryId ins) (db_categories db)"
    and ru: "references (i_userId ins) (db_users db)"
    and nb: "numeric (toFixed 2 (if i_type ins = ''income''
                                 then fadd (parseFloat (balance acc)) (parseFloat am)
                                 else fsub (parseFloat (balance acc)) (parseFloat am))) = Some nb"
  shows "createTransaction_db numeric tid now ins db
           = (Inr (inserted_row tid now ins am),
              db\<lparr> db_transactions := db_transactions db @ [(tid, inserted_row tid now ins am)],
                  db_accounts :=
                    AList.map_entry aid (\<lambda>a. a\<lparr> balance := nb \<rparr>) (db_accounts db) \<rparr>)"
proof -
  from acc have "aid \<in> fst ` set (db_accounts db)"
    by (metis map_of_eq_None_iff option.distinct(1))
  then have ra: "references (i_accountId ins) (map fst (db_accounts db))"
    using ai by (simp add: references_Some)
  have o: "or_null_num (Some aid) = Some aid"
    using nz by (simp add: or_null_num_def)
  have ia: "insert_transaction numeric tid now ins db
           = Inr (inserted_row tid now ins am,
                  db\<lparr> db_transactions :=
                        db_transactions db @ [(tid, inserted_row tid now ins am)] \<rparr>)"
    using am fresh rc ra ru by (rule insert_transaction_accepted)
  show ?thesis
    using nb
    by (simp add: createTransaction_db_def ia inserted_row_def ai o acc
        updateAccount_balance_def Let_def)
qed

section \<open>Postings of marked transactions\<close>

lemma createTransaction_marked:
  "marked_insert ins \<Longrightarrow> marked (fst (createTransaction now ins s))"
  by (auto simp: marked_insert_def marked_def createTransaction_row or_null_str_def
      transfer_marker_def)

lemma createTransaction_balance:
  assumes "i_accountId ins = Some aid" and "aid \<noteq> 0" and "map_of (accounts s) aid = Some acc"
  shows "balance_of aid (snd (createTransaction now ins s))
           = Some (toFixed 2
               (if i_type ins = ''income''
                then fadd (parseFloat (balance acc)) (parseFloat (i_amount ins))
                else fsub (parseFloat (balance acc)) (parseFloat (i_amount ins))))"
proof -
  have "or_null_num (i_accountId ins) = Some aid"
    using assms by (simp add: or_null_num_def)
  then show ?thesis
    using assms(3) by (simp add: createTransaction_accounts balance_of_def update_conv')
qed

lemma deleteTransaction_balance:
  assumes "map_of (transactions s) tid = Some t" and "accountId t = Some aid" and "aid \<noteq> 0"
    and "map_of (accounts s) aid = Some acc"
  shows "balance_of aid (snd (deleteTransaction tid s))
           = Some (toFixed 2
               (if t_type t = ''income''
                then fsub (parseFloat (balance acc)) (parseFloat (amount t))
                else fadd (parseFloat (balance acc)) (parseFloat (amount t))))"
proof -
  have "or_null_num (accountId t) = Some aid"
    using assms by (simp add: or_null_num_def)
  then show ?thesis
    using assms(1,4) by (simp add: deleteTransaction_accounts balance_of_def update_conv')
qed

lemma deleteTransaction_removes:
  assumes "map_of (transactions s) tid = Some t"
  shows "fst (deleteTransaction tid s)"
    and "map_of (transactions (snd (deleteTransaction tid s))) tid = None"
proof -
  show "fst (deleteTransaction tid s)"
    using assms by (simp add: deleteTransaction_def Let_def)
  show "map_of (transactions (snd (deleteTransaction tid s))) tid = None"
    by (simp add: deleteTransaction_transactions delete_conv')
qed

section \<open>Updating a transaction\<close>

text \<open>
  C3. For an existing transaction id and any partial update, also one that changes the
  amount, the type or the account, \<open>updateTransaction\<close> returns and stores the row with
  exactly the given properties overwritten (the id and the creation time stay), leaves
  every other transaction row as it is, and leaves the accounts table, hence every stored
  balance, unchanged.
\<close>

theorem updateTransaction_patches_row_only:
  assumes "map_of (transactions s) tid = Some t"
  shows "fst (updateTransaction tid u s) = Some (apply_updates t u)
       \<and> map_of (transactions (snd (updateTransaction tid u s))) tid = Some (apply_updates t u)
       \<and> (\<forall>k. k \<noteq> tid \<longrightarrow>
            map_of (transactions (snd (updateTransaction tid u s))) k = map_of (transactions s) k)
       \<and> accounts (snd (updateTransaction tid u s)) = accounts s
       \<and> currentTransactionId (snd (updateTransaction tid u s)) = currentTransactionId s
       \<and> t_id (apply_updates t u) = t_id t
       \<and> t_createdAt (apply_updates t u) = t_createdAt t
       \<and> amount (apply_updates t u) = (case u_amount u of None \<Rightarrow> amount t | Some v \<Rightarrow> v)
       \<and> t_type (apply_updates t u) = (case u_type u of None \<Rightarrow> t_type t | Some v \<Rightarrow> v)
       \<and> accountId (apply_updates t u)
            = (case u_accountId u of None \<Rightarrow> accountId t | Some v \<Rightarrow> v)"
  using assms by (simp add: updateTransaction_def Let_def update_conv' apply_updates_def)

theorem updateTransaction_patches_row_only_witness:
  "map_of (accounts (snd (updateTransaction 1 example_update
       (snd (createTransaction 7 (example_insert ''expense'' ''30.00'') example_store))))) 1
     = Some (example_account\<lparr> balance := ''70.00'' \<rparr>)
   \<and> map_option amount (fst (updateTransaction 1 example_update
       (snd (createTransaction 7 (example_insert ''expense'' ''30.00'') example_store))))
     = Some ''55.00''"
proof -
  let ?s = "snd (createTransaction 7 (example_insert ''expense'' ''30.00'') example_store)"
  have row: "map_of (transactions ?s) 1 = Some (fst (createTransaction 7 (example_insert ''expense'' ''30.00'') example_store))"
    by code_simp
  have acc: "map_of (accounts ?s) 1 = Some (example_account\<lparr> balance := ''70.00'' \<rparr>)"
    by code_simp
  have am: "u_amount example_update = Some ''55.00''"
    by (simp add: example_update_def)
  from updateTransaction_patches_row_only [OF row, of example_update] acc am
  show ?thesis by simp
qed

section \<open>Creating a transaction\<close>

text \<open>
  C2, as amended. Take a payload whose \<open>accountId\<close> is set (identifiers are allocated from
  1; the code reads 0 as no account). If the account exists and its balance and the
  amount of the transaction read as decimal numbers of at most two fraction digits and at
  most fifteen digits in all, as the values of the \<^verbatim>\<open>decimal(15, 2)\<close> columns do, then
  \<open>createTransaction\<close> sets the balance of the account to the previous balance plus the
  amount for type \<^verbatim>\<open>income\<close> and minus the amount for any other type, written with two
  fraction digits, and changes no other account: in \<^verbatim>\<open>MemStorage\<close> for the amount of the
  payload, in \<^verbatim>\<open>DatabaseStorage\<close> for the amount that the database stores and returns,
  where the new balance is what the database stores for that text. If the account does
  not exist, \<^verbatim>\<open>MemStorage\<close> leaves every account as it is, while in \<^verbatim>\<open>DatabaseStorage\<close>
  the insertion fails on the foreign key of \<^verbatim>\<open>account_id\<close>: the call ends in an error and
  the database is as before, with no row created. In \<^verbatim>\<open>MemStorage\<close> the row is stored
  under the next id in either case, with the amount, type and account of the payload.
\<close>

theorem createTransaction_adjusts_balance:
  assumes "i_accountId ins = Some aid" and "aid \<noteq> 0"
  shows "(\<forall>acc. map_of (accounts s) aid = Some acc
              \<and> hundredths (balance acc) \<and> hundredths (i_amount ins) \<longrightarrow>
            balance_of aid (snd (createTransaction now ins s))
              = Some (cents_str
                  (if i_type ins = ''income''
                   then cents_of (balance acc) + cents_of (i_amount ins)
                   else cents_of (balance acc) - cents_of (i_amount ins)))
            \<and> (\<forall>k. k \<noteq> aid \<longrightarrow>
                  map_of (accounts (snd (createTransaction now ins s))) k
                    = map_of (accounts s) k))
       \<and> (map_of (accounts s) aid = None \<longrightarrow>
            accounts (snd (createTransaction now ins s)) = accounts s)
       \<and> map_of (transactions (snd (createTransaction now ins s))) (currentTransactionId s)
           = Some (fst (createTransaction now ins s))
       \<and> amount (fst (createTransaction now ins s)) = i_amount ins
       \<and> t_type (fst (createTransaction now ins s)) = i_type ins
       \<and> accountId (fst (createTransaction now ins s)) = Some aid
       \<and> (\<forall>acc am nb. map_of (db_accounts db) aid = Some acc
              \<and> numeric (i_amount ins) = Some am
              \<and> tid \<notin> fst ` set (db_transactions db)
              \<and> references (i_categoryId ins) (db_categories db)
              \<and> references (i_userId ins) (db_users db)
              \<and> hundredths (balance acc) \<and> hundredths am
              \<and> numeric (cents_str
                    (if i_type ins = ''income''
                     then cents_of (balance acc) + cents_of am
                     else cents_of (balance acc) - cents_of am)) = Some nb \<longrightarrow>
            db_balance_of aid (snd (createTransaction_db numeric tid now ins db)) = Some nb
            \<and> (\<forall>k. k \<noteq> aid \<longrightarrow>
                  map_of (db_accounts (snd (createTransaction_db numeric tid now ins db))) k
                    = map_of (db_accounts db) k)
            \<and> fst (createTransaction_db numeric tid now ins db)
                = Inr (inserted_row tid now ins am)
            \<and> map_of (db_transactions (snd (createTransaction_db numeric tid now ins db))) tid
                = Some (inserted_row tid now ins am)
            \<and> amount (inserted_row tid now ins am) = am)
       \<and> (map_of (db_accounts db) aid = None \<longrightarrow>
            isl (fst (createTransaction_db numeric tid now ins db))
            \<and> snd (createTransaction_db numeric tid now ins db) = db)"
proof -
  have o: "or_null_num (i_accountId ins) = Some aid"
    using assms by (simp add: or_null_num_def)
  have mem: "balance_of aid (snd (createTransaction now ins s))
              = Some (cents_str
                  (if i_type ins = ''income''
                   then cents_of (balance acc) + cents_of (i_amount ins)
                   else cents_of (balance acc) - cents_of (i_amount ins)))
            \<and> (\<forall>k. k \<noteq> aid \<longrightarrow>
                  map_of (accounts (snd (createTransaction now ins s))) k
                    = map_of (accounts s) k)"
    if "map_of (accounts s) aid = Some acc" and "hundredths (balance acc)"
      and "hundredths (i_amount ins)" for acc
    using that
    by (simp add: createTransaction_accounts o update_conv' balance_of_def posting_hundredths)
  have none: "map_of (accounts s) aid = None \<longrightarrow>
                accounts (snd (createTransaction now ins s)) = accounts s"
    by (simp add: createTransaction_accounts o)
  have row: "map_of (transactions (snd (createTransaction now ins s))) (currentTransactionId s)
               = Some (fst (createTransaction now ins s))"
    by (simp add: createTransaction_transactions update_conv')
  have fields: "amount (fst (createTransaction now ins s)) = i_amount ins"
    "t_type (fst (createTransaction now ins s)) = i_type ins"
    "accountId (fst (createTransaction now ins s)) = Some aid"
    by (simp_all add: createTransaction_row o)
  have db: "db_balance_of aid (snd (createTransaction_db numeric tid now ins db)) = Some nb
            \<and> (\<forall>k. k \<noteq> aid \<longrightarrow>
                  map_of (db_accounts (snd (createTransaction_db numeric tid now ins db))) k
                    = map_of (db_accounts db) k)
            \<and> fst (createTransaction_db numeric tid now ins db)
                = Inr (inserted_row tid now ins am)
            \<and> map_of (db_transactions (snd (createTransaction_db numeric tid now ins db))) tid
                = Some (inserted_row tid now ins am)
            \<and> amount (inserted_row tid now ins am) = am"
    if acc: "map_of (db_accounts db) aid = Some acc"
      and am: "numeric (i_amount ins) = Some am"
      and fresh: "tid \<notin> fst ` set (db_transactions db)"
      and rc: "references (i_categoryId ins) (db_categories db)"
      and ru: "references (i_userId ins) (db_users db)"
      and hb: "hundredths (balance acc)" and ha: "hundredths am"
      and nb: "numeric (cents_str
                    (if i_type ins = ''income''
                     then cents_of (balance acc) + cents_of am
                     else cents_of (balance acc) - cents_of am)) = Some nb"
    for acc am nb
  proof -
    have "numeric (toFixed 2 (if i_type ins = ''income''
                              then fadd (parseFloat (balance acc)) (parseFloat am)
                              else fsub (parseFloat (balance acc)) (parseFloat am))) = Some nb"
      using nb by (cases "i_type ins = ''income''") (simp_all add: posting_hundredths [OF hb ha])
    note r = createTransaction_db_existing_account [OF assms acc am fresh rc ru this]
    from fresh have "map_of (db_transactions db) tid = None"
      by (simp add: map_of_eq_None_iff)
    then have "map_of (db_transactions db @ [(tid, inserted_row tid now ins am)]) tid
                       = Some (inserted_row tid now ins am)"
      by (simp add: map_add_def)
    then show ?thesis
      using acc by (simp add: r db_balance_of_def map_of_map_entry inserted_row_def)
  qed
  have dbnone: "map_of (db_accounts db) aid = None \<longrightarrow>
            isl (fst (createTransaction_db numeric tid now ins db))
            \<and> snd (createTransaction_db numeric tid now ins db) = db"
    using createTransaction_db_missing_account [OF assms(1)] by blast
  show ?thesis
    using mem none row fields db dbnone by blast
qed

theorem createTransaction_adjusts_balance_witness:
  "balance_of 1 (snd (createTransaction 7 (example_insert ''expense'' ''30.5'') example_store))
     = Some ''69.50''
   \<and> db_balance_of 1 (snd (createTransaction_db example_numeric 1 7
         (example_insert ''expense'' ''30.5'') example_database)) = Some ''69.50''
   \<and> map_option amount (map_of (db_transactions (snd (createTransaction_db example_numeric 1 7
         (example_insert ''expense'' ''30.5'') example_database))) 1) = Some ''30.50''
   \<and> accounts (snd (createTransaction 7
         ((example_insert ''expense'' ''30.5'')\<lparr> i_accountId := Some 5 \<rparr>) example_store))
       = accounts example_store
   \<and> map_option accountId (map_of (transactions (snd (createTransaction 7
         ((example_insert ''expense'' ''30.5'')\<lparr> i_accountId := Some 5 \<rparr>) example_store))) 1)
       = Some (Some 5)
   \<and> isl (fst (createTransaction_db example_numeric 1 7
         ((example_insert ''expense'' ''30.5'')\<lparr> i_accountId := Some 5 \<rparr>) example_database))
   \<and> snd (createTransaction_db example_numeric 1 7
         ((example_insert ''expense'' ''30.5'')\<lparr> i_accountId := Some 5 \<rparr>) example_database)
       = example_database"
proof -
  define I where "I = example_insert ''expense'' ''30.5''"
  define J where "J = (example_insert ''expense'' ''30.5'')\<lparr> i_accountId := Some 5 \<rparr>"
  have i1: "i_accountId I = Some 1" and i2: "i_accountId J = Some 5"
    unfolding I_def J_def by (simp_all add: example_insert_def)
  have n1: "(1::int) \<noteq> 0" and n5: "(5::int) \<noteq> 0" by simp_all
  note th1 = createTransaction_adjusts_balance [OF i1 n1, where s = example_store and now = 7
      and db = example_database and numeric = example_numeric and tid = 1]
  note th5 = createTransaction_adjusts_balance [OF i2 n5, where s = example_store and now = 7
      and db = example_database and numeric = example_numeric and tid = 1]
  have a: "map_of (accounts example_store) 1 = Some example_account"
    by (simp add: example_store_def)
  have hb: "hundredths (balance example_account)" by code_simp
  have ha: "hundredths (i_amount I)" unfolding I_def by code_simp
  have ty: "i_type I \<noteq> ''income''" unfolding I_def by (simp add: example_insert_def)
  have v: "cents_str (cents_of (balance example_account) - cents_of (i_amount I)) = ''69.50''"
    unfolding I_def by code_simp
  from th1 a hb ha
  have "balance_of 1 (snd (createTransaction 7 I example_store))
          = Some (cents_str
                  (if i_type I = ''income''
                   then cents_of (balance example_account) + cents_of (i_amount I)
                   else cents_of (balance example_account) - cents_of (i_amount I)))"
    by blast
  then have c1: "balance_of 1 (snd (createTransaction 7 I example_store)) = Some ''69.50''"
    using ty v by simp
  have da: "map_of (db_accounts example_database) 1 = Some example_account"
    by (simp add: example_database_def)
  have am: "example_numeric (i_amount I) = Some ''30.50''" unfolding I_def by code_simp
  have fresh: "1 \<notin> fst ` set (db_transactions example_database)"
    by (simp add: example_database_def)
  have rc: "references (i_categoryId I) (db_categories example_database)"
    and ru: "references (i_userId I) (db_users example_database)"
    unfolding I_def by code_simp+
  have hs: "hundredths ''30.50''" by code_simp
  have w: "cents_str (cents_of (balance example_account) - cents_of ''30.50'') = ''69.50''"
    by code_simp
  have nb: "example_numeric ''69.50'' = Some ''69.50''" by code_simp
  have nb': "example_numeric (cents_str
                    (if i_type I = ''income''
                     then cents_of (balance example_account) + cents_of ''30.50''
                     else cents_of (balance example_account) - cents_of ''30.50'')) = Some ''69.50''"
    using ty w nb by simp
  from th1 da am fresh rc ru hb hs nb'
  have d: "db_balance_of 1 (snd (createTransaction_db example_numeric 1 7 I example_database))
             = Some ''69.50''
           \<and> map_of (db_transactions (snd (createTransaction_db example_numeric 1 7 I
                 example_database))) 1 = Some (inserted_row 1 7 I ''30.50'')
           \<and> amount (inserted_row 1 7 I ''30.50'') = ''30.50''"
    by blast
  then have c2: "db_balance_of 1 (snd (createTransaction_db example_numeric 1 7 I example_database))
             = Some ''69.50''"
    and c3: "map_option amount (map_of (db_transactions (snd (createTransaction_db
               example_numeric 1 7 I example_database))) 1) = Some ''30.50''"
    by simp_all
  have m: "map_of (accounts example_store) 5 = None"
    by (simp add: example_store_def)
  have k: "currentTransactionId example_store = 1"
    by (simp add: example_store_def)
  from th5 m have c4: "accounts (snd (createTransaction 7 J example_store)) = accounts example_store"
    by blast
  from th5 have "map_of (transactions (snd (createTransaction 7 J example_store)))
                   (currentTransactionId example_store)
                 = Some (fst (createTransaction 7 J example_store))
               \<and> accountId (fst (createTransaction 7 J example_store)) = Some 5"
    by blast
  then have c5: "map_option accountId (map_of (transactions (snd (createTransaction 7 J
                   example_store))) 1) = Some (Some 5)"
    by (simp add: k)
  have dm: "map_of (db_accounts example_database) 5 = None"
    by (simp add: example_database_def)
  from th5 dm
  have c6: "isl (fst (createTransaction_db example_numeric 1 7 J example_database))"
    and c7: "snd (createTransaction_db example_numeric 1 7 J example_database) = example_database"
    by blast+
  from c1 c2 c3 c4 c5 c6 c7 show ?thesis
    unfolding I_def J_def by blast
qed

text \<open>
  On a balance of 9007199254740992.00 an income of 1.00 leaves the balance as it is, where
  the balance plus the amount is 9007199254740993.00. And in the database a payload for
  account 5, which does not exist, creates no row: the call ends in the error of the
  foreign key and the database is as before.
\<close>

theorem createTransaction_balance_counterexample:
  "map_of (accounts (store_with_balance ''9007199254740992.00'')) 1
     = Some (example_account\<lparr> balance := ''9007199254740992.00'' \<rparr>)
   \<and> i_accountId (example_insert ''income'' ''1.00'') = Some 1
   \<and> balance_of 1 (snd (createTransaction 7 (example_insert ''income'' ''1.00'')
        (store_with_balance ''9007199254740992.00''))) = Some ''9007199254740992.00''
   \<and> cents_str (cents_of ''9007199254740992.00'' + cents_of ''1.00'') = ''9007199254740993.00''
   \<and> map_of (db_accounts example_database) 5 = None
   \<and> createTransaction_db example_numeric 1 7
        ((example_insert ''expense'' ''30.00'')\<lparr> i_accountId := Some 5 \<rparr>) example_database
      = (Inl ForeignKeyViolation, example_database)"
  by code_simp

section \<open>The arithmetic of a posting\<close>

text \<open>
  C4, as amended. \<open>createTransaction\<close> and \<open>deleteTransaction\<close> compute the new balance
  in binary64 (\<^verbatim>\<open>parseFloat\<close>, \<^verbatim>\<open>+\<close> or \<^verbatim>\<open>-\<close>, \<^verbatim>\<open>toFixed(2)\<close>), not in a decimal type, and
  \<open>createTransaction\<close> persists the amount as it receives it. For an account whose balance
  is a value of the \<^verbatim>\<open>decimal(15, 2)\<close> column and an amount that is one, the balance
  written equals the one that exact decimal arithmetic with standard rounding to two
  places gives.
\<close>

theorem posting_exact_on_column_values:
  assumes "map_of (accounts s) aid = Some acc" and "aid \<noteq> 0" and "two_decimals (balance acc)"
  shows "(i_accountId ins = Some aid \<and> two_decimals (i_amount ins) \<longrightarrow>
            balance_of aid (snd (createTransaction now ins s))
              = Some (decimal_posting False (i_type ins) (balance acc) (i_amount ins)))
       \<and> (map_of (transactions s) tid = Some t \<and> accountId t = Some aid \<longrightarrow>
            balance_of aid (snd (deleteTransaction tid s))
              = Some (toFixed 2
                        (if t_type t = ''income''
                         then fsub (parseFloat (balance acc)) (parseFloat (amount t))
                         else fadd (parseFloat (balance acc)) (parseFloat (amount t))))
            \<and> (two_decimals (amount t) \<longrightarrow>
                 balance_of aid (snd (deleteTransaction tid s))
                   = Some (decimal_posting True (t_type t) (balance acc) (amount t))))
       \<and> amount (fst (createTransaction now ins s)) = i_amount ins"
proof -
  have c: "balance_of aid (snd (createTransaction now ins s))
             = Some (decimal_posting False (i_type ins) (balance acc) (i_amount ins))"
    if "i_accountId ins = Some aid" and a: "two_decimals (i_amount ins)"
  proof -
    have o: "or_null_num (i_accountId ins) = Some aid"
      using that assms(2) by (simp add: or_null_num_def)
    show ?thesis
      using assms(1)
      by (simp add: createTransaction_accounts o update_conv' balance_of_def
          posting_two_decimals [OF assms(3) a] decimal_posting_two_decimals [OF assms(3) a])
  qed
  have d: "balance_of aid (snd (deleteTransaction tid s))
              = Some (toFixed 2
                        (if t_type t = ''income''
                         then fsub (parseFloat (balance acc)) (parseFloat (amount t))
                         else fadd (parseFloat (balance acc)) (parseFloat (amount t))))
            \<and> (two_decimals (amount t) \<longrightarrow>
                 balance_of aid (snd (deleteTransaction tid s))
                   = Some (decimal_posting True (t_type t) (balance acc) (amount t)))"
    if t: "map_of (transactions s) tid = Some t" and "accountId t = Some aid"
  proof -
    have o: "or_null_num (accountId t) = Some aid"
      using that assms(2) by (simp add: or_null_num_def)
    have g: "balance_of aid (snd (deleteTransaction tid s))
              = Some (toFixed 2
                        (if t_type t = ''income''
                         then fsub (parseFloat (balance acc)) (parseFloat (amount t))
                         else fadd (parseFloat (balance acc)) (parseFloat (amount t))))"
      using assms(1) by (simp add: deleteTransaction_accounts t o update_conv' balance_of_def)
    have "balance_of aid (snd (deleteTransaction tid s))
            = Some (decimal_posting True (t_type t) (balance acc) (amount t))"
      if a: "two_decimals (amount t)"
      unfolding g
      by (simp add: posting_two_decimals [OF assms(3) a]
          decimal_posting_two_decimals [OF assms(3) a])
    with g show ?thesis by blast
  qed
  have "amount (fst (createTransaction now ins s)) = i_amount ins"
    by (simp add: createTransaction_row)
  with c d show ?thesis by blast
qed


theorem posting_exact_on_column_values_witness:
  "balance_of 1 (snd (createTransaction 8 (example_insert ''income'' ''20.00'')
       example_posted_store)) = Some ''90.00''
   \<and> balance_of 1 (snd (deleteTransaction 1 example_posted_store)) = Some ''100.00''"
proof -
  define T where "T = fst (createTransaction 7 (example_insert ''expense'' ''30.00'') example_store)"
  define I where "I = example_insert ''income'' ''20.00''"
  define acc where "acc = example_account\<lparr> balance := ''70.00'' \<rparr>"
  have a: "map_of (accounts example_posted_store) 1 = Some acc"
    unfolding acc_def by code_simp
  have h: "(1::int) \<noteq> 0" by simp
  have td: "two_decimals (balance acc)"
    unfolding acc_def by code_simp
  have c: "i_accountId I = Some 1 \<and> two_decimals (i_amount I)"
    unfolding I_def by code_simp
  have t: "map_of (transactions example_posted_store) 1 = Some T \<and> accountId T = Some 1"
    unfolding T_def by code_simp
  have ta: "two_decimals (amount T)"
    unfolding T_def by code_simp
  have v1: "decimal_posting False (i_type I) (balance acc) (i_amount I) = ''90.00''"
    unfolding I_def acc_def by code_simp
  have v2: "decimal_posting True (t_type T) (balance acc) (amount T) = ''100.00''"
    unfolding T_def acc_def by code_simp
  note th = posting_exact_on_column_values [OF a h td, where ins = I and now = 8 and tid = 1 and t = T]
  from th c have "balance_of 1 (snd (createTransaction 8 I example_posted_store))
                    = Some (decimal_posting False (i_type I) (balance acc) (i_amount I))"
    by blast
  then have r1: "balance_of 1 (snd (createTransaction 8 I example_posted_store)) = Some ''90.00''"
    by (simp only: v1)
  from th t ta have "balance_of 1 (snd (deleteTransaction 1 example_posted_store))
                    = Some (decimal_posting True (t_type T) (balance acc) (amount T))"
    by blast
  then have r2: "balance_of 1 (snd (deleteTransaction 1 example_posted_store)) = Some ''100.00''"
    by (simp only: v2)
  from r1 r2 show ?thesis unfolding I_def by blast
qed

text \<open>
  Outside the column type the binary64 result and the exact decimal result differ, and the
  amount is persisted as received: an income of 1.005 on a balance of 0.00 gives 1.00 where
  decimal arithmetic with standard rounding gives 1.01.
\<close>

theorem posting_drift_counterexample:
  "balance_of 1 (snd (createTransaction 7 (example_insert ''income'' ''1.005'')
       (store_with_balance ''0.00''))) = Some ''1.00''
   \<and> decimal_posting False ''income'' ''0.00'' ''1.005'' = ''1.01''
   \<and> amount (fst (createTransaction 7 (example_insert ''income'' ''1.005'')
       (store_with_balance ''0.00''))) = ''1.005''
   \<and> \<not> two_decimals ''1.005''"
  by code_simp

section \<open>The balance follows the existing transactions\<close>

text \<open>
  C1, as amended. Let the store be one that \<^verbatim>\<open>MemStorage\<close> builds (one row for each id, ids
  below the counter), let the transactions that reference account \<open>A\<close> and the payloads
  posted against it have type \<^verbatim>\<open>income\<close> or \<^verbatim>\<open>expense\<close> and an amount of the
  \<^verbatim>\<open>decimal(15, 2)\<close> column type, and let the balance of \<open>A\<close> be a value of that type
  initially and after every operation. Then after any sequence of create and delete
  operations the stored balance of \<open>A\<close> is the initial balance plus the income amounts
  minus the expense amounts of the transactions that exist at the end and reference \<open>A\<close>,
  less the same sum over the transactions that existed at the start (nothing, when none
  referenced \<open>A\<close>). The witness is the scenario 100.00, expense 30.00, income 20.00,
  expense deleted: 70.00, 90.00, 120.00.
\<close>

theorem balance_tracks_existing_transactions:
  assumes "ids_ok s" and "rows_ok A s" and "list_all (op_ok A) ops"
    and "list_all (balance_ok A) (states ops s)" and "balance_of A s = Some b0"
  shows "balance_of A (run ops s)
           = Some (cents_str (cents_of b0
               + (income_cents A (run ops s) - income_cents A s)
               - (expense_cents A (run ops s) - expense_cents A s)))"
  using assms
proof (induction ops arbitrary: s b0)
  case Nil
  then have "two_decimals b0" by (simp add: balance_ok_def)
  then have "cents_str (cents_of b0) = b0" using two_decimalsD by simp
  with Nil show ?case by simp
next
  case (Cons op ops)
  from Cons.prems have op: "op_ok A op" and ops: "list_all (op_ok A) ops"
    and here: "balance_ok A s" and rest: "list_all (balance_ok A) (states ops (step op s))"
    by simp_all
  from here Cons.prems(5) have td: "two_decimals b0"
    by (simp add: balance_ok_def)
  let ?b1 = "cents_str (cents_of b0
               + (income_cents A (step op s) - income_cents A s)
               - (expense_cents A (step op s) - expense_cents A s))"
  have b1: "balance_of A (step op s) = Some ?b1"
    by (rule step_ledger [OF Cons.prems(1,2) op Cons.prems(5) td])
  from step_invariants [OF Cons.prems(1,2) op]
  have inv: "ids_ok (step op s)" "rows_ok A (step op s)" by simp_all
  have "cents_of ?b1
          + (income_cents A (run ops (step op s)) - income_cents A (step op s))
          - (expense_cents A (run ops (step op s)) - expense_cents A (step op s))
        = cents_of b0
          + (income_cents A (run ops (step op s)) - income_cents A s)
          - (expense_cents A (run ops (step op s)) - expense_cents A s)"
    by (simp add: cents_of_cents)
  with Cons.IH [OF inv ops rest b1] show ?case
    by simp
qed


theorem balance_tracks_existing_transactions_witness:
  "balance_of 1 (run [Create 7 (example_insert ''expense'' ''30.00''),
                      Create 8 (example_insert ''income'' ''20.00''), Delete 1] example_store)
     = Some ''120.00''
   \<and> map (balance_of 1)
        (states [Create 7 (example_insert ''expense'' ''30.00''),
                 Create 8 (example_insert ''income'' ''20.00''), Delete 1] example_store)
     = [Some ''100.00'', Some ''70.00'', Some ''90.00'', Some ''120.00'']"
proof -
  define ops where "ops = [Create 7 (example_insert ''expense'' ''30.00''),
                           Create 8 (example_insert ''income'' ''20.00''), Delete 1]"
  have h1: "ids_ok example_store" by code_simp
  have h2: "rows_ok 1 example_store" by code_simp
  have h3: "list_all (op_ok 1) ops" unfolding ops_def by code_simp
  have h4: "list_all (balance_ok 1) (states ops example_store)" unfolding ops_def by code_simp
  have h5: "balance_of 1 example_store = Some ''100.00''" by code_simp
  have v: "cents_str (cents_of ''100.00''
             + (income_cents 1 (run ops example_store) - income_cents 1 example_store)
             - (expense_cents 1 (run ops example_store) - expense_cents 1 example_store))
           = ''120.00''"
    unfolding ops_def by code_simp
  have st: "map (balance_of 1) (states ops example_store)
              = [Some ''100.00'', Some ''70.00'', Some ''90.00'', Some ''120.00'']"
    unfolding ops_def by code_simp
  from balance_tracks_existing_transactions [OF h1 h2 h3 h4 h5]
  have "balance_of 1 (run ops example_store) = Some ''120.00''"
    by (simp only: v)
  with st show ?thesis unfolding ops_def by blast
qed

text \<open>
  Beyond the column type the postings lose hundredths: on a balance of
  9007199254740992.00 an income of 1.00 is created and deleted again; no transaction is
  left, and the balance has become 9007199254740991.00.
\<close>

theorem balance_tracks_counterexample:
  "balance_of 1 (store_with_balance ''9007199254740992.00'') = Some ''9007199254740992.00''
   \<and> transactions (run [Create 7 (example_insert ''income'' ''1.00''), Delete 1]
        (store_with_balance ''9007199254740992.00'')) = []
   \<and> balance_of 1 (run [Create 7 (example_insert ''income'' ''1.00''), Delete 1]
        (store_with_balance ''9007199254740992.00'')) = Some ''9007199254740991.00''
   \<and> income_cents 1 (run [Create 7 (example_insert ''income'' ''1.00''), Delete 1]
        (store_with_balance ''9007199254740992.00'')) = 0
   \<and> expense_cents 1 (run [Create 7 (example_insert ''income'' ''1.00''), Delete 1]
        (store_with_balance ''9007199254740992.00'')) = 0"
  by code_simp

section \<open>Deleting and creating again\<close>

text \<open>
  C6, as amended. For an account whose balance is a value of the \<^verbatim>\<open>decimal(15, 2)\<close> column
  type, and a transaction that references it with an amount of that type, such that the
  balance after the deletion is of that type too: deleting the transaction and creating
  one with the same type, amount and account restores the stored balance.
\<close>

theorem delete_then_recreate_restores_balance:
  assumes acc: "map_of (accounts s) aid = Some acc" and nz: "aid \<noteq> 0"
    and tdb: "two_decimals (balance acc)"
    and t: "map_of (transactions s) tid = Some t" and ta: "accountId t = Some aid"
    and tda: "two_decimals (amount t)"
    and mid: "balance_ok aid (snd (deleteTransaction tid s))"
    and same: "i_type ins = t_type t" "i_amount ins = amount t" "i_accountId ins = accountId t"
  shows "balance_of aid (snd (createTransaction now ins (snd (deleteTransaction tid s))))
           = balance_of aid s"
proof -
  let ?s1 = "snd (deleteTransaction tid s)"
  let ?b1 = "cents_str (if t_type t = ''income''
                        then cents_of (balance acc) - cents_of (amount t)
                        else cents_of (balance acc) + cents_of (amount t))"
  have o: "or_null_num (accountId t) = Some aid" "or_null_num (i_accountId ins) = Some aid"
    using ta nz same by (simp_all add: or_null_num_def)
  have a1: "map_of (accounts ?s1) aid = Some (acc\<lparr> balance := ?b1 \<rparr>)"
    using acc
    by (simp add: deleteTransaction_accounts t o update_conv' posting_two_decimals [OF tdb tda])
  then have "balance_of aid ?s1 = Some ?b1" by (simp add: balance_of_def)
  with mid have td1: "two_decimals ?b1" by (simp add: balance_ok_def)
  have tdi: "two_decimals (i_amount ins)" using tda same by simp
  have "balance_of aid (snd (createTransaction now ins ?s1))
          = Some (cents_str (if i_type ins = ''income''
                             then cents_of ?b1 + cents_of (i_amount ins)
                             else cents_of ?b1 - cents_of (i_amount ins)))"
    using posting_two_decimals [OF td1 tdi]
    by (simp add: createTransaction_accounts o a1 update_conv' balance_of_def)
  also have "\<dots> = Some (cents_str (cents_of (balance acc)))"
    using same by (simp add: cents_of_cents)
  also have "\<dots> = Some (balance acc)"
    using two_decimalsD [OF tdb] by simp
  finally show ?thesis using acc by (simp add: balance_of_def)
qed


theorem delete_then_recreate_restores_balance_witness:
  "balance_of 1 example_posted_store = Some ''70.00''
   \<and> balance_of 1 (snd (deleteTransaction 1 example_posted_store)) = Some ''100.00''
   \<and> balance_of 1 (snd (createTransaction 9 (example_insert ''expense'' ''30.00'')
         (snd (deleteTransaction 1 example_posted_store)))) = Some ''70.00''"
proof -
  define T where "T = fst (createTransaction 7 (example_insert ''expense'' ''30.00'') example_store)"
  define I where "I = example_insert ''expense'' ''30.00''"
  define acc where "acc = example_account\<lparr> balance := ''70.00'' \<rparr>"
  have a: "map_of (accounts example_posted_store) 1 = Some acc"
    unfolding acc_def by code_simp
  have h: "(1::int) \<noteq> 0" by simp
  have td: "two_decimals (balance acc)"
    unfolding acc_def by code_simp
  have t: "map_of (transactions example_posted_store) 1 = Some T"
    unfolding T_def by code_simp
  have ta: "accountId T = Some 1"
    unfolding T_def by code_simp
  have tda: "two_decimals (amount T)"
    unfolding T_def by code_simp
  have mid: "balance_ok 1 (snd (deleteTransaction 1 example_posted_store))"
    by code_simp
  have same: "i_type I = t_type T" "i_amount I = amount T" "i_accountId I = accountId T"
    unfolding I_def T_def by code_simp+
  have b0: "balance_of 1 example_posted_store = Some ''70.00''"
    by code_simp
  have b1: "balance_of 1 (snd (deleteTransaction 1 example_posted_store)) = Some ''100.00''"
    by code_simp
  from delete_then_recreate_restores_balance [OF a h td t ta tda mid same, of 9]
  have "balance_of 1 (snd (createTransaction 9 I (snd (deleteTransaction 1 example_posted_store))))
          = Some ''70.00''"
    by (simp only: b0)
  with b0 b1 show ?thesis unfolding I_def by blast
qed

text \<open>
  Beyond the column type the round trip loses a hundredth: an expense of 1.00 posted on
  9007199254740994.00 leaves 9007199254740992.00; deleting it and creating it again
  leaves 9007199254740991.00.
\<close>

theorem delete_then_recreate_counterexample:
  "map_option (\<lambda>t. (t_type t, amount t, accountId t))
       (map_of (transactions (snd (createTransaction 7 (example_insert ''expense'' ''1.00'')
          (store_with_balance ''9007199254740994.00'')))) 1)
     = Some (''expense'', ''1.00'', Some 1)
   \<and> balance_of 1 (snd (createTransaction 7 (example_insert ''expense'' ''1.00'')
         (store_with_balance ''9007199254740994.00''))) = Some ''9007199254740992.00''
   \<and> balance_of 1 (snd (createTransaction 8 (example_insert ''expense'' ''1.00'')
         (snd (deleteTransaction 1
           (snd (createTransaction 7 (example_insert ''expense'' ''1.00'')
             (store_with_balance ''9007199254740994.00''))))))) = Some ''9007199254740991.00''"
  by code_simp

section \<open>Change against the previous month\<close>




section \<open>Months that hold only transfers and loan payments\<close>

text \<open>
  C10. The bucket of a month is created for every transaction, before the markers are
  looked at. So a month all of whose transactions carry the transfer marker in
  \<open>thirdParty\<close> or the loan-payment marker in the description has a bucket with income 0
  and expenses 0; the six entries of the trends list are the last six of all buckets, this
  one included; and whenever the month is among them its entry has income 0, expenses 0 and
  net 0. In the witness a month that holds only a transfer is the seventh month and
  pushes the oldest month out of the list.
\<close>

theorem marker_only_month_is_listed:
  assumes "t \<in> set txs"
    and "\<forall>u \<in> set txs. month_key gy gm u = month_key gy gm t \<longrightarrow> marked u"
  shows "map_of (monthly_data gy gm txs) (month_key gy gm t)
           = Some \<lparr> acc_income = Fin 0, acc_expenses = Fin 0 \<rparr>
       \<and> map month (monthlyTrends gy gm txs) = last6 (sort (map fst (monthly_data gy gm txs)))
       \<and> (month_key gy gm t \<in> set (last6 (sort (map fst (monthly_data gy gm txs)))) \<longrightarrow>
            \<lparr> month = month_key gy gm t, income = Fin 0, expenses = Fin 0, net = Fin 0 \<rparr>
              \<in> set (monthlyTrends gy gm txs))
       \<and> (\<forall>e \<in> set (monthlyTrends gy gm txs).
            month e = month_key gy gm t \<longrightarrow>
              income e = Fin 0 \<and> expenses e = Fin 0 \<and> net e = Fin 0)"
proof -
  let ?k = "month_key gy gm t"
  have z: "month_fold gy gm ?k txs zero_totals = zero_totals"
    using assms(2) by (intro month_fold_marked) blast
  have b: "map_of (monthly_data gy gm txs) ?k = Some \<lparr> acc_income = Fin 0, acc_expenses = Fin 0 \<rparr>"
    using assms(1) z by (simp add: monthly_data_lookup zero_totals_def)
  have e: "trend_entry ?k zero_totals
             = \<lparr> month = ?k, income = Fin 0, expenses = Fin 0, net = Fin 0 \<rparr>"
    by (simp add: trend_entry_def zero_totals_def fsub_zero)
  have i: "\<lparr> month = ?k, income = Fin 0, expenses = Fin 0, net = Fin 0 \<rparr>
             \<in> set (monthlyTrends gy gm txs)"
    if "?k \<in> set (last6 (sort (map fst (monthly_data gy gm txs))))"
    using that z e by (force simp: monthlyTrends_entries)
  have a: "income x = Fin 0 \<and> expenses x = Fin 0 \<and> net x = Fin 0"
    if "x \<in> set (monthlyTrends gy gm txs)" and "month x = ?k" for x
  proof -
    from that(1) obtain m where "x = trend_entry m (month_fold gy gm m txs zero_totals)"
      by (auto simp: monthlyTrends_entries)
    moreover from this that(2) have "m = ?k" by (simp add: trend_entry_def)
    ultimately show ?thesis using z e by simp
  qed
  show ?thesis
    using b i a by (simp add: monthlyTrends_months)
qed


theorem marker_only_month_is_listed_witness:
  "\<lparr> month = ''2024-07'', income = Fin 0, expenses = Fin 0, net = Fin 0 \<rparr>
     \<in> set (monthlyTrends example_year example_month example_seven_months)
   \<and> map month (monthlyTrends example_year example_month example_seven_months)
     = [''2024-02'', ''2024-03'', ''2024-04'', ''2024-05'', ''2024-06'', ''2024-07'']"
proof -
  define t where
    "t = example_row ''expense'' ''40.00'' 6 (Some ''Transferencia'') ''Transferencia a Ahorros'' None"
  have h1: "t \<in> set example_seven_months"
    unfolding t_def by code_simp
  have h2: "\<forall>u \<in> set example_seven_months.
              month_key example_year example_month u = month_key example_year example_month t
                \<longrightarrow> marked u"
    unfolding t_def by code_simp
  have k: "month_key example_year example_month t = ''2024-07''"
    unfolding t_def by code_simp
  have l: "last6 (sort (map fst (monthly_data example_year example_month example_seven_months)))
             = [''2024-02'', ''2024-03'', ''2024-04'', ''2024-05'', ''2024-06'', ''2024-07'']"
    by code_simp
  note th = marker_only_month_is_listed [OF h1 h2, unfolded k l]
  have "''2024-07'' \<in> set [''2024-02'', ''2024-03'', ''2024-04'', ''2024-05'', ''2024-06'', ''2024-07'']"
    by simp
  with th show ?thesis by blast
qed

text \<open>
  C5. Take a transaction whose \<open>thirdParty\<close> is the transfer marker or whose description
  contains the loan-payment marker, linked to an existing account. Creating it stores a
  row that carries the marker and sets the balance of the account to \<^verbatim>\<open>toFixed(2)\<close> of the
  balance plus the amount for type \<^verbatim>\<open>income\<close> and minus the amount otherwise; deleting it
  removes the row and sets the balance to \<^verbatim>\<open>toFixed(2)\<close> of the balance minus the amount for
  type \<^verbatim>\<open>income\<close> and plus the amount otherwise; for a balance and an amount that read as
  decimal numbers of at most two fraction digits and fifteen digits in all that is the
  exact sum or difference. This is what happens for every transaction: the accounts that
  \<open>createTransaction\<close> and \<open>deleteTransaction\<close> write do not depend on \<open>thirdParty\<close> or on
  the description. To the aggregates the transaction contributes nothing: the summary and
  the expenses by category are those of the transactions without the marked ones, and so
  are the income and expense accumulators of every month of the trends.
\<close>

theorem marked_transactions_post_but_are_not_counted:
  "(\<forall>aid acc. marked_insert ins \<and> i_accountId ins = Some aid \<and> aid \<noteq> 0
        \<and> map_of (accounts s) aid = Some acc \<longrightarrow>
      marked (fst (createTransaction now ins s))
      \<and> map_of (transactions (snd (createTransaction now ins s))) (currentTransactionId s)
          = Some (fst (createTransaction now ins s))
      \<and> balance_of aid (snd (createTransaction now ins s))
          = Some (toFixed 2
              (if i_type ins = ''income''
               then fadd (parseFloat (balance acc)) (parseFloat (i_amount ins))
               else fsub (parseFloat (balance acc)) (parseFloat (i_amount ins))))
      \<and> (hundredths (balance acc) \<and> hundredths (i_amount ins) \<longrightarrow>
            balance_of aid (snd (createTransaction now ins s))
              = Some (cents_str
                  (if i_type ins = ''income''
                   then cents_of (balance acc) + cents_of (i_amount ins)
                   else cents_of (balance acc) - cents_of (i_amount ins)))))
   \<and> (\<forall>t aid acc. marked t \<and> map_of (transactions s) tid = Some t
        \<and> accountId t = Some aid \<and> aid \<noteq> 0 \<and> map_of (accounts s) aid = Some acc \<longrightarrow>
      fst (deleteTransaction tid s)
      \<and> map_of (transactions (snd (deleteTransaction tid s))) tid = None
      \<and> balance_of aid (snd (deleteTransaction tid s))
          = Some (toFixed 2
              (if t_type t = ''income''
               then fsub (parseFloat (balance acc)) (parseFloat (amount t))
               else fadd (parseFloat (balance acc)) (parseFloat (amount t))))
      \<and> (hundredths (balance acc) \<and> hundredths (amount t) \<longrightarrow>
            balance_of aid (snd (deleteTransaction tid s))
              = Some (cents_str
                  (if t_type t = ''income''
                   then cents_of (balance acc) - cents_of (amount t)
                   else cents_of (balance acc) + cents_of (amount t)))))
   \<and> accounts (snd (createTransaction now (ins\<lparr> i_thirdParty := tp, i_description := de \<rparr>) s))
     = accounts (snd (createTransaction now ins s))
   \<and> accounts (snd (deleteTransaction tid
       (s\<lparr> transactions := AList.update tid (r\<lparr> thirdParty := tp, description := de \<rparr>)
             (transactions s) \<rparr>)))
     = accounts (snd (deleteTransaction tid
         (s\<lparr> transactions := AList.update tid r (transactions s) \<rparr>)))
   \<and> analytics_summary monthStart monthEnd prevMonthStart prevMonthEnd txs accts
     = analytics_summary monthStart monthEnd prevMonthStart prevMonthEnd
         (filter (\<lambda>t. \<not> marked t) txs) accts
   \<and> expensesByCategory cats txs = expensesByCategory cats (filter (\<lambda>t. \<not> marked t) txs)
   \<and> (\<forall>k. map_of (monthly_data gy gm txs) k
          = (if k \<in> month_key gy gm ` set txs
             then Some (month_fold gy gm k (filter (\<lambda>t. \<not> marked t) txs) zero_totals)
             else None))"
proof -
  have c: "marked (fst (createTransaction now ins s))
      \<and> map_of (transactions (snd (createTransaction now ins s))) (currentTransactionId s)
          = Some (fst (createTransaction now ins s))
      \<and> balance_of aid (snd (createTransaction now ins s))
          = Some (toFixed 2
              (if i_type ins = ''income''
               then fadd (parseFloat (balance acc)) (parseFloat (i_amount ins))
               else fsub (parseFloat (balance acc)) (parseFloat (i_amount ins))))
      \<and> (hundredths (balance acc) \<and> hundredths (i_amount ins) \<longrightarrow>
            balance_of aid (snd (createTransaction now ins s))
              = Some (cents_str
                  (if i_type ins = ''income''
                   then cents_of (balance acc) + cents_of (i_amount ins)
                   else cents_of (balance acc) - cents_of (i_amount ins))))"
    if "marked_insert ins" and "i_accountId ins = Some aid" and "aid \<noteq> 0"
      and "map_of (accounts s) aid = Some acc" for aid acc
    using that
    by (simp add: createTransaction_marked createTransaction_transactions update_conv'
        createTransaction_balance posting_hundredths)
  have d: "fst (deleteTransaction tid s)
      \<and> map_of (transactions (snd (deleteTransaction tid s))) tid = None
      \<and> balance_of aid (snd (deleteTransaction tid s))
          = Some (toFixed 2
              (if t_type t = ''income''
               then fsub (parseFloat (balance acc)) (parseFloat (amount t))
               else fadd (parseFloat (balance acc)) (parseFloat (amount t))))
      \<and> (hundredths (balance acc) \<and> hundredths (amount t) \<longrightarrow>
            balance_of aid (snd (deleteTransaction tid s))
              = Some (cents_str
                  (if t_type t = ''income''
                   then cents_of (balance acc) - cents_of (amount t)
                   else cents_of (balance acc) + cents_of (amount t))))"
    if "map_of (transactions s) tid = Some t" and "accountId t = Some aid" and "aid \<noteq> 0"
      and "map_of (accounts s) aid = Some acc" for t aid acc
    using that
    by (simp add: deleteTransaction_removes deleteTransaction_balance posting_hundredths)
  have i: "accounts (snd (createTransaction now (ins\<lparr> i_thirdParty := tp, i_description := de \<rparr>) s))
     = accounts (snd (createTransaction now ins s))"
    by (rule create_ignores_markers)
  have j: "accounts (snd (deleteTransaction tid
       (s\<lparr> transactions := AList.update tid (r\<lparr> thirdParty := tp, description := de \<rparr>)
             (transactions s) \<rparr>)))
     = accounts (snd (deleteTransaction tid
         (s\<lparr> transactions := AList.update tid r (transactions s) \<rparr>)))"
    by (rule delete_ignores_markers)
  have a: "analytics_summary monthStart monthEnd prevMonthStart prevMonthEnd txs accts
     = analytics_summary monthStart monthEnd prevMonthStart prevMonthEnd
         (filter (\<lambda>t. \<not> marked t) txs) accts"
    by (simp add: summary_without_marked)
  have e: "expensesByCategory cats txs = expensesByCategory cats (filter (\<lambda>t. \<not> marked t) txs)"
    by (simp add: expensesByCategory_without_marked)
  have m: "\<forall>k. map_of (monthly_data gy gm txs) k
          = (if k \<in> month_key gy gm ` set txs
             then Some (month_fold gy gm k (filter (\<lambda>t. \<not> marked t) txs) zero_totals)
             else None)"
    by (simp add: monthly_data_lookup month_fold_without_marked)
  show ?thesis
    using c d i j a e m by blast
qed

theorem marked_transactions_post_but_are_not_counted_witness:
  "marked_insert example_transfer_insert \<and> marked_insert example_loan_insert
   \<and> balance_of 1 example_store = Some ''100.00''
   \<and> balance_of 1 (snd (createTransaction 7 example_transfer_insert example_store))
       = Some ''70.00''
   \<and> balance_of 1 (snd (createTransaction 7 example_loan_insert example_store))
       = Some ''70.00''
   \<and> map_option description (map_of (transactions example_loan_store) 1)
       = Some (loan_payment_marker @ '' - cuota 3'')
   \<and> balance_of 1 example_loan_store = Some ''70.00''
   \<and> balance_of 1 (snd (deleteTransaction 1 example_loan_store)) = Some ''100.00''
   \<and> map_of (transactions (snd (deleteTransaction 1 example_loan_store))) 1 = None
   \<and> monthlyIncome (analytics_summary 12 12 11 11 example_marked_rows []) = Fin 10
   \<and> monthlyExpenses (analytics_summary 12 12 11 11 example_marked_rows []) = Fin 0
   \<and> prevMonthIncome (analytics_summary 12 12 11 11 example_marked_rows []) = Fin 0
   \<and> prevMonthExpenses (analytics_summary 12 12 11 11 example_marked_rows []) = Fin 50
   \<and> expensesByCategory [] example_marked_rows = [(uncategorized_label, Num (Fin 50))]
   \<and> map_of (monthly_data example_year example_month example_marked_rows) ''2025-01''
       = Some \<lparr> acc_income = Fin 10, acc_expenses = Fin 0 \<rparr>
   \<and> map_of (monthly_data example_year example_month example_marked_rows) ''2024-12''
       = Some \<lparr> acc_income = Fin 0, acc_expenses = Fin 50 \<rparr>"
proof -
  define T where "T = fst (createTransaction 7 example_loan_insert example_store)"
  define U where "U = [example_row ''income'' ''10.00'' 12 None ''Venta'' None,
                       example_row ''expense'' ''50.00'' 11 None ''Compra'' None]"
  note th1 = marked_transactions_post_but_are_not_counted
    [where ins = example_transfer_insert and s = example_store and now = 7 and tid = 1
       and tp = None and de = "[]" and r = T
       and monthStart = 12 and monthEnd = 12 and prevMonthStart = 11 and prevMonthEnd = 11
       and txs = example_marked_rows and accts = "[]" and cats = "[]"
       and gy = example_year and gm = example_month]
  note th2 = marked_transactions_post_but_are_not_counted
    [where ins = example_loan_insert and s = example_store and now = 7 and tid = 1
       and tp = None and de = "[]" and r = T
       and monthStart = 12 and monthEnd = 12 and prevMonthStart = 11 and prevMonthEnd = 11
       and txs = example_marked_rows and accts = "[]" and cats = "[]"
       and gy = example_year and gm = example_month]
  note th3 = marked_transactions_post_but_are_not_counted
    [where ins = example_loan_insert and s = example_loan_store and now = 7 and tid = 1
       and tp = None and de = "[]" and r = T
       and monthStart = 12 and monthEnd = 12 and prevMonthStart = 11 and prevMonthEnd = 11
       and txs = example_marked_rows and accts = "[]" and cats = "[]"
       and gy = example_year and gm = example_month]
  have m1: "marked_insert example_transfer_insert" by code_simp
  have m2: "marked_insert example_loan_insert" by code_simp
  have a1: "i_accountId example_transfer_insert = Some 1"
    and a2: "i_accountId example_loan_insert = Some 1"
    by (simp_all add: example_transfer_insert_def example_loan_insert_def example_insert_def)
  have nz: "(1::int) \<noteq> 0" by simp
  have acc: "map_of (accounts example_store) 1 = Some example_account"
    by (simp add: example_store_def)
  have b0: "balance_of 1 example_store = Some ''100.00''" by code_simp
  have hb: "hundredths (balance example_account)" by code_simp
  have h1: "hundredths (i_amount example_transfer_insert)"
    and h2: "hundredths (i_amount example_loan_insert)"
    by code_simp+
  have t1: "i_type example_transfer_insert \<noteq> ''income''"
    and t2: "i_type example_loan_insert \<noteq> ''income''"
    by (simp_all add: example_transfer_insert_def example_loan_insert_def example_insert_def)
  have v1: "cents_str (cents_of (balance example_account)
              - cents_of (i_amount example_transfer_insert)) = ''70.00''"
    and v2: "cents_str (cents_of (balance example_account)
              - cents_of (i_amount example_loan_insert)) = ''70.00''"
    by code_simp+
  from th1 m1 a1 nz acc hb h1
  have "balance_of 1 (snd (createTransaction 7 example_transfer_insert example_store))
          = Some (cents_str
              (if i_type example_transfer_insert = ''income''
               then cents_of (balance example_account) + cents_of (i_amount example_transfer_insert)
               else cents_of (balance example_account) - cents_of (i_amount example_transfer_insert)))"
    by blast
  then have c1: "balance_of 1 (snd (createTransaction 7 example_transfer_insert example_store))
                   = Some ''70.00''"
    using t1 v1 by simp
  from th2 m2 a2 nz acc hb h2
  have "balance_of 1 (snd (createTransaction 7 example_loan_insert example_store))
          = Some (cents_str
              (if i_type example_loan_insert = ''income''
               then cents_of (balance example_account) + cents_of (i_amount example_loan_insert)
               else cents_of (balance example_account) - cents_of (i_amount example_loan_insert)))"
    by blast
  then have c2: "balance_of 1 (snd (createTransaction 7 example_loan_insert example_store))
                   = Some ''70.00''"
    using t2 v2 by simp
  then have c3: "balance_of 1 example_loan_store = Some ''70.00''"
    by (simp add: example_loan_store_def)
  from th2 m2 a2 nz acc
  have mt: "marked T"
    and "map_of (transactions (snd (createTransaction 7 example_loan_insert example_store)))
           (currentTransactionId example_store) = Some T"
    unfolding T_def by blast+
  then have row: "map_of (transactions example_loan_store) 1 = Some T"
    by (simp add: example_loan_store_def example_store_def)
  have de: "description T = loan_payment_marker @ '' - cuota 3''"
    unfolding T_def
    by (simp add: createTransaction_row example_loan_insert_def)
  have ta: "accountId T = Some 1" and tt: "t_type T \<noteq> ''income''"
    unfolding T_def by code_simp+
  have sa: "map_of (accounts example_loan_store) 1
              = Some (example_account\<lparr> balance := ''70.00'' \<rparr>)"
    by code_simp
  have hs: "hundredths (balance (example_account\<lparr> balance := ''70.00'' \<rparr>))"
    and hT: "hundredths (amount T)"
    unfolding T_def by code_simp+
  have v3: "cents_str (cents_of (balance (example_account\<lparr> balance := ''70.00'' \<rparr>))
              + cents_of (amount T)) = ''100.00''"
    unfolding T_def by code_simp
  from th3 mt row ta nz sa hs hT
  have "balance_of 1 (snd (deleteTransaction 1 example_loan_store))
          = Some (cents_str
              (if t_type T = ''income''
               then cents_of (balance (example_account\<lparr> balance := ''70.00'' \<rparr>))
                      - cents_of (amount T)
               else cents_of (balance (example_account\<lparr> balance := ''70.00'' \<rparr>))
                      + cents_of (amount T)))"
    and c5: "map_of (transactions (snd (deleteTransaction 1 example_loan_store))) 1 = None"
    by blast+
  then have c4: "balance_of 1 (snd (deleteTransaction 1 example_loan_store)) = Some ''100.00''"
    using tt v3 by simp
  have f: "filter (\<lambda>t. \<not> marked t) example_marked_rows = U"
    unfolding U_def by code_simp
  have s: "monthlyIncome (analytics_summary 12 12 11 11 U []) = Fin 10"
    "monthlyExpenses (analytics_summary 12 12 11 11 U []) = Fin 0"
    "prevMonthIncome (analytics_summary 12 12 11 11 U []) = Fin 0"
    "prevMonthExpenses (analytics_summary 12 12 11 11 U []) = Fin 50"
    unfolding U_def by code_simp+
  have e: "expensesByCategory [] U = [(uncategorized_label, Num (Fin 50))]"
    unfolding U_def by code_simp
  have k: "''2025-01'' \<in> month_key example_year example_month ` set example_marked_rows"
    "''2024-12'' \<in> month_key example_year example_month ` set example_marked_rows"
    by code_simp+
  have z: "month_fold example_year example_month ''2025-01'' U zero_totals
             = \<lparr> acc_income = Fin 10, acc_expenses = Fin 0 \<rparr>"
    "month_fold example_year example_month ''2024-12'' U zero_totals
             = \<lparr> acc_income = Fin 0, acc_expenses = Fin 50 \<rparr>"
    unfolding U_def by code_simp+
  from th1 have "analytics_summary 12 12 11 11 example_marked_rows []
                   = analytics_summary 12 12 11 11
                       (filter (\<lambda>t. \<not> marked t) example_marked_rows) []"
    by blast
  then have su: "analytics_summary 12 12 11 11 example_marked_rows []
                       = analytics_summary 12 12 11 11 U []"
    unfolding f .
  from th1 have "expensesByCategory [] example_marked_rows
                   = expensesByCategory [] (filter (\<lambda>t. \<not> marked t) example_marked_rows)"
    by blast
  then have ex: "expensesByCategory [] example_marked_rows = expensesByCategory [] U"
    unfolding f .
  from th1
  have "\<forall>k. map_of (monthly_data example_year example_month example_marked_rows) k
          = (if k \<in> month_key example_year example_month ` set example_marked_rows
             then Some (month_fold example_year example_month k
                          (filter (\<lambda>t. \<not> marked t) example_marked_rows) zero_totals)
             else None)"
    by blast
  then
  have md: "\<forall>k. map_of (monthly_data example_year example_month example_marked_rows) k
          = (if k \<in> month_key example_year example_month ` set example_marked_rows
             then Some (month_fold example_year example_month k U zero_totals)
             else None)"
    unfolding f .
  from md k z
  have g: "map_of (monthly_data example_year example_month example_marked_rows) ''2025-01''
       = Some \<lparr> acc_income = Fin 10, acc_expenses = Fin 0 \<rparr>"
    "map_of (monthly_data example_year example_month example_marked_rows) ''2024-12''
       = Some \<lparr> acc_income = Fin 0, acc_expenses = Fin 50 \<rparr>"
    by simp_all
  from row de have c6: "map_option description (map_of (transactions example_loan_store) 1)
       = Some (loan_payment_marker @ '' - cuota 3'')"
    by simp
  show ?thesis
    using m1 m2 b0 c1 c2 c6 c3 c4 c5 g by (simp add: su ex s e)
qed

section \<open>The last six months\<close>

lemma sorted_last6: "sorted xs \<Longrightarrow> sorted (last6 xs)"
  by (simp add: last6_def sorted_wrt_drop)

lemma distinct_last6: "distinct xs \<Longrightarrow> distinct (last6 xs)"
  by (simp add: last6_def)

lemma sort_keys_set:
  "sort (map fst (monthly_data gy gm txs)) = sorted_list_of_set (month_key gy gm ` set txs)"
proof -
  have "sorted_list_of_set (set (map fst (monthly_data gy gm txs)))
          = sort (remdups (map fst (monthly_data gy gm txs)))"
    by (rule sorted_list_of_set_sort_remdups)
  then show ?thesis
    by (simp only: monthly_data_keys distinct_remdups_id [OF monthly_data_distinct])
qed

text \<open>
  C7. The trends list has at most six entries. Its month keys are strictly ascending in
  string order: they are the last six of the distinct month keys present in the data,
  sorted. Every entry's net is its income minus its expenses (the subtraction of
  JavaScript numbers). For dates whose year has four digits, which is what a key of the
  form \<^verbatim>\<open>YYYY-MM\<close> needs, the string order of the keys is the chronological order of the
  months.
\<close>

theorem monthlyTrends_last_six_sorted:
  "length (monthlyTrends gy gm txs) \<le> 6
   \<and> sorted (map month (monthlyTrends gy gm txs))
   \<and> distinct (map month (monthlyTrends gy gm txs))
   \<and> map month (monthlyTrends gy gm txs)
       = last6 (sorted_list_of_set (month_key gy gm ` set txs))
   \<and> (\<forall>e \<in> set (monthlyTrends gy gm txs). net e = fsub (income e) (expenses e))
   \<and> (\<forall>t \<in> set txs. \<forall>u \<in> set txs.
        four_digit_year gy gm t \<and> four_digit_year gy gm u \<longrightarrow>
          (month_key gy gm t < month_key gy gm u \<longleftrightarrow>
             gy (date_of t) < gy (date_of u)
             \<or> gy (date_of t) = gy (date_of u) \<and> gm (date_of t) < gm (date_of u)))"
proof -
  have l: "length (monthlyTrends gy gm txs) \<le> 6"
    by (simp add: monthlyTrends_entries length_last6)
  have s: "sorted (map month (monthlyTrends gy gm txs))"
    by (simp add: monthlyTrends_months sorted_last6)
  have d: "distinct (map month (monthlyTrends gy gm txs))"
    by (simp add: monthlyTrends_months distinct_last6 monthly_data_distinct)
  have m: "map month (monthlyTrends gy gm txs)
             = last6 (sorted_list_of_set (month_key gy gm ` set txs))"
    by (simp only: monthlyTrends_months sort_keys_set)
  have n: "\<forall>e \<in> set (monthlyTrends gy gm txs). net e = fsub (income e) (expenses e)"
    by (auto simp: monthlyTrends_entries trend_entry_def)
  have c: "month_key gy gm t < month_key gy gm u \<longleftrightarrow>
             gy (date_of t) < gy (date_of u)
             \<or> gy (date_of t) = gy (date_of u) \<and> gm (date_of t) < gm (date_of u)"
    if "four_digit_year gy gm t" and "four_digit_year gy gm u" for t u
    using that by (intro month_key_chronological) (simp_all add: four_digit_year_def)
  show ?thesis
    using l s d m n c by blast
qed

theorem monthlyTrends_last_six_sorted_witness:
  "map month (monthlyTrends example_year example_month example_seven_months)
     = [''2024-02'', ''2024-03'', ''2024-04'', ''2024-05'', ''2024-06'', ''2024-07'']
   \<and> sorted (map month (monthlyTrends example_year example_month example_seven_months))
   \<and> list_all (\<lambda>e. net e = fsub (income e) (expenses e))
         (monthlyTrends example_year example_month example_seven_months)
   \<and> month_key example_year example_month (example_row ''income'' ''10.00'' 5 None ''Venta'' None)
       < month_key example_year example_month
           (example_row ''expense'' ''40.00'' 6 (Some ''Transferencia'')
              ''Transferencia a Ahorros'' None)"
proof -
  define t where "t = example_row ''income'' ''10.00'' 5 None ''Venta'' None"
  define u where "u = example_row ''expense'' ''40.00'' 6 (Some ''Transferencia'')
              ''Transferencia a Ahorros'' None"
  note th = monthlyTrends_last_six_sorted [of example_year example_month example_seven_months]
  have k: "last6 (sorted_list_of_set
             (month_key example_year example_month ` set example_seven_months))
           = [''2024-02'', ''2024-03'', ''2024-04'', ''2024-05'', ''2024-06'', ''2024-07'']"
    by code_simp
  have h: "t \<in> set example_seven_months" "u \<in> set example_seven_months"
    "four_digit_year example_year example_month t" "four_digit_year example_year example_month u"
    unfolding t_def u_def by code_simp+
  have o: "example_year (date_of t) = example_year (date_of u)
           \<and> example_month (date_of t) < example_month (date_of u)"
    unfolding t_def u_def by code_simp
  from th k have a: "map month (monthlyTrends example_year example_month example_seven_months)
     = [''2024-02'', ''2024-03'', ''2024-04'', ''2024-05'', ''2024-06'', ''2024-07'']"
    by simp
  from th have n: "list_all (\<lambda>e. net e = fsub (income e) (expenses e))
         (monthlyTrends example_year example_month example_seven_months)"
    by (simp add: list_all_iff)
  from th h o have "month_key example_year example_month t < month_key example_year example_month u"
    by blast
  with th a n show ?thesis unfolding t_def u_def by blast
qed

section \<open>The entries of expenses by category\<close>

text \<open>
  The scenario of two categories and one expense without a category: Food 40.00,
  Transport 25.00 and 10.00 under the label for no category; a category that has no
  expense, and a category id that no category has, add no entry of their own.
\<close>

lemma expensesByCategory_scenario:
  "expensesByCategory
       [example_category 1 ''Food'', example_category 2 ''Transport'',
        example_category 3 ''Salud'']
       [example_row ''expense'' ''15.00'' 12 None ''Mercado'' (Some 1),
        example_row ''expense'' ''25.00'' 12 None ''Taxi'' (Some 2),
        example_row ''expense'' ''25.00'' 12 None ''Cena'' (Some 1),
        example_row ''expense'' ''4.00'' 12 None ''Varios'' None,
        example_row ''expense'' ''6.00'' 12 None ''Varios'' (Some 9),
        example_row ''expense'' ''99.00'' 12 (Some ''Transferencia'') ''Traslado'' (Some 2),
        example_row ''income'' ''70.00'' 12 None ''Venta'' (Some 1)]
     = [(''Food'', Num (Fin 40)), (''Transport'', Num (Fin 25)),
        (uncategorized_label, Num (Fin 10))]"
  by code_simp

text \<open>
  C9. The handler adds each counted expense to the entry of its category name, the label
  for no category standing in when \<open>categoryId\<close> is null or names no category, so that
  expenses under one name are summed and a category without expenses has no entry. It
  keeps the entries in a plain object, declared \<^verbatim>\<open>Record<string, number>\<close>, and reads the
  entry with \<^verbatim>\<open>acc[categoryName] || 0\<close>: for a category called \<^verbatim>\<open>constructor\<close> the read finds
  the member that every object inherits, and the entry becomes a string instead of the
  sum. Two expenses of 10.00 and 5.00 under such a category give one entry that is not a
  number, where the sum is 15.
\<close>

theorem expensesByCategory_inherited_name_failing_input:
  "expensesByCategory [example_category 3 ''constructor'']
       [example_row ''expense'' ''10.00'' 12 None ''Compra'' (Some 3),
        example_row ''expense'' ''5.00'' 12 None ''Compra'' (Some 3)]
     = [(''constructor'', Concatenated)]
   \<and> category_total [example_category 3 ''constructor''] ''constructor''
       [example_row ''expense'' ''10.00'' 12 None ''Compra'' (Some 3),
        example_row ''expense'' ''5.00'' 12 None ''Compra'' (Some 3)]
     = Fin 15"
  by code_simp

end
